theory Spec2Isabelle
  imports Complex_Main "HOL-Library.AList"
begin

section \<open>The objective (problem graph) of \<open>theseus/core/objective.py\<close>\<close>

subsection \<open>Objects\<close>

text \<open>
  Python objects are compared by identity (\<open>is\<close>, and the default \<open>==\<close> and hash used by
  \<open>list.index\<close> and by dictionaries keyed by objects). Every modelled object carries the
  identity as a field, so that equality of records is identity of objects. The tensor a
  \<open>Variable\<close> holds is mutable and shared by every container that refers to the variable;
  it lives in a store keyed by the variable's identity (\<open>var_tensor\<close> below).
\<close>

datatype dtype = Float32 | Float64

record variable =
  var_id :: nat
  var_name :: "string option"
  var_dtype :: dtype

record cost_weight =
  cw_id :: nat
  cw_name :: string
  cw_optim_vars :: "variable list"
  cw_aux_vars :: "variable list"

record cost_function =
  cf_id :: nat
  cf_name :: string
  cf_optim_vars :: "variable list"
  cf_aux_vars :: "variable list"
  cf_weight :: cost_weight

text \<open>A \<open>TheseusFunction\<close> is a cost function or a cost weight.\<close>

datatype theseus_function = CostFn cost_function | WeightFn cost_weight

text \<open>
  A tensor: its number of dimensions and its rows along the leading (batch) dimension,
  each row flattened. \<open>shape[0]\<close> is the number of rows.
\<close>

record tensor =
  t_ndim :: nat
  t_rows :: "real list list"

datatype exn =
    UnnamedVariable
  | DtypeMismatch
  | DuplicateVariableName
  | DuplicateCostFunctionName
  | CostWeightOptimVars
  | DualVariable
  | NotBroadcastable
  | TensorNdim
  | AssertionError
  | KeyError
  | NotInList
  | IndexError
  | EmptyCat
  | CatSizeMismatch
  | ShapeMismatch
  | SingularMatrix
  | AttributeError

subsection \<open>Dictionaries\<close>

text \<open>
  Dictionaries are association lists with distinct keys, in insertion order:
  \<open>d[k] = v\<close> is \<^const>\<open>AList.update\<close> (the position of an existing key is kept, a new key
  goes last), \<open>del d[k]\<close> is \<^const>\<open>AList.delete\<close>, \<open>d[k]\<close> is \<^const>\<open>map_of\<close>.
\<close>

definition has_key :: "('k \<times> 'v) list \<Rightarrow> 'k \<Rightarrow> bool" where
  "has_key d k = (map_of d k \<noteq> None)"

record objective =
  optim_vars :: "(string \<times> variable) list"
  cost_weight_optim_vars :: "(string \<times> variable) list"
  aux_vars :: "(string \<times> variable) list"
  all_variables :: "(string \<times> variable) list"
  cost_functions :: "(string \<times> cost_function) list"
  cost_functions_for_weights :: "(cost_weight \<times> cost_function list) list"
  functions_for_optim_vars :: "(variable \<times> theseus_function list) list"
  functions_for_aux_vars :: "(variable \<times> theseus_function list) list"
  batch_size :: "nat option"
  obj_dtype :: dtype
  current_version :: nat
  allow_mixed_optim_aux_vars :: bool
  var_tensor :: "nat \<Rightarrow> tensor"

text \<open>
  \<open>Objective.__init__\<close>. The store of tensors is the one of the surrounding program. The
  vectorization hooks are left at their initial values throughout (\<open>_vectorized = False\<close>),
  where \<open>update_vectorization_if_needed\<close> does nothing.
\<close>

definition init_objective :: "dtype \<Rightarrow> bool \<Rightarrow> (nat \<Rightarrow> tensor) \<Rightarrow> objective" where
  "init_objective dt mixed store =
     \<lparr> optim_vars = [], cost_weight_optim_vars = [], aux_vars = [], all_variables = [],
       cost_functions = [], cost_functions_for_weights = [],
       functions_for_optim_vars = [], functions_for_aux_vars = [],
       batch_size = None, obj_dtype = dt, current_version = 0,
       allow_mixed_optim_aux_vars = mixed, var_tensor = store \<rparr>"

text \<open>
  An exception leaves the objective as mutated so far: a raising call returns
  \<open>Inl (exception, objective at the raise)\<close>.
\<close>

type_synonym 'a result = "(exn \<times> objective) + 'a"

subsection \<open>Queries\<close>

definition has_cost_function :: "objective \<Rightarrow> string \<Rightarrow> bool" where
  "has_cost_function s name = has_key (cost_functions s) name"

definition has_optim_var :: "objective \<Rightarrow> string option \<Rightarrow> bool" where
  "has_optim_var s name = (case name of None \<Rightarrow> False | Some n \<Rightarrow> has_key (optim_vars s) n)"

definition has_aux_var :: "objective \<Rightarrow> string option \<Rightarrow> bool" where
  "has_aux_var s name = (case name of None \<Rightarrow> False | Some n \<Rightarrow> has_key (aux_vars s) n)"

definition get_cost_function :: "objective \<Rightarrow> string \<Rightarrow> cost_function option" where
  "get_cost_function s name = map_of (cost_functions s) name"

definition size_cost_functions :: "objective \<Rightarrow> nat" where
  "size_cost_functions s = length (cost_functions s)"

definition size_variables :: "objective \<Rightarrow> nat" where
  "size_variables s = length (optim_vars s)"

definition size_aux_vars :: "objective \<Rightarrow> nat" where
  "size_aux_vars s = length (aux_vars s)"

subsection \<open>\<open>_add_function_variables\<close> and \<open>add\<close>\<close>

text \<open>
  The two containers \<open>_add_function_variables\<close> and \<open>_erase_function_variables\<close> select from
  their flags: the adjacency map and the registry of the variables of this type.
\<close>

definition var_to_fn_map :: "bool \<Rightarrow> objective \<Rightarrow> (variable \<times> theseus_function list) list" where
  "var_to_fn_map optim s = (if optim then functions_for_optim_vars s else functions_for_aux_vars s)"

definition set_var_to_fn_map ::
  "bool \<Rightarrow> (variable \<times> theseus_function list) list \<Rightarrow> objective \<Rightarrow> objective" where
  "set_var_to_fn_map optim m s =
     (if optim then s\<lparr>functions_for_optim_vars := m\<rparr> else s\<lparr>functions_for_aux_vars := m\<rparr>)"

definition vars_of_this_type :: "bool \<Rightarrow> bool \<Rightarrow> objective \<Rightarrow> (string \<times> variable) list" where
  "vars_of_this_type optim is_cost_weight s =
     (if optim then (if is_cost_weight then cost_weight_optim_vars s else optim_vars s)
      else aux_vars s)"

definition set_vars_of_this_type ::
  "bool \<Rightarrow> bool \<Rightarrow> (string \<times> variable) list \<Rightarrow> objective \<Rightarrow> objective" where
  "set_vars_of_this_type optim is_cost_weight d s =
     (if optim then (if is_cost_weight then s\<lparr>cost_weight_optim_vars := d\<rparr>
                     else s\<lparr>optim_vars := d\<rparr>)
      else s\<lparr>aux_vars := d\<rparr>)"

text \<open>The body of the loop of \<open>_add_function_variables\<close>, for one variable.\<close>

definition add_function_variable ::
  "theseus_function \<Rightarrow> bool \<Rightarrow> bool \<Rightarrow> variable \<Rightarrow> objective \<Rightarrow> objective result" where
  "add_function_variable function optim is_cost_weight v s =
     (case var_name v of
        None \<Rightarrow> Inl (UnnamedVariable, s)
      | Some name \<Rightarrow>
          if var_dtype v \<noteq> obj_dtype s then Inl (DtypeMismatch, s)
          else
            (case (case map_of (all_variables s) name of
                     Some v' \<Rightarrow> if v \<noteq> v' then Inl (DuplicateVariableName, s) else Inr s
                   | None \<Rightarrow>
                       let s1 = s\<lparr>all_variables := AList.update name v (all_variables s)\<rparr>
                       in if has_key (var_to_fn_map optim s1) v then Inl (AssertionError, s1)
                          else Inr (set_var_to_fn_map optim
                                      (AList.update v [] (var_to_fn_map optim s1)) s1)) of
               Inl e \<Rightarrow> Inl e
             | Inr s2 \<Rightarrow>
                 let s3 = set_vars_of_this_type optim is_cost_weight
                            (AList.update name v (vars_of_this_type optim is_cost_weight s2)) s2;
                     s4 = (if allow_mixed_optim_aux_vars s3 \<and> \<not> has_key (var_to_fn_map optim s3) v
                           then set_var_to_fn_map optim
                                  (AList.update v [] (var_to_fn_map optim s3)) s3
                           else s3)
                 in (case map_of (var_to_fn_map optim s4) v of
                       None \<Rightarrow> Inl (KeyError, s4)
                     | Some fs \<Rightarrow>
                         Inr (set_var_to_fn_map optim
                                (AList.update v (fs @ [function]) (var_to_fn_map optim s4)) s4))))"

fun add_function_variables_loop ::
  "theseus_function \<Rightarrow> bool \<Rightarrow> bool \<Rightarrow> variable list \<Rightarrow> objective \<Rightarrow> objective result" where
  "add_function_variables_loop function optim is_cost_weight [] s = Inr s"
| "add_function_variables_loop function optim is_cost_weight (v # vs) s =
     (case add_function_variable function optim is_cost_weight v s of
        Inl e \<Rightarrow> Inl e
      | Inr s' \<Rightarrow> add_function_variables_loop function optim is_cost_weight vs s')"

definition function_optim_vars :: "theseus_function \<Rightarrow> variable list" where
  "function_optim_vars f = (case f of CostFn c \<Rightarrow> cf_optim_vars c | WeightFn w \<Rightarrow> cw_optim_vars w)"

definition function_aux_vars :: "theseus_function \<Rightarrow> variable list" where
  "function_aux_vars f = (case f of CostFn c \<Rightarrow> cf_aux_vars c | WeightFn w \<Rightarrow> cw_aux_vars w)"

definition add_function_variables ::
  "theseus_function \<Rightarrow> bool \<Rightarrow> bool \<Rightarrow> objective \<Rightarrow> objective result" where
  "add_function_variables function optim is_cost_weight s =
     add_function_variables_loop function optim is_cost_weight
       (if optim then function_optim_vars function else function_aux_vars function) s"

text \<open>The book-keeping for the weight, done when the weight is not yet a key.\<close>

definition add_weight :: "cost_function \<Rightarrow> objective \<Rightarrow> objective result" where
  "add_weight cf s =
     (let w = cf_weight cf in
      if has_key (cost_functions_for_weights s) w then Inr s
      else
        (case add_function_variables (WeightFn w) True True s of
           Inl e \<Rightarrow> Inl e
         | Inr s1 \<Rightarrow>
             (case add_function_variables (WeightFn w) False True s1 of
                Inl e \<Rightarrow> Inl e
              | Inr s2 \<Rightarrow>
                  let s3 = s2\<lparr>cost_functions_for_weights :=
                                AList.update w [] (cost_functions_for_weights s2)\<rparr>
                  in if length (cw_optim_vars w) > 0 then Inl (CostWeightOptimVars, s3)
                     else Inr s3)))"

text \<open>The final check of \<open>add\<close>: no variable is both optimization and auxiliary.\<close>

definition check_dual_vars :: "cost_function \<Rightarrow> objective \<Rightarrow> objective result" where
  "check_dual_vars cf s =
     (let optim_vars_names = map var_name (cf_optim_vars cf @ cw_optim_vars (cf_weight cf));
          aux_vars_names = map var_name (cf_aux_vars cf @ cw_aux_vars (cf_weight cf))
      in if \<not> allow_mixed_optim_aux_vars s then
           (if list_ex (has_aux_var s) optim_vars_names then Inl (DualVariable, s)
            else if list_ex (has_optim_var s) aux_vars_names then Inl (DualVariable, s)
            else Inr s)
         else Inr s)"

text \<open>
  \<open>add\<close>, in two parts: the registration of the cost function under its name, and the
  book-keeping that follows the increment of the version.
\<close>

definition add_bookkeeping :: "cost_function \<Rightarrow> objective \<Rightarrow> objective result" where
  "add_bookkeeping cf s2 =
     (case add_function_variables (CostFn cf) True False s2 of
        Inl e \<Rightarrow> Inl e
      | Inr s3 \<Rightarrow>
          (case add_function_variables (CostFn cf) False False s3 of
             Inl e \<Rightarrow> Inl e
           | Inr s4 \<Rightarrow>
               (case add_weight cf s4 of
                  Inl e \<Rightarrow> Inl e
                | Inr s5 \<Rightarrow>
                    (case map_of (cost_functions_for_weights s5) (cf_weight cf) of
                       None \<Rightarrow> Inl (KeyError, s5)
                     | Some cfs \<Rightarrow>
                         check_dual_vars cf
                           (s5\<lparr>cost_functions_for_weights :=
                                 AList.update (cf_weight cf) (cfs @ [cf])
                                   (cost_functions_for_weights s5)\<rparr>)))))"

definition add :: "cost_function \<Rightarrow> objective \<Rightarrow> objective result" where
  "add cf s =
     (case map_of (cost_functions s) (cf_name cf) of
        Some cf' \<Rightarrow>
          if cf \<noteq> cf' then Inl (DuplicateCostFunctionName, s)
          else add_bookkeeping cf (s\<lparr>current_version := current_version s + 1\<rparr>)
      | None \<Rightarrow>
          add_bookkeeping cf
            (s\<lparr>cost_functions := AList.update (cf_name cf) cf (cost_functions s),
               current_version := current_version s + 1\<rparr>))"

subsection \<open>\<open>_erase_function_variables\<close> and \<open>erase\<close>\<close>

text \<open>
  \<open>list.index\<close> raises when the element is absent; \<open>del xs[xs.index(x)]\<close> removes the first
  occurrence (\<^const>\<open>remove1\<close>).
\<close>

definition erase_function_variable ::
  "theseus_function \<Rightarrow> bool \<Rightarrow> bool \<Rightarrow> variable \<Rightarrow> objective \<Rightarrow> objective result" where
  "erase_function_variable function optim is_cost_weight v s =
     (case map_of (var_to_fn_map optim s) v of
        None \<Rightarrow> Inl (KeyError, s)
      | Some fs \<Rightarrow>
          if function \<notin> set fs then Inl (NotInList, s)
          else
            let fs' = remove1 function fs;
                s1 = set_var_to_fn_map optim (AList.update v fs' (var_to_fn_map optim s)) s
            in if fs' = [] then
                 let s2 = set_var_to_fn_map optim (AList.delete v (var_to_fn_map optim s1)) s1
                 in (case var_name v of
                       None \<Rightarrow> Inl (KeyError, s2)
                     | Some name \<Rightarrow>
                         if has_key (vars_of_this_type optim is_cost_weight s2) name
                         then Inr (set_vars_of_this_type optim is_cost_weight
                                     (AList.delete name (vars_of_this_type optim is_cost_weight s2)) s2)
                         else Inl (KeyError, s2))
               else Inr s1)"

fun erase_function_variables_loop ::
  "theseus_function \<Rightarrow> bool \<Rightarrow> bool \<Rightarrow> variable list \<Rightarrow> objective \<Rightarrow> objective result" where
  "erase_function_variables_loop function optim is_cost_weight [] s = Inr s"
| "erase_function_variables_loop function optim is_cost_weight (v # vs) s =
     (case erase_function_variable function optim is_cost_weight v s of
        Inl e \<Rightarrow> Inl e
      | Inr s' \<Rightarrow> erase_function_variables_loop function optim is_cost_weight vs s')"

definition erase_function_variables ::
  "theseus_function \<Rightarrow> bool \<Rightarrow> bool \<Rightarrow> objective \<Rightarrow> objective result" where
  "erase_function_variables function optim is_cost_weight s =
     erase_function_variables_loop function optim is_cost_weight
       (if optim then function_optim_vars function else function_aux_vars function) s"

text \<open>The part of \<open>erase\<close> for the weight of the erased cost function.\<close>

definition erase_weight :: "cost_function \<Rightarrow> objective \<Rightarrow> objective result" where
  "erase_weight cf s =
     (let w = cf_weight cf in
      case map_of (cost_functions_for_weights s) w of
        None \<Rightarrow> Inl (KeyError, s)
      | Some cfs \<Rightarrow>
          if cf \<notin> set cfs then Inl (NotInList, s)
          else
            let cfs' = remove1 cf cfs;
                s1 = s\<lparr>cost_functions_for_weights :=
                         AList.update w cfs' (cost_functions_for_weights s)\<rparr>
            in if length cfs' = 0 then
                 (case erase_function_variables (WeightFn w) True True s1 of
                    Inl e \<Rightarrow> Inl e
                  | Inr s2 \<Rightarrow>
                      (case erase_function_variables (WeightFn w) False True s2 of
                         Inl e \<Rightarrow> Inl e
                       | Inr s3 \<Rightarrow>
                           Inr (s3\<lparr>cost_functions_for_weights :=
                                     AList.delete w (cost_functions_for_weights s3)\<rparr>)))
               else Inr s1)"

definition erase :: "string \<Rightarrow> objective \<Rightarrow> objective result" where
  "erase name s =
     (let s1 = s\<lparr>current_version := current_version s + 1\<rparr> in
      case map_of (cost_functions s1) name of
        Some cf \<Rightarrow>
          (case erase_function_variables (CostFn cf) True False s1 of
             Inl e \<Rightarrow> Inl e
           | Inr s2 \<Rightarrow>
               (case erase_function_variables (CostFn cf) False False s2 of
                  Inl e \<Rightarrow> Inl e
                | Inr s3 \<Rightarrow>
                    (case erase_weight cf s3 of
                       Inl e \<Rightarrow> Inl e
                     | Inr s4 \<Rightarrow>
                         Inr (s4\<lparr>cost_functions := AList.delete name (cost_functions s4)\<rparr>))))
      | None \<Rightarrow> Inr s1)"

subsection \<open>\<open>update\<close> and \<open>_resolve_batch_size\<close>\<close>

text \<open>
  Modelled from the spec: \<open>Variable.update\<close> (\<open>theseus/core/variable.py\<close> is not part of the
  sources). The spec gives it as \<open>update(newValue, ignoreMask?)\<close>, "writes it into the
  matching variable", and \<open>objective.py\<close> documents the mask: a true entry means that this
  batch index stays as it is.
\<close>

definition Variable_update :: "tensor \<Rightarrow> tensor \<Rightarrow> bool list option \<Rightarrow> tensor" where
  "Variable_update old new batch_ignore_mask =
     (case batch_ignore_mask of
        None \<Rightarrow> new
      | Some m \<Rightarrow>
          if \<not> list_ex (\<lambda>b. b) m then new
          else new\<lparr>t_rows := map (\<lambda>(keep, old_row, new_row). if keep then old_row else new_row)
                                 (zip m (zip (t_rows old) (t_rows new)))\<rparr>)"

definition write_tensor :: "variable \<Rightarrow> tensor \<Rightarrow> bool list option \<Rightarrow> objective \<Rightarrow> objective" where
  "write_tensor v t batch_ignore_mask s =
     s\<lparr>var_tensor := (var_tensor s)
          (var_id v := Variable_update (var_tensor s (var_id v)) t batch_ignore_mask)\<rparr>"

text \<open>The loop of \<open>update\<close> over the items of \<open>input_tensors\<close>.\<close>

fun update_loop ::
  "(string \<times> tensor) list \<Rightarrow> bool list option \<Rightarrow> objective \<Rightarrow> objective result" where
  "update_loop [] batch_ignore_mask s = Inr s"
| "update_loop ((name, t) # rest) batch_ignore_mask s =
     (if t_ndim t < 2 then Inl (TensorNdim, s)
      else
        (case map_of (optim_vars s) name of
           Some v \<Rightarrow> update_loop rest batch_ignore_mask (write_tensor v t batch_ignore_mask s)
         | None \<Rightarrow>
             (case map_of (aux_vars s) name of
                Some v \<Rightarrow> update_loop rest batch_ignore_mask (write_tensor v t batch_ignore_mask s)
              | None \<Rightarrow>
                  (case map_of (cost_weight_optim_vars s) name of
                     Some v \<Rightarrow>
                       update_loop rest batch_ignore_mask (write_tensor v t batch_ignore_mask s)
                   | None \<Rightarrow> update_loop rest batch_ignore_mask s))))"

text \<open>\<open>tensor.shape[0]\<close>: a tensor without dimensions has none.\<close>

definition shape0 :: "tensor \<Rightarrow> nat option" where
  "shape0 t = (if t_ndim t = 0 then None else Some (length (t_rows t)))"

text \<open>The inner \<open>_get_batch_size\<close>; \<open>None\<close> is the \<open>ValueError\<close>.\<close>

definition get_batch_size :: "nat list \<Rightarrow> nat option" where
  "get_batch_size batch_sizes =
     (let unique_batch_sizes = set batch_sizes in
      if card unique_batch_sizes = 1 then Some (hd batch_sizes)
      else if card unique_batch_sizes = 2 \<and> Min unique_batch_sizes = 1
           then Some (Max unique_batch_sizes)
      else None)"

definition batch_sizes_of :: "objective \<Rightarrow> nat option list" where
  "batch_sizes_of s =
     map (\<lambda>(name, v). shape0 (var_tensor s (var_id v))) (optim_vars s) @
     map (\<lambda>(name, v). shape0 (var_tensor s (var_id v))) (aux_vars s)"

definition resolve_batch_size :: "objective \<Rightarrow> objective result" where
  "resolve_batch_size s =
     (let s0 = s\<lparr>batch_size := None\<rparr> in
      case those (batch_sizes_of s0) of
        None \<Rightarrow> Inl (IndexError, s0)
      | Some batch_sizes \<Rightarrow>
          (case get_batch_size batch_sizes of
             None \<Rightarrow> Inl (NotBroadcastable, s0)
           | Some n \<Rightarrow> Inr (s0\<lparr>batch_size := Some n\<rparr>)))"

text \<open>
  \<open>update\<close>. With vectorization off, \<open>update_vectorization_if_needed\<close> does nothing, whatever
  \<open>_update_vectorization\<close> is.
\<close>

definition update ::
  "(string \<times> tensor) list option \<Rightarrow> bool list option \<Rightarrow> bool \<Rightarrow> objective \<Rightarrow> objective result"
  where
  "update input_tensors batch_ignore_mask update_vectorization s =
     (case update_loop (case input_tensors of None \<Rightarrow> [] | Some d \<Rightarrow> d) batch_ignore_mask s of
        Inl e \<Rightarrow> Inl e
      | Inr s1 \<Rightarrow> resolve_batch_size s1)"

subsection \<open>\<open>error\<close>\<close>

text \<open>
  \<open>torch.cat(tensors, dim=1)\<close> on two-dimensional tensors: the rows of the tensors are
  joined; an empty list of tensors and tensors with different numbers of rows raise.
\<close>

definition torch_cat_dim1 :: "real list list list \<Rightarrow> exn + real list list" where
  "torch_cat_dim1 ts =
     (case ts of
        [] \<Rightarrow> Inl EmptyCat
      | t # rest \<Rightarrow>
          if list_all (\<lambda>u. length u = length t) rest
          then Inr (map (\<lambda>i. concat (map (\<lambda>u. u ! i) ts)) [0 ..< length t])
          else Inl CatSizeMismatch)"

text \<open>
  \<open>error\<close>. The weighted error of a cost function is computed by the cost function from
  the tensors its variables hold: the parameter \<open>weighted_error\<close>.
\<close>

definition error ::
  "(cost_function \<Rightarrow> (nat \<Rightarrow> tensor) \<Rightarrow> real list list) \<Rightarrow>
   (string \<times> tensor) list option \<Rightarrow> bool \<Rightarrow> objective \<Rightarrow> (real list list \<times> objective) result"
  where
  "error weighted_error input_tensors also_update s =
     (let old_tensors =
            (if input_tensors \<noteq> None \<and> \<not> also_update
             then map (\<lambda>(name, v). (name, var_tensor s (var_id v))) (optim_vars s)
             else [])
      in case (if input_tensors \<noteq> None then update input_tensors None also_update s
               else Inr s) of
           Inl e \<Rightarrow> Inl e
         | Inr s1 \<Rightarrow>
             (case torch_cat_dim1
                     (map (\<lambda>(name, cf). weighted_error cf (var_tensor s1)) (cost_functions s1)) of
                Inl e \<Rightarrow> Inl (e, s1)
              | Inr error_vector \<Rightarrow>
                  if input_tensors \<noteq> None \<and> \<not> also_update
                  then (case update (Some old_tensors) None False s1 of
                          Inl e \<Rightarrow> Inl e
                        | Inr s2 \<Rightarrow> Inr (error_vector, s2))
                  else Inr (error_vector, s1)))"

text \<open>\<open>error_squared_norm_fn\<close>, the default error metric, and \<open>error_metric\<close>.\<close>

definition error_squared_norm_fn :: "real list list \<Rightarrow> real list" where
  "error_squared_norm_fn error_vector = map (\<lambda>row. sum_list (map (\<lambda>x. x ^ 2) row) / 2) error_vector"

definition error_metric ::
  "(real list list \<Rightarrow> real list) \<Rightarrow> (cost_function \<Rightarrow> (nat \<Rightarrow> tensor) \<Rightarrow> real list list) \<Rightarrow>
   (string \<times> tensor) list option \<Rightarrow> bool \<Rightarrow> objective \<Rightarrow> (real list \<times> objective) result"
  where
  "error_metric error_metric_fn weighted_error input_tensors also_update s =
     (case error weighted_error input_tensors also_update s of
        Inl e \<Rightarrow> Inl e
      | Inr (error_vector, s') \<Rightarrow> Inr (error_metric_fn error_vector, s'))"

text \<open>The objective as a call leaves it, and the exception of a raising call.\<close>

definition final_state :: "objective result \<Rightarrow> objective" where
  "final_state r = (case r of Inl (e, s) \<Rightarrow> s | Inr s \<Rightarrow> s)"

definition raised :: "'a result \<Rightarrow> exn option" where
  "raised r = (case r of Inl (e, s) \<Rightarrow> Some e | Inr x \<Rightarrow> None)"

definition state_of :: "('a \<times> objective) result \<Rightarrow> objective" where
  "state_of r = (case r of Inl (e, s) \<Rightarrow> s | Inr (x, s) \<Rightarrow> s)"

subsection \<open>A small problem graph\<close>

text \<open>
  Two cost functions: \<open>f\<close> over the optimization variable \<open>x\<close> and the auxiliary variable
  \<open>a\<close>, with a weight without variables; \<open>g\<close> over the optimization variable \<open>y\<close>, with a
  weight that reads the auxiliary variable \<open>a\<close>. \<open>ex_f_clash\<close> is another object named \<open>f\<close>.
  Every variable holds a tensor of shape \<open>(1, 1)\<close>.
\<close>

definition ex_x :: variable where
  "ex_x = \<lparr>var_id = 0, var_name = Some ''x'', var_dtype = Float32\<rparr>"

definition ex_a :: variable where
  "ex_a = \<lparr>var_id = 1, var_name = Some ''a'', var_dtype = Float32\<rparr>"

definition ex_y :: variable where
  "ex_y = \<lparr>var_id = 2, var_name = Some ''y'', var_dtype = Float32\<rparr>"

definition ex_w :: cost_weight where
  "ex_w = \<lparr>cw_id = 0, cw_name = ''w'', cw_optim_vars = [], cw_aux_vars = []\<rparr>"

definition ex_wa :: cost_weight where
  "ex_wa = \<lparr>cw_id = 1, cw_name = ''wa'', cw_optim_vars = [], cw_aux_vars = [ex_a]\<rparr>"

definition ex_f :: cost_function where
  "ex_f = \<lparr>cf_id = 0, cf_name = ''f'', cf_optim_vars = [ex_x], cf_aux_vars = [ex_a],
           cf_weight = ex_w\<rparr>"

definition ex_g :: cost_function where
  "ex_g = \<lparr>cf_id = 1, cf_name = ''g'', cf_optim_vars = [ex_y], cf_aux_vars = [],
           cf_weight = ex_wa\<rparr>"

definition ex_f_clash :: cost_function where
  "ex_f_clash = \<lparr>cf_id = 2, cf_name = ''f'', cf_optim_vars = [ex_y], cf_aux_vars = [],
                 cf_weight = ex_w\<rparr>"

definition ex_tensor :: "real \<Rightarrow> tensor" where
  "ex_tensor r = \<lparr>t_ndim = 2, t_rows = [[r]]\<rparr>"

definition ex_store :: "nat \<Rightarrow> tensor" where
  "ex_store i = ex_tensor 0"

definition ex_graph_f :: objective where
  "ex_graph_f = final_state (add ex_f (init_objective Float32 False ex_store))"

definition ex_graph_fg :: objective where
  "ex_graph_fg = final_state (add ex_g ex_graph_f)"

text \<open>A weighted error for the example: the rows of the first optimization variable.\<close>

definition ex_weighted_error :: "cost_function \<Rightarrow> (nat \<Rightarrow> tensor) \<Rightarrow> real list list" where
  "ex_weighted_error cf store =
     (case cf_optim_vars cf of [] \<Rightarrow> [] | v # vs \<Rightarrow> t_rows (store (var_id v)))"

text \<open>A tensor of shape \<open>(k, 1)\<close>.\<close>

definition ex_rows :: "nat \<Rightarrow> tensor" where
  "ex_rows k = \<lparr>t_ndim = 2, t_rows = replicate k [0]\<rparr>"

subsection \<open>Exact adjacency lists\<close>

text \<open>
  The book-keeping of a variable is exact for a function when the adjacency list \<open>fs\<close> of
  the variable holds the function once for each occurrence of the variable among the
  variables \<open>vs\<close> of the function, and a variable is identified by its name when no other
  key of the adjacency map has this name.
\<close>

definition listed_as_referenced ::
  "theseus_function \<Rightarrow> variable list \<Rightarrow> variable \<Rightarrow> theseus_function list \<Rightarrow> bool" where
  "listed_as_referenced F vs v fs = (count_list fs F = count_list vs v)"

definition name_identifies :: "(variable \<times> theseus_function list) list \<Rightarrow> variable \<Rightarrow> bool" where
  "name_identifies m v = list_all (\<lambda>(u, fs). var_name u = var_name v \<longrightarrow> u = v) m"

definition ex_graph_g :: objective where
  "ex_graph_g = final_state (add ex_g (init_objective Float32 False ex_store))"

section \<open>Gaussian belief propagation of \<open>theseus/optimizer/gbp/gbp.py\<close>\<close>

subsection \<open>Tensors\<close>

text \<open>
  Tensors are nested lists of reals, the leading list running over the batch: a batch of
  vectors is a \<open>real list list\<close>, a batch of matrices a \<open>real list list list\<close>. Arithmetic is
  exact. The operations of \<open>torch\<close> and \<open>numpy\<close> raise on operands whose shapes do not fit;
  the functions below are total and meant for operands whose shapes fit, and a theorem that
  depends on the shapes carries them as hypotheses.
\<close>

type_synonym vec = "real list"
type_synonym mat = "real list list"

definition zeros_vec :: "nat \<Rightarrow> vec" where
  "zeros_vec n = replicate n 0"

definition zeros_mat :: "nat \<Rightarrow> nat \<Rightarrow> mat" where
  "zeros_mat n m = replicate n (replicate m 0)"

definition dot :: "vec \<Rightarrow> vec \<Rightarrow> real" where
  "dot u v = sum_list (map2 (*) u v)"

definition col :: "mat \<Rightarrow> nat \<Rightarrow> vec" where
  "col A j = map (\<lambda>row. row ! j) A"

text \<open>The number of columns of a matrix with at least one row.\<close>

definition ncols :: "mat \<Rightarrow> nat" where
  "ncols A = (case A of [] \<Rightarrow> 0 | row # rows \<Rightarrow> length row)"

text \<open>\<open>A @ B\<close> for a matrix \<open>B\<close> with \<open>p\<close> columns, and \<open>A @ v\<close> for a vector.\<close>

definition matmul :: "nat \<Rightarrow> mat \<Rightarrow> mat \<Rightarrow> mat" where
  "matmul p A B = map (\<lambda>row. map (\<lambda>j. dot row (col B j)) [0 ..< p]) A"

definition matvec :: "mat \<Rightarrow> vec \<Rightarrow> vec" where
  "matvec A v = map (\<lambda>row. dot row v) A"

definition mat_transpose :: "mat \<Rightarrow> mat" where
  "mat_transpose A = map (col A) [0 ..< ncols A]"

definition vec_add :: "vec \<Rightarrow> vec \<Rightarrow> vec" where
  "vec_add u v = map2 (+) u v"

definition vec_sub :: "vec \<Rightarrow> vec \<Rightarrow> vec" where
  "vec_sub u v = map2 (-) u v"

definition vec_scale :: "real \<Rightarrow> vec \<Rightarrow> vec" where
  "vec_scale c v = map (\<lambda>x. c * x) v"

definition mat_add :: "mat \<Rightarrow> mat \<Rightarrow> mat" where
  "mat_add A B = map2 vec_add A B"

definition mat_sub :: "mat \<Rightarrow> mat \<Rightarrow> mat" where
  "mat_sub A B = map2 vec_sub A B"

definition identity_mat :: "nat \<Rightarrow> mat" where
  "identity_mat n = map (\<lambda>i. map (\<lambda>j. if i = j then 1 else 0) [0 ..< n]) [0 ..< n]"

text \<open>\<open>torch.bmm\<close> and the batched transpose, product with a vector and sum.\<close>

definition bmm :: "mat list \<Rightarrow> mat list \<Rightarrow> mat list" where
  "bmm As Bs = map2 (\<lambda>A B. matmul (ncols B) A B) As Bs"

definition batch_transpose :: "mat list \<Rightarrow> mat list" where
  "batch_transpose As = map mat_transpose As"

definition batch_matvec :: "mat list \<Rightarrow> vec list \<Rightarrow> vec list" where
  "batch_matvec As vs = map2 matvec As vs"

definition batch_mat_add :: "mat list \<Rightarrow> mat list \<Rightarrow> mat list" where
  "batch_mat_add As Bs = map2 mat_add As Bs"

definition batch_vec_add :: "vec list \<Rightarrow> vec list \<Rightarrow> vec list" where
  "batch_vec_add us vs = map2 vec_add us vs"

text \<open>\<open>count_nonzero\<close> of a matrix and of a batch of matrices.\<close>

definition count_nonzero :: "mat \<Rightarrow> nat" where
  "count_nonzero A = length (filter (\<lambda>x. x \<noteq> 0) (concat A))"

definition batch_count_nonzero :: "mat list \<Rightarrow> nat" where
  "batch_count_nonzero As = length (filter (\<lambda>x. x \<noteq> 0) (concat (concat As)))"

text \<open>
  Matrix inversion (\<open>torch.inverse\<close>, \<open>np.linalg.inv\<close>) over the reals, by the adjugate: a
  matrix without inverse raises, the matrix without rows is its own inverse.
\<close>

definition minor :: "mat \<Rightarrow> nat \<Rightarrow> nat \<Rightarrow> mat" where
  "minor A i j = map (\<lambda>row. take j row @ drop (Suc j) row) (take i A @ drop (Suc i) A)"

function det :: "mat \<Rightarrow> real" where
  "det A =
     (if A = [] then 1
      else sum_list (map (\<lambda>j. (- 1) ^ j * (hd A ! j) * det (minor A 0 j)) [0 ..< length A]))"
  by pat_completeness auto
termination
  by (relation "measure length") (auto simp: minor_def)

definition matrix_inverse :: "mat \<Rightarrow> mat option" where
  "matrix_inverse A =
     (let d = det A; n = length A in
      if d = 0 then None
      else Some (map (\<lambda>i. map (\<lambda>j. (- 1) ^ (i + j) * det (minor A j i) / d) [0 ..< n]) [0 ..< n]))"

definition batch_inverse :: "mat list \<Rightarrow> mat list option" where
  "batch_inverse As = those (map matrix_inverse As)"

subsection \<open>Manifold variables and Gaussians on them\<close>

text \<open>
  A manifold variable as the optimizer sees it: the class of its Lie group (kept by copies
  and updates) and its data, one row for each batch element. Names and the identifiers
  drawn from global counters are left out; no computation reads them.

  The geometry of the Lie groups is outside the sources (the core "only needs a manifold
  capability contract"): \<open>dof\<close>, \<open>local\<close>, \<open>retract\<close> and the Jacobian that
  \<open>th.exp_map(var, tangent, jacobians=jac)\<close> stores in \<open>jac[0]\<close> are parameters.
\<close>

record manifold =
  m_group :: nat
  m_data :: "real list list"

record geometry =
  g_dof :: "manifold \<Rightarrow> nat"
  g_local :: "manifold \<Rightarrow> manifold \<Rightarrow> vec list"
  g_retract :: "manifold \<Rightarrow> vec list \<Rightarrow> real list list"
  g_exp_map_jac :: "manifold \<Rightarrow> vec list \<Rightarrow> mat list"

text \<open>
  Modelled from the spec: \<open>update(newValue)\<close> of a variable writes the new value into it,
  and \<open>copy\<close> gives a variable with the same value.
\<close>

definition manifold_update :: "manifold \<Rightarrow> real list list \<Rightarrow> manifold" where
  "manifold_update var new_data = var\<lparr>m_data := new_data\<rparr>"

definition manifold_copy :: "manifold \<Rightarrow> manifold" where
  "manifold_copy var = var"

text \<open>\<open>var.data[:] = 0.0\<close>.\<close>

definition zero_data :: "manifold \<Rightarrow> manifold" where
  "zero_data var = var\<lparr>m_data := map (\<lambda>row. map (\<lambda>x. 0) row) (m_data var)\<rparr>"

text \<open>\<open>ManifoldGaussian\<close>, with its subclasses \<open>Message\<close> and \<open>Marginal\<close>.\<close>

record manifold_gaussian =
  mean :: "manifold list"
  precision :: "mat list"

definition ManifoldGaussian :: "geometry \<Rightarrow> manifold list \<Rightarrow> exn + manifold_gaussian" where
  "ManifoldGaussian g mean_seq =
     (case mean_seq of
        [] \<Rightarrow> Inl IndexError
      | m0 # rest \<Rightarrow>
          let dof = sum_list (map (g_dof g) mean_seq)
          in Inr \<lparr>mean = mean_seq,
                  precision = replicate (length (m_data m0)) (zeros_mat dof dof)\<rparr>)"

text \<open>The shape of a batch of matrices.\<close>

definition shape3 :: "mat list \<Rightarrow> nat list" where
  "shape3 As = [length As, (case As of [] \<Rightarrow> 0 | A # rest \<Rightarrow> length A),
                (case As of [] \<Rightarrow> 0 | A # rest \<Rightarrow> ncols A)]"

text \<open>
  \<open>ManifoldGaussian.update\<close>. All tensors have the one type of the reals, so the check of
  the \<open>dtype\<close> of the precision never fails.
\<close>

definition gaussian_update ::
  "manifold_gaussian \<Rightarrow> manifold list option \<Rightarrow> mat list option \<Rightarrow> exn + manifold_gaussian" where
  "gaussian_update self new_mean new_precision =
     (case (case new_mean of
              None \<Rightarrow> Inr self
            | Some ms \<Rightarrow>
                if length ms \<noteq> length (mean self) then Inl ShapeMismatch
                else Inr (self\<lparr>mean := map2 (\<lambda>old new. manifold_update old (m_data new))
                                         (mean self) ms\<rparr>)) of
        Inl e \<Rightarrow> Inl e
      | Inr self1 \<Rightarrow>
          (case new_precision of
             None \<Rightarrow> Inr self1
           | Some p \<Rightarrow>
               if shape3 p \<noteq> shape3 (precision self1) then Inl ShapeMismatch
               else Inr (self1\<lparr>precision := p\<rparr>)))"

subsection \<open>\<open>local_gaussian\<close> and \<open>retract_gaussian\<close>\<close>

definition local_gaussian ::
  "geometry \<Rightarrow> manifold_gaussian \<Rightarrow> manifold \<Rightarrow> bool \<Rightarrow> vec list \<times> mat list" where
  "local_gaussian g mess var return_mean =
     (let mean_tp = g_local g var (hd (mean mess));
          jac0 = g_exp_map_jac g var mean_tp;
          lam_tp = bmm (bmm (batch_transpose jac0) (precision mess)) jac0
      in if return_mean then (mean_tp, lam_tp)
         else (batch_matvec lam_tp mean_tp, lam_tp))"

definition retract_gaussian ::
  "geometry \<Rightarrow> vec list \<Rightarrow> mat list \<Rightarrow> manifold \<Rightarrow> manifold_gaussian \<Rightarrow>
   exn + manifold_gaussian" where
  "retract_gaussian g mean_tp precision_tp var out_gauss =
     (let new_mean = var\<lparr>m_data := g_retract g var mean_tp\<rparr>;
          jac0 = g_exp_map_jac g var mean_tp
      in case batch_inverse jac0 of
           None \<Rightarrow> Inl SingularMatrix
         | Some inv_jac \<Rightarrow>
             let new_precision = bmm (bmm (batch_transpose inv_jac) precision_tp) inv_jac
             in gaussian_update out_gauss (Some [new_mean]) (Some new_precision))"

declare det.simps [simp del]

subsection \<open>\<open>Factor\<close>\<close>

text \<open>
  A factor is built for one cost function. The cost function is outside the sources; the
  factor keeps its position \<open>f_cf\<close> in the ordering of the cost functions and the positions
  \<open>f_vars\<close> of its optimization variables in the ordering of the variables, and
  \<open>weighted_jacobians_error\<close> is a parameter: from the position of the cost function and the
  current values of its optimization variables, the list of the Jacobians (for each
  variable a batch of matrices) and the batch of the errors.
\<close>

record factor =
  f_cf :: nat
  f_vars :: "nat list"
  potential_eta :: "vec list"
  potential_lam :: "mat list"
  lin_point :: "manifold list"

type_synonym jacobians_error = "nat \<Rightarrow> manifold list \<Rightarrow> mat list list \<times> vec list"

text \<open>\<open>cf.optim_vars\<close>: the variables of the factor, as they are now.\<close>

definition optim_vars_of :: "manifold list \<Rightarrow> factor \<Rightarrow> manifold list" where
  "optim_vars_of vars self = map (\<lambda>i. vars ! i) (f_vars self)"

text \<open>\<open>torch.cat(ts, dim=-1)\<close> for batches of matrices and for batches of vectors.\<close>

definition cat_last_mats :: "mat list list \<Rightarrow> exn + mat list" where
  "cat_last_mats ts =
     (case ts of
        [] \<Rightarrow> Inl EmptyCat
      | t0 # rest \<Rightarrow>
          Inr (map (\<lambda>b. map (\<lambda>r. concat (map (\<lambda>t. t ! b ! r) ts)) [0 ..< length (t0 ! b)])
                 [0 ..< length t0]))"

definition cat_last_vecs :: "vec list list \<Rightarrow> exn + vec list" where
  "cat_last_vecs ts =
     (case ts of
        [] \<Rightarrow> Inl EmptyCat
      | t0 # rest \<Rightarrow> Inr (map (\<lambda>b. concat (map (\<lambda>t. t ! b) ts)) [0 ..< length t0]))"

text \<open>
  \<open>t.norm() > threshold\<close>, the norm being the root of the sum of the squares: decided on
  the squares, without the root.
\<close>

definition norm_exceeds :: "vec list \<Rightarrow> real \<Rightarrow> bool" where
  "norm_exceeds t threshold =
     (threshold < 0 \<or> sum_list (map (\<lambda>x. x ^ 2) (concat t)) > threshold ^ 2)"

text \<open>
  \<open>Factor.linearize\<close>; \<open>ovs\<close> are the optimization variables of the cost function.
  \<open>np.max\<close> of an empty list raises, and the greatest of the distances exceeds the
  threshold when one of them does.
\<close>

definition linearize ::
  "geometry \<Rightarrow> jacobians_error \<Rightarrow> real option \<Rightarrow> bool \<Rightarrow> manifold list \<Rightarrow> factor \<Rightarrow>
   exn + factor" where
  "linearize g weighted_jacobians_error relin_threshold lie ovs self =
     (case (case relin_threshold of
              None \<Rightarrow> Inr True
            | Some threshold \<Rightarrow>
                let lp_dists = map (\<lambda>(lp, var). g_local g lp var) (zip (lin_point self) ovs)
                in if lp_dists = [] then Inl EmptyCat
                   else Inr (list_ex (\<lambda>d. norm_exceeds d threshold) lp_dists)) of
        Inl e \<Rightarrow> Inl e
      | Inr do_lin \<Rightarrow>
          if do_lin then
            (let (J, err) = weighted_jacobians_error (f_cf self) ovs in
             case cat_last_mats J of
               Inl e \<Rightarrow> Inl e
             | Inr J_stk \<Rightarrow>
                 (case cat_last_vecs (map m_data ovs) of
                    Inl e \<Rightarrow> Inl e
                  | Inr optim_vars_stk \<Rightarrow>
                      let lam = bmm (batch_transpose J_stk) J_stk;
                          eta0 = map (vec_scale (- 1))
                                   (batch_matvec (batch_transpose J_stk) err);
                          eta = (if \<not> lie
                                 then batch_vec_add eta0 (batch_matvec lam optim_vars_stk)
                                 else eta0)
                      in Inr (self\<lparr>potential_eta := eta, potential_lam := lam,
                                    lin_point := map (\<lambda>(lp, var). manifold_update lp (m_data var))
                                                   (zip (lin_point self) ovs)\<rparr>)))
          else Inr self)"

text \<open>\<open>Factor.__init__\<close>.\<close>

definition Factor ::
  "geometry \<Rightarrow> jacobians_error \<Rightarrow> manifold list \<Rightarrow> nat \<Rightarrow> nat list \<Rightarrow> exn + factor" where
  "Factor g weighted_jacobians_error vars cf cf_vars =
     (let ovs = map (\<lambda>i. vars ! i) cf_vars in
      case ovs of
        [] \<Rightarrow> Inl IndexError
      | var0 # rest \<Rightarrow>
          let batch_size = length (m_data var0);
              dof = sum_list (map (g_dof g) ovs)
          in linearize g weighted_jacobians_error None True ovs
               \<lparr>f_cf = cf, f_vars = cf_vars,
                potential_eta = replicate batch_size (zeros_vec dof),
                potential_lam = replicate batch_size (zeros_mat dof dof),
                lin_point = map manifold_copy ovs\<rparr>)"

subsection \<open>\<open>Factor.comp_mess\<close>\<close>

text \<open>\<open>x[start : start + d] += y\<close> on a vector, and the same on a diagonal block.\<close>

definition add_slice :: "nat \<Rightarrow> nat \<Rightarrow> vec \<Rightarrow> vec \<Rightarrow> vec" where
  "add_slice start d x y = take start x @ vec_add (take d (drop start x)) y @ drop (start + d) x"

definition add_block :: "nat \<Rightarrow> nat \<Rightarrow> mat \<Rightarrow> mat \<Rightarrow> mat" where
  "add_block start d X Y =
     take start X @
     map (\<lambda>(row, y). add_slice start d row y) (zip (take d (drop start X)) Y) @
     drop (start + d) X"

text \<open>
  Batch element \<open>0\<close> of a Gaussian in the tangent space (\<open>eta_mess[0]\<close>, \<open>lam_mess[0]\<close>);
  an empty batch has none.
\<close>

definition first_of :: "vec list \<times> mat list \<Rightarrow> (vec \<times> mat) option" where
  "first_of t = (case t of (e0 # es, l0 # ls) \<Rightarrow> Some (e0, l0) | _ \<Rightarrow> None)"

text \<open>
  The inner loop over \<open>i\<close>: the product of the factor with the incoming messages of the
  other variables, in the tangent space at the linearisation point. Only batch element
  \<open>0\<close> of the message is read.
\<close>

fun take_product ::
  "geometry \<Rightarrow> factor \<Rightarrow> manifold list \<Rightarrow> manifold_gaussian list \<Rightarrow> nat \<Rightarrow> nat list \<Rightarrow> nat \<Rightarrow>
   vec \<times> mat \<Rightarrow> exn + vec \<times> mat" where
  "take_product g self ovs vtof_msgs v [] start (eta_factor, lam_factor) =
     Inr (eta_factor, lam_factor)"
| "take_product g self ovs vtof_msgs v (i # rest) start (eta_factor, lam_factor) =
     (let var_dofs = g_dof g (ovs ! i) in
      if i \<noteq> v then
        (case first_of (local_gaussian g (vtof_msgs ! i) (lin_point self ! i) False) of
           Some (eta_mess0, lam_mess0) \<Rightarrow>
             take_product g self ovs vtof_msgs v rest (start + var_dofs)
               (add_slice start var_dofs eta_factor eta_mess0,
                add_block start var_dofs lam_factor lam_mess0)
         | None \<Rightarrow> Inl IndexError)
      else take_product g self ovs vtof_msgs v rest (start + var_dofs)
             (eta_factor, lam_factor))"

text \<open>The partition of the parameters into the part of the variable and the rest.\<close>

definition marginalise :: "nat \<Rightarrow> nat \<Rightarrow> vec \<Rightarrow> mat \<Rightarrow> exn + vec \<times> mat" where
  "marginalise sdim dofs eta_factor lam_factor =
     (let eo = take dofs (drop sdim eta_factor);
          eno = take sdim eta_factor @ drop (sdim + dofs) eta_factor;
          rows_o = take dofs (drop sdim lam_factor);
          rows_no = take sdim lam_factor @ drop (sdim + dofs) lam_factor;
          loo = map (\<lambda>row. take dofs (drop sdim row)) rows_o;
          lono = map (\<lambda>row. take sdim row @ drop (sdim + dofs) row) rows_o;
          lnoo = map (\<lambda>row. take dofs (drop sdim row)) rows_no;
          lnono = map (\<lambda>row. take sdim row @ drop (sdim + dofs) row) rows_no
      in case matrix_inverse lnono of
           None \<Rightarrow> Inl SingularMatrix
         | Some inv_lnono \<Rightarrow>
             let lono_inv = matmul (length lnono) lono inv_lnono;
                 new_mess_lam = mat_sub loo (matmul dofs lono_inv lnoo);
                 new_mess_eta = vec_sub eo (matvec lono_inv eno)
             in Inr (new_mess_eta, new_mess_lam))"

text \<open>The body of the loop of \<open>comp_mess\<close> over \<open>v\<close>, with \<open>sdim\<close> as the loop has it.\<close>

definition comp_mess_var ::
  "geometry \<Rightarrow> factor \<Rightarrow> manifold list \<Rightarrow> manifold_gaussian list \<Rightarrow> manifold_gaussian list \<Rightarrow>
   real list \<Rightarrow> nat \<Rightarrow> nat \<Rightarrow> exn + manifold_gaussian" where
  "comp_mess_var g self ovs vtof_msgs ftov_msgs damping v sdim =
     (case first_of (potential_eta self, potential_lam self) of
        Some (eta0, lam0) \<Rightarrow>
          (case take_product g self ovs vtof_msgs v [0 ..< length (f_vars self)] 0 (eta0, lam0) of
             Inl e \<Rightarrow> Inl e
           | Inr (eta_factor, lam_factor) \<Rightarrow>
               let dofs = g_dof g (ovs ! v) in
               (case marginalise sdim dofs eta_factor lam_factor of
                  Inl e \<Rightarrow> Inl e
                | Inr (new_mess_eta, new_mess_lam) \<Rightarrow>
                    let prev_mess_mean =
                          fst (local_gaussian g (ftov_msgs ! v) (lin_point self ! v) True)
                    in if count_nonzero new_mess_lam = 0 then
                         (case ManifoldGaussian g [manifold_copy (ovs ! v)] of
                            Inl e \<Rightarrow> Inl e
                          | Inr new_mess \<Rightarrow>
                              Inr (new_mess\<lparr>mean := map zero_data (mean new_mess)\<rparr>))
                       else
                         (case (matrix_inverse new_mess_lam, prev_mess_mean) of
                            (None, _) \<Rightarrow> Inl SingularMatrix
                          | (Some inv_lam, []) \<Rightarrow> Inl IndexError
                          | (Some inv_lam, prev_mess_mean0 # prev_rest) \<Rightarrow>
                              let new_mess_mean =
                                    vec_add
                                      (vec_scale (1 - damping ! v) (matvec inv_lam new_mess_eta))
                                      (vec_scale (damping ! v) prev_mess_mean0);
                                  new_mess_eta' = matvec new_mess_lam new_mess_mean;
                                  new_mess_mean' = matvec inv_lam new_mess_eta'
                              in (case ManifoldGaussian g [manifold_copy (ovs ! v)] of
                                    Inl e \<Rightarrow> Inl e
                                  | Inr new_mess \<Rightarrow>
                                      retract_gaussian g [new_mess_mean'] [new_mess_lam]
                                        (lin_point self ! v) new_mess))))
      | None \<Rightarrow> Inl IndexError)"

text \<open>The loop over \<open>v\<close>, which advances \<open>sdim\<close>.\<close>

fun comp_mess_loop ::
  "geometry \<Rightarrow> factor \<Rightarrow> manifold list \<Rightarrow> manifold_gaussian list \<Rightarrow> manifold_gaussian list \<Rightarrow>
   real list \<Rightarrow> nat list \<Rightarrow> nat \<Rightarrow> exn + manifold_gaussian list" where
  "comp_mess_loop g self ovs vtof_msgs ftov_msgs damping [] sdim = Inr []"
| "comp_mess_loop g self ovs vtof_msgs ftov_msgs damping (v # rest) sdim =
     (case comp_mess_var g self ovs vtof_msgs ftov_msgs damping v sdim of
        Inl e \<Rightarrow> Inl e
      | Inr new_mess \<Rightarrow>
          (case comp_mess_loop g self ovs vtof_msgs ftov_msgs damping rest
                  (sdim + g_dof g (ovs ! v)) of
             Inl e \<Rightarrow> Inl e
           | Inr new_messages \<Rightarrow> Inr (new_mess # new_messages)))"

text \<open>The final loop of \<open>comp_mess\<close>: every message of the factor is overwritten.\<close>

fun update_messages ::
  "manifold_gaussian list \<Rightarrow> manifold_gaussian list \<Rightarrow> exn + manifold_gaussian list" where
  "update_messages msgs [] = Inr msgs"
| "update_messages [] (new_mess # rest) = Inl IndexError"
| "update_messages (msg # msgs) (new_mess # rest) =
     (case gaussian_update msg (Some (mean new_mess)) (Some (precision new_mess)) of
        Inl e \<Rightarrow> Inl e
      | Inr msg' \<Rightarrow>
          (case update_messages msgs rest of
             Inl e \<Rightarrow> Inl e
           | Inr msgs' \<Rightarrow> Inr (msg' # msgs')))"

text \<open>
  \<open>comp_mess\<close>: the new messages, and the messages \<open>ftov_msgs\<close> as the call leaves them.
  The lists \<open>vtof_msgs\<close>, \<open>ftov_msgs\<close> and \<open>damping\<close> are the slices of the factor, with one
  entry for each of its variables.
\<close>

definition comp_mess ::
  "geometry \<Rightarrow> factor \<Rightarrow> manifold list \<Rightarrow> manifold_gaussian list \<Rightarrow> manifold_gaussian list \<Rightarrow>
   real list \<Rightarrow> exn + manifold_gaussian list \<times> manifold_gaussian list" where
  "comp_mess g self ovs vtof_msgs ftov_msgs damping =
     (let num_optim_vars = length (f_vars self) in
      case comp_mess_loop g self ovs vtof_msgs ftov_msgs damping [0 ..< num_optim_vars] 0 of
        Inl e \<Rightarrow> Inl e
      | Inr new_messages \<Rightarrow>
          (case update_messages ftov_msgs new_messages of
             Inl e \<Rightarrow> Inl e
           | Inr ftov_msgs' \<Rightarrow> Inr (new_messages, ftov_msgs')))"

subsection \<open>The two passes\<close>

text \<open>
  \<open>_pass_fac_to_var_messages\<close>: the loop over the factors. Each factor is linearized and
  writes the messages of its slice; \<open>schedule\<close> is a parameter of the method.
\<close>

fun pass_fac_to_var_loop ::
  "geometry \<Rightarrow> jacobians_error \<Rightarrow> manifold list \<Rightarrow> manifold_gaussian list \<Rightarrow> bool list \<Rightarrow>
   real list \<Rightarrow> factor list \<Rightarrow> nat \<Rightarrow> manifold_gaussian list \<Rightarrow>
   exn + factor list \<times> manifold_gaussian list" where
  "pass_fac_to_var_loop g wje vars vtof_msgs schedule damping [] start ftov_msgs =
     Inr ([], ftov_msgs)"
| "pass_fac_to_var_loop g wje vars vtof_msgs schedule damping (fac # rest) start ftov_msgs =
     (let num_optim_vars = length (f_vars fac);
          ovs = optim_vars_of vars fac
      in case linearize g wje None True ovs fac of
           Inl e \<Rightarrow> Inl e
         | Inr fac' \<Rightarrow>
             (case comp_mess g fac' ovs
                     (take num_optim_vars (drop start vtof_msgs))
                     (take num_optim_vars (drop start ftov_msgs))
                     (take num_optim_vars (drop start damping)) of
                Inl e \<Rightarrow> Inl e
              | Inr (new_messages, slice') \<Rightarrow>
                  (case pass_fac_to_var_loop g wje vars vtof_msgs schedule damping rest
                          (start + num_optim_vars)
                          (take start ftov_msgs @ slice' @
                           drop (start + num_optim_vars) ftov_msgs) of
                     Inl e \<Rightarrow> Inl e
                   | Inr (rest', ftov_msgs') \<Rightarrow> Inr (fac' # rest', ftov_msgs'))))"

definition pass_fac_to_var_messages ::
  "geometry \<Rightarrow> jacobians_error \<Rightarrow> manifold list \<Rightarrow> factor list \<Rightarrow> manifold_gaussian list \<Rightarrow>
   manifold_gaussian list \<Rightarrow> bool list \<Rightarrow> real list \<Rightarrow>
   exn + factor list \<times> manifold_gaussian list" where
  "pass_fac_to_var_messages g wje vars factors vtof_msgs ftov_msgs schedule damping =
     pass_fac_to_var_loop g wje vars vtof_msgs schedule damping factors 0 ftov_msgs"

text \<open>The sum over the leading dimension, from the zero of the right shape.\<close>

definition sum_mats :: "mat list \<Rightarrow> mat list list \<Rightarrow> mat list" where
  "sum_mats zero xs = foldl batch_mat_add zero xs"

definition sum_vecs :: "vec list \<Rightarrow> vec list list \<Rightarrow> vec list" where
  "sum_vecs zero xs = foldl batch_vec_add zero xs"

definition zeros_like_mats :: "mat list \<Rightarrow> mat list" where
  "zeros_like_mats As = map (map (map (\<lambda>x. 0))) As"

definition zeros_like_vecs :: "vec list \<Rightarrow> vec list" where
  "zeros_like_vecs vs = map (map (\<lambda>x. 0)) vs"

text \<open>
  \<open>_pass_var_to_fac_messages\<close>, for the variable \<open>i\<close>: the incoming messages in the tangent
  space at the variable, their sum \<open>lam_tau\<close>, and the sum \<open>lam_a\<close> that leaves out the edge
  number \<open>ix\<close> of the variable.
\<close>

definition incoming ::
  "geometry \<Rightarrow> nat list \<Rightarrow> manifold_gaussian list \<Rightarrow> manifold \<Rightarrow> nat \<Rightarrow> (vec list \<times> mat list) list"
  where
  "incoming g var_ix_for_edges ftov_msgs var i =
     map (\<lambda>j. local_gaussian g (ftov_msgs ! j) var True)
       (filter (\<lambda>j. var_ix_for_edges ! j = i) [0 ..< length ftov_msgs])"

definition lam_tau_of :: "mat list list \<Rightarrow> mat list" where
  "lam_tau_of lams_tp = sum_mats (zeros_like_mats (hd lams_tp)) lams_tp"

definition lam_a_of :: "mat list list \<Rightarrow> nat \<Rightarrow> mat list" where
  "lam_a_of lams_tp ix =
     sum_mats (zeros_like_mats (hd lams_tp)) (take ix lams_tp @ drop (ix + 1) lams_tp)"

text \<open>The outgoing message on the edge \<open>j\<close>, which is the edge number \<open>ix\<close> of the variable.\<close>

definition var_to_fac_message ::
  "geometry \<Rightarrow> manifold \<Rightarrow> vec list list \<Rightarrow> mat list list \<Rightarrow> nat \<Rightarrow> manifold_gaussian \<Rightarrow>
   exn + manifold_gaussian" where
  "var_to_fac_message g var taus lams_tp ix vtof_msg =
     (let taus_inc = take ix taus @ drop (ix + 1) taus;
          lams_inc = take ix lams_tp @ drop (ix + 1) lams_tp;
          lam_a = lam_a_of lams_tp ix
      in if batch_count_nonzero lam_a = 0 then
           (case mean vtof_msg of
              [] \<Rightarrow> Inl IndexError
            | m0 # ms \<Rightarrow> Inr (vtof_msg\<lparr>mean := zero_data m0 # ms, precision := lam_a\<rparr>))
         else
           (case batch_inverse lam_a of
              None \<Rightarrow> Inl SingularMatrix
            | Some inv_lam_a \<Rightarrow>
                let sum_taus = sum_vecs (zeros_like_vecs (hd taus))
                                 (map (\<lambda>(lam, tau). batch_matvec lam tau) (zip lams_inc taus_inc));
                    tau_a = batch_matvec inv_lam_a sum_taus
                in retract_gaussian g tau_a lam_a var vtof_msg))"

text \<open>The loop over the edges \<open>j\<close> that writes the outgoing messages of the variable \<open>i\<close>.\<close>

fun var_to_fac_edges ::
  "geometry \<Rightarrow> manifold \<Rightarrow> vec list list \<Rightarrow> mat list list \<Rightarrow> nat list \<Rightarrow> nat \<Rightarrow> nat list \<Rightarrow> nat \<Rightarrow>
   manifold_gaussian list \<Rightarrow> exn + manifold_gaussian list" where
  "var_to_fac_edges g var taus lams_tp var_ix_for_edges i [] ix vtof_msgs = Inr vtof_msgs"
| "var_to_fac_edges g var taus lams_tp var_ix_for_edges i (j # rest) ix vtof_msgs =
     (if var_ix_for_edges ! j = i then
        (case var_to_fac_message g var taus lams_tp ix (vtof_msgs ! j) of
           Inl e \<Rightarrow> Inl e
         | Inr msg \<Rightarrow>
             var_to_fac_edges g var taus lams_tp var_ix_for_edges i rest (ix + 1)
               (vtof_msgs[j := msg]))
      else var_to_fac_edges g var taus lams_tp var_ix_for_edges i rest ix vtof_msgs)"

text \<open>
  The body of the loop over the variables. The mean of the belief \<open>i\<close> is the variable \<open>i\<close>
  itself (\<open>Marginal([var])\<close>): writing the belief writes the variable.
\<close>

definition pass_var_to_fac_var ::
  "geometry \<Rightarrow> nat list \<Rightarrow> manifold_gaussian list \<Rightarrow> bool \<Rightarrow> nat \<Rightarrow>
   manifold_gaussian list \<times> manifold list \<times> manifold_gaussian list \<Rightarrow>
   exn + manifold_gaussian list \<times> manifold list \<times> manifold_gaussian list" where
  "pass_var_to_fac_var g var_ix_for_edges ftov_msgs update_belief i state =
     (case state of (vtof_msgs, vars, beliefs) \<Rightarrow>
      let var = vars ! i;
          taus = map fst (incoming g var_ix_for_edges ftov_msgs var i);
          lams_tp = map snd (incoming g var_ix_for_edges ftov_msgs var i)
      in if incoming g var_ix_for_edges ftov_msgs var i = [] then Inl EmptyCat
         else
           let lam_tau = lam_tau_of lams_tp in
           (case var_to_fac_edges g var taus lams_tp var_ix_for_edges i
                   [0 ..< length ftov_msgs] 0 vtof_msgs of
              Inl e \<Rightarrow> Inl e
            | Inr vtof_msgs' \<Rightarrow>
                if update_belief \<and> batch_count_nonzero lam_tau \<noteq> 0 then
                  (case batch_inverse lam_tau of
                     None \<Rightarrow> Inl SingularMatrix
                   | Some inv_lam_tau \<Rightarrow>
                       let sum_taus = sum_vecs (zeros_like_vecs (hd taus))
                                        (map (\<lambda>(lam, tau). batch_matvec lam tau) (zip lams_tp taus));
                           tau = batch_matvec inv_lam_tau sum_taus
                       in (case retract_gaussian g tau lam_tau var
                                  ((beliefs ! i)\<lparr>mean := [var]\<rparr>) of
                             Inl e \<Rightarrow> Inl e
                           | Inr belief' \<Rightarrow>
                               Inr (vtof_msgs', vars[i := hd (mean belief')],
                                    beliefs[i := belief'])))
                else Inr (vtof_msgs', vars, beliefs)))"

fun pass_var_to_fac_loop ::
  "geometry \<Rightarrow> nat list \<Rightarrow> manifold_gaussian list \<Rightarrow> bool \<Rightarrow> nat list \<Rightarrow>
   manifold_gaussian list \<times> manifold list \<times> manifold_gaussian list \<Rightarrow>
   exn + manifold_gaussian list \<times> manifold list \<times> manifold_gaussian list" where
  "pass_var_to_fac_loop g var_ix_for_edges ftov_msgs update_belief [] state = Inr state"
| "pass_var_to_fac_loop g var_ix_for_edges ftov_msgs update_belief (i # rest) state =
     (case pass_var_to_fac_var g var_ix_for_edges ftov_msgs update_belief i state of
        Inl e \<Rightarrow> Inl e
      | Inr state' \<Rightarrow> pass_var_to_fac_loop g var_ix_for_edges ftov_msgs update_belief rest state')"

definition pass_var_to_fac_messages ::
  "geometry \<Rightarrow> nat list \<Rightarrow> manifold_gaussian list \<Rightarrow> manifold_gaussian list \<Rightarrow> bool \<Rightarrow>
   manifold list \<Rightarrow> manifold_gaussian list \<Rightarrow>
   exn + manifold_gaussian list \<times> manifold list \<times> manifold_gaussian list" where
  "pass_var_to_fac_messages g var_ix_for_edges ftov_msgs vtof_msgs update_belief vars beliefs =
     pass_var_to_fac_loop g var_ix_for_edges ftov_msgs update_belief [0 ..< length vars]
       (vtof_msgs, vars, beliefs)"

subsection \<open>The convergence check and the loop of the optimizer\<close>

text \<open>
  \<open>_check_convergence\<close>. \<open>EPS\<close> is \<open>theseus.constants.EPS\<close>, a parameter. The errors are
  reals; where the code divides by a previous error that is zero the quotient is infinite
  or not a number, and the comparison of either with the tolerance is false. The mean of
  an empty tensor is not a number.
\<close>

definition check_convergence :: "real \<Rightarrow> real \<Rightarrow> real \<Rightarrow> real list \<Rightarrow> real list \<Rightarrow> bool list" where
  "check_convergence EPS abs_err_tolerance rel_err_tolerance err last_err =
     (if err \<noteq> [] \<and> sum_list (map abs err) / real (length err) < EPS
      then map (\<lambda>e. True) err
      else map (\<lambda>(l, e).
                  let abs_error = \<bar>l - e\<bar> in
                  abs_error < abs_err_tolerance \<or>
                  (l \<noteq> 0 \<and> abs_error / l < rel_err_tolerance))
             (zip last_err err))"

datatype NonlinearOptimizerStatus = START | CONVERGED | MAX_ITERATIONS | FAIL

text \<open>\<open>xs[msk] = new_value\<close>.\<close>

definition set_where :: "bool list \<Rightarrow> 'a \<Rightarrow> 'a list \<Rightarrow> 'a list" where
  "set_where msk new_value xs = map (\<lambda>(x, m). if m then new_value else x) (zip xs msk)"

text \<open>
  Of the information the loop keeps, the last error and the status of each batch element;
  the best solution, the iteration counters and the history of errors are written and
  never read by the loop.
\<close>

record info =
  last_err :: "real list"
  status :: "NonlinearOptimizerStatus list"

record gbp_params =
  abs_err_tolerance :: real
  rel_err_tolerance :: real
  max_iterations :: nat

text \<open>What one run of the loop holds: variables, beliefs, factors and messages.\<close>

record gbp_state =
  gs_vars :: "manifold list"
  gs_beliefs :: "manifold_gaussian list"
  gs_factors :: "factor list"
  gs_vtof_msgs :: "manifold_gaussian list"
  gs_ftov_msgs :: "manifold_gaussian list"
  gs_info :: info

text \<open>
  The problem as the optimizer holds it: for each cost function, in the order of the cost
  functions, the positions of its optimization variables in the order of the variables.
  \<open>var_ix_for_edges\<close> and \<open>n_edges\<close> are computed from it by \<open>__init__\<close>.
\<close>

definition var_ix_for_edges_of :: "nat list list \<Rightarrow> nat list" where
  "var_ix_for_edges_of cf_vars = concat cf_vars"

definition n_edges_of :: "nat list list \<Rightarrow> nat" where
  "n_edges_of cf_vars = sum_list (map length cf_vars)"

text \<open>The messages of the start: one pair for each edge, with mean and precision zero.\<close>

fun init_messages :: "geometry \<Rightarrow> manifold list \<Rightarrow> nat list \<Rightarrow> exn + manifold_gaussian list" where
  "init_messages g vars [] = Inr []"
| "init_messages g vars (i # rest) =
     (case ManifoldGaussian g [zero_data (manifold_copy (vars ! i))] of
        Inl e \<Rightarrow> Inl e
      | Inr msg \<Rightarrow>
          (case init_messages g vars rest of
             Inl e \<Rightarrow> Inl e
           | Inr msgs \<Rightarrow> Inr (msg # msgs)))"

fun init_beliefs :: "geometry \<Rightarrow> manifold list \<Rightarrow> exn + manifold_gaussian list" where
  "init_beliefs g [] = Inr []"
| "init_beliefs g (var # rest) =
     (case ManifoldGaussian g [var] of
        Inl e \<Rightarrow> Inl e
      | Inr b \<Rightarrow>
          (case init_beliefs g rest of
             Inl e \<Rightarrow> Inl e
           | Inr bs \<Rightarrow> Inr (b # bs)))"

fun init_factors ::
  "geometry \<Rightarrow> jacobians_error \<Rightarrow> manifold list \<Rightarrow> nat \<Rightarrow> nat list list \<Rightarrow> exn + factor list" where
  "init_factors g wje vars k [] = Inr []"
| "init_factors g wje vars k (cf_vars # rest) =
     (case Factor g wje vars k cf_vars of
        Inl e \<Rightarrow> Inl e
      | Inr fac \<Rightarrow>
          (case init_factors g wje vars (k + 1) rest of
             Inl e \<Rightarrow> Inl e
           | Inr facs \<Rightarrow> Inr (fac # facs)))"

text \<open>
  \<open>self.objective.error_squared_norm()\<close>. The class \<open>Objective\<close> of \<open>objective.py\<close> defines no
  attribute of this name (its scalar error is \<open>error_metric\<close>) and no \<open>__getattr__\<close>: the
  lookup raises \<open>AttributeError\<close>.
\<close>

definition error_squared_norm :: "exn + real list" where
  "error_squared_norm = Inl AttributeError"

text \<open>
  One iteration \<open>it_\<close> of the loop; the result says whether the loop breaks. \<open>dropout_ixs\<close>
  is the random draw of the iteration, a parameter.
\<close>

definition optimize_iteration ::
  "geometry \<Rightarrow> jacobians_error \<Rightarrow> real \<Rightarrow> gbp_params \<Rightarrow>
   nat list list \<Rightarrow> real \<Rightarrow> real \<Rightarrow> (nat \<Rightarrow> bool list) \<Rightarrow> bool list list \<Rightarrow> nat \<Rightarrow> gbp_state \<Rightarrow>
   exn + bool \<times> gbp_state" where
  "optimize_iteration g wje EPS params cf_vars damping dropout dropout_ixs schedule it s =
     (let n_edges = n_edges_of cf_vars;
          damping_arr0 = replicate n_edges damping;
          damping_arr = (if dropout \<noteq> 0 then set_where (dropout_ixs it) 1 damping_arr0
                         else damping_arr0)
      in if it \<ge> length schedule then Inl IndexError
         else
           (case pass_fac_to_var_messages g wje (gs_vars s) (gs_factors s) (gs_vtof_msgs s)
                   (gs_ftov_msgs s) (schedule ! it) damping_arr of
              Inl e \<Rightarrow> Inl e
            | Inr (factors', ftov') \<Rightarrow>
                (case pass_var_to_fac_messages g (var_ix_for_edges_of cf_vars) ftov'
                        (gs_vtof_msgs s) True (gs_vars s) (gs_beliefs s) of
                   Inl e \<Rightarrow> Inl e
                 | Inr (vtof', vars', beliefs') \<Rightarrow>
                     let s1 = s\<lparr>gs_vars := vars', gs_beliefs := beliefs', gs_factors := factors',
                                gs_vtof_msgs := vtof', gs_ftov_msgs := ftov'\<rparr>
                     in if it > 0 then
                          (case error_squared_norm of
                             Inl e \<Rightarrow> Inl e
                           | Inr sq_norm \<Rightarrow>
                               let err = map (\<lambda>x. x / 2) sq_norm;
                                   converged_indices =
                                     check_convergence EPS (abs_err_tolerance params)
                                       (rel_err_tolerance params) err (last_err (gs_info s1));
                                   info1 = (gs_info s1)
                                     \<lparr>status := set_where converged_indices CONVERGED
                                                   (status (gs_info s1))\<rparr>
                               in if list_all (\<lambda>c. c) converged_indices \<and> it > 1
                                  then Inr (True, s1\<lparr>gs_info := info1\<rparr>)
                                  else Inr (False, s1\<lparr>gs_info := info1\<lparr>last_err := err\<rparr>\<rparr>))
                        else Inr (False, s1))))"

fun optimize_iterations ::
  "geometry \<Rightarrow> jacobians_error \<Rightarrow> real \<Rightarrow> gbp_params \<Rightarrow>
   nat list list \<Rightarrow> real \<Rightarrow> real \<Rightarrow> (nat \<Rightarrow> bool list) \<Rightarrow> bool list list \<Rightarrow> nat list \<Rightarrow> gbp_state \<Rightarrow>
   exn + gbp_state" where
  "optimize_iterations g wje EPS params cf_vars damping dropout dropout_ixs schedule
     [] s = Inr s"
| "optimize_iterations g wje EPS params cf_vars damping dropout dropout_ixs schedule
     (it # rest) s =
     (case optimize_iteration g wje EPS params cf_vars damping dropout dropout_ixs
             schedule it s of
        Inl e \<Rightarrow> Inl e
      | Inr (stop, s') \<Rightarrow>
          if stop then Inr s'
          else optimize_iterations g wje EPS params cf_vars damping dropout dropout_ixs
                 schedule rest s')"

text \<open>
  \<open>_optimize_loop\<close>. A schedule that is not given is drawn at random: the parameter
  \<open>random_schedule\<close>. \<open>ValueError\<close> for a parameter out of range or a schedule of the wrong
  shape is \<open>ShapeMismatch\<close> here.
\<close>

definition optimize_loop ::
  "geometry \<Rightarrow> jacobians_error \<Rightarrow> real \<Rightarrow> gbp_params \<Rightarrow>
   nat list list \<Rightarrow> bool list list \<Rightarrow> (nat \<Rightarrow> bool list) \<Rightarrow> manifold list \<Rightarrow>
   nat \<Rightarrow> nat \<Rightarrow> info \<Rightarrow> real \<Rightarrow> real \<Rightarrow> bool list list option \<Rightarrow> exn + gbp_state" where
  "optimize_loop g wje EPS params cf_vars random_schedule dropout_ixs vars
     start_iter num_iter info0 damping dropout schedule_arg =
     (let n_edges = n_edges_of cf_vars in
      if damping > 1 \<or> damping < 0 then Inl ShapeMismatch
      else if dropout > 1 \<or> dropout < 0 then Inl ShapeMismatch
      else
        (case (case schedule_arg of
                 None \<Rightarrow> Inr random_schedule
               | Some sch \<Rightarrow>
                   if length sch \<noteq> max_iterations params \<or>
                      \<not> list_all (\<lambda>row. length row = n_edges) sch
                   then Inl ShapeMismatch else Inr sch) of
           Inl e \<Rightarrow> Inl e
         | Inr schedule \<Rightarrow>
             (case init_messages g vars (var_ix_for_edges_of cf_vars) of
                Inl e \<Rightarrow> Inl e
              | Inr msgs \<Rightarrow>
                  (case init_beliefs g vars of
                     Inl e \<Rightarrow> Inl e
                   | Inr beliefs0 \<Rightarrow>
                       (case init_factors g wje vars 0 cf_vars of
                          Inl e \<Rightarrow> Inl e
                        | Inr factors0 \<Rightarrow>
                            (case optimize_iterations g wje EPS params cf_vars damping
                                    dropout dropout_ixs schedule
                                    [start_iter ..< start_iter + num_iter]
                                    \<lparr>gs_vars = vars, gs_beliefs = beliefs0,
                                     gs_factors = factors0, gs_vtof_msgs = msgs,
                                     gs_ftov_msgs = msgs, gs_info = info0\<rparr> of
                               Inl e \<Rightarrow> Inl e
                             | Inr s \<Rightarrow>
                                 Inr (s\<lparr>gs_info := (gs_info s)
                                        \<lparr>status := map (\<lambda>st. if st = START then MAX_ITERATIONS
                                                             else st)
                                                     (status (gs_info s))\<rparr>\<rparr>)))))))"

subsection \<open>A small problem for the optimizer\<close>

text \<open>
  The Euclidean geometry (vectors): \<open>local\<close> is the difference, \<open>retract\<close> the sum, the
  Jacobian of the exponential map the identity, and the degrees of freedom are the
  length of a row of the data.
\<close>

definition euclidean :: geometry where
  "euclidean =
     \<lparr>g_dof = (\<lambda>var. ncols (m_data var)),
      g_local = (\<lambda>var other. map2 vec_sub (m_data other) (m_data var)),
      g_retract = (\<lambda>var delta. map2 vec_add (m_data var) delta),
      g_exp_map_jac = (\<lambda>var tangent. map (\<lambda>row. identity_mat (length row)) tangent)\<rparr>"

text \<open>
  One variable with one degree of freedom and one cost function on it, the prior
  \<open>x - 3\<close> with the Jacobian \<open>1\<close>, in each batch element.
\<close>

definition ex_prior :: jacobians_error where
  "ex_prior cf ovs =
     ([map (\<lambda>row. [[1]]) (m_data (hd ovs))], map (\<lambda>row. [hd row - 3]) (m_data (hd ovs)))"

definition ex_var :: "real list \<Rightarrow> manifold" where
  "ex_var xs = \<lparr>m_group = 0, m_data = map (\<lambda>x. [x]) xs\<rparr>"

definition ex_msg :: "real list \<Rightarrow> real list \<Rightarrow> manifold_gaussian" where
  "ex_msg means precisions = \<lparr>mean = [ex_var means], precision = map (\<lambda>p. [[p]]) precisions\<rparr>"

definition ex_factor :: "real list \<Rightarrow> real list \<Rightarrow> real list \<Rightarrow> factor" where
  "ex_factor etas lams lps =
     \<lparr>f_cf = 0, f_vars = [0], potential_eta = map (\<lambda>e. [e]) etas,
      potential_lam = map (\<lambda>l. [[l]]) lams, lin_point = [ex_var lps]\<rparr>"

definition ex_params :: gbp_params where
  "ex_params = \<lparr>abs_err_tolerance = 1 / 10 ^ 10, rel_err_tolerance = 1 / 10 ^ 8,
                max_iterations = 3\<rparr>"

definition ex_state :: gbp_state where
  "ex_state =
     \<lparr>gs_vars = [ex_var [0]], gs_beliefs = [ex_msg [0] [0]],
      gs_factors = [ex_factor [3] [1] [0]], gs_vtof_msgs = [ex_msg [0] [0]],
      gs_ftov_msgs = [ex_msg [0] [0]],
      gs_info = \<lparr>last_err = [9 / 2], status = [START]\<rparr>\<rparr>"

subsection \<open>Tensors that are zero\<close>

definition all_zero_mats :: "mat list \<Rightarrow> bool" where
  "all_zero_mats As = list_all (list_all (list_all (\<lambda>x. x = 0))) As"

definition all_zero_data :: "manifold \<Rightarrow> bool" where
  "all_zero_data var = list_all (list_all (\<lambda>x. x = 0)) (m_data var)"

text \<open>A square matrix with \<open>d\<close> rows.\<close>

definition square :: "nat \<Rightarrow> mat \<Rightarrow> bool" where
  "square d A = (length A = d \<and> list_all (\<lambda>row. length row = d) A)"

text \<open>
  A geometry whose exponential map has the Jacobian \<open>2\<close> times the identity: \<open>retract\<close> adds
  twice the tangent vector, \<open>local\<close> is half the difference.
\<close>

definition ex_scaled :: geometry where
  "ex_scaled =
     \<lparr>g_dof = (\<lambda>var. ncols (m_data var)),
      g_local = (\<lambda>var other. map (vec_scale (1 / 2)) (map2 vec_sub (m_data other) (m_data var))),
      g_retract = (\<lambda>var delta. map2 vec_add (m_data var) (map (vec_scale 2) delta)),
      g_exp_map_jac = (\<lambda>var tangent. map (\<lambda>row. map (vec_scale 2) (identity_mat (length row)))
                                          tangent)\<rparr>"

text \<open>
  The angles of a circle of circumference \<open>6\<close> (in place of \<open>2 pi\<close>, to stay with the
  rationals): \<open>retract\<close> adds the tangent vector to the angle, \<open>local\<close> is the difference of
  the angles brought into \<open>[-3, 3)\<close>, and the Jacobian of the exponential map is the
  identity.
\<close>

definition wrap_angle :: "real \<Rightarrow> real" where
  "wrap_angle x = x - 6 * of_int \<lfloor>(x + 3) / 6\<rfloor>"

definition ex_circle :: geometry where
  "ex_circle =
     \<lparr>g_dof = (\<lambda>var. ncols (m_data var)),
      g_local = (\<lambda>var other. map (map wrap_angle) (map2 vec_sub (m_data other) (m_data var))),
      g_retract = (\<lambda>var delta. map2 vec_add (m_data var) delta),
      g_exp_map_jac = (\<lambda>var tangent. map (\<lambda>row. identity_mat (length row)) tangent)\<rparr>"

text \<open>
  A factor on two variables with one degree of freedom each, with the potential zero.
\<close>

definition ex_factor2 :: factor where
  "ex_factor2 =
     \<lparr>f_cf = 0, f_vars = [0, 1], potential_eta = [[0, 0]],
      potential_lam = [[[0, 0], [0, 0]]], lin_point = [ex_var [0], ex_var [0]]\<rparr>"

section \<open>Properties\<close>

subsection \<open>Evaluation of the examples\<close>

lemmas objective_defs =
  add_def add_bookkeeping_def add_function_variables_def add_function_variable_def
  add_weight_def check_dual_vars_def init_objective_def final_state_def raised_def state_of_def
  has_key_def var_to_fn_map_def set_var_to_fn_map_def vars_of_this_type_def
  set_vars_of_this_type_def function_optim_vars_def function_aux_vars_def has_aux_var_def
  has_optim_var_def erase_def erase_weight_def erase_function_variables_def
  erase_function_variable_def Let_def

lemmas example_defs =
  ex_x_def ex_a_def ex_y_def ex_w_def ex_wa_def ex_f_def ex_g_def ex_f_clash_def

lemma ex_graph_f_eq:
  "ex_graph_f =
     \<lparr> optim_vars = [(''x'', ex_x)], cost_weight_optim_vars = [], aux_vars = [(''a'', ex_a)],
       all_variables = [(''x'', ex_x), (''a'', ex_a)],
       cost_functions = [(''f'', ex_f)], cost_functions_for_weights = [(ex_w, [ex_f])],
       functions_for_optim_vars = [(ex_x, [CostFn ex_f])],
       functions_for_aux_vars = [(ex_a, [CostFn ex_f])],
       batch_size = None, obj_dtype = Float32, current_version = 1,
       allow_mixed_optim_aux_vars = False, var_tensor = ex_store \<rparr>"
  by (simp add: ex_graph_f_def objective_defs example_defs)

lemma ex_graph_fg_eq:
  "ex_graph_fg =
     \<lparr> optim_vars = [(''x'', ex_x), (''y'', ex_y)], cost_weight_optim_vars = [],
       aux_vars = [(''a'', ex_a)],
       all_variables = [(''x'', ex_x), (''a'', ex_a), (''y'', ex_y)],
       cost_functions = [(''f'', ex_f), (''g'', ex_g)],
       cost_functions_for_weights = [(ex_w, [ex_f]), (ex_wa, [ex_g])],
       functions_for_optim_vars = [(ex_x, [CostFn ex_f]), (ex_y, [CostFn ex_g])],
       functions_for_aux_vars = [(ex_a, [CostFn ex_f, WeightFn ex_wa])],
       batch_size = None, obj_dtype = Float32, current_version = 2,
       allow_mixed_optim_aux_vars = False, var_tensor = ex_store \<rparr>"
  by (simp add: ex_graph_fg_def ex_graph_f_eq objective_defs example_defs)

subsection \<open>The version counter\<close>

lemma set_var_to_fn_map_version [simp]:
  "current_version (set_var_to_fn_map b m s) = current_version s"
  by (simp add: set_var_to_fn_map_def)

lemma set_vars_of_this_type_version [simp]:
  "current_version (set_vars_of_this_type b c d s) = current_version s"
  by (simp add: set_vars_of_this_type_def)

text \<open>
  Sequencing two steps that keep the version and never raise the name clash of cost
  functions gives a step of the same kind.
\<close>

lemma chain_version_raised:
  assumes "current_version (final_state (f s)) = current_version s \<and>
           raised (f s) \<noteq> Some DuplicateCostFunctionName"
    and "\<And>s'. f s = Inr s' \<Longrightarrow>
           current_version (final_state (g s')) = current_version s' \<and>
           raised (g s') \<noteq> Some DuplicateCostFunctionName"
  shows "current_version (final_state (case f s of Inl e \<Rightarrow> Inl e | Inr s' \<Rightarrow> g s')) =
           current_version s \<and>
         raised (case f s of Inl e \<Rightarrow> Inl e | Inr s' \<Rightarrow> g s') \<noteq> Some DuplicateCostFunctionName"
  using assms by (cases "f s") (auto simp: final_state_def raised_def)

lemma chain_version:
  assumes "current_version (final_state (f s)) = current_version s"
    and "\<And>s'. f s = Inr s' \<Longrightarrow> current_version (final_state (g s')) = current_version s'"
  shows "current_version (final_state (case f s of Inl e \<Rightarrow> Inl e | Inr s' \<Rightarrow> g s')) =
           current_version s"
  using assms by (cases "f s") (auto simp: final_state_def)

lemma add_function_variable_version:
  "current_version (final_state (add_function_variable f b c v s)) = current_version s \<and>
   raised (add_function_variable f b c v s) \<noteq> Some DuplicateCostFunctionName"
  by (simp add: add_function_variable_def final_state_def raised_def Let_def
      split: option.splits sum.splits)

lemma add_function_variables_loop_version:
  "current_version (final_state (add_function_variables_loop f b c vs s)) = current_version s \<and>
   raised (add_function_variables_loop f b c vs s) \<noteq> Some DuplicateCostFunctionName"
proof (induction vs arbitrary: s)
  case Nil
  show ?case by (simp add: final_state_def raised_def)
next
  case (Cons v vs)
  show ?case
    unfolding add_function_variables_loop.simps
    by (rule chain_version_raised) (simp_all add: add_function_variable_version Cons.IH)
qed

lemma add_function_variables_version:
  "current_version (final_state (add_function_variables f b c s)) = current_version s \<and>
   raised (add_function_variables f b c s) \<noteq> Some DuplicateCostFunctionName"
  by (simp add: add_function_variables_def add_function_variables_loop_version)

lemma add_weight_version:
  "current_version (final_state (add_weight cf s)) = current_version s \<and>
   raised (add_weight cf s) \<noteq> Some DuplicateCostFunctionName"
proof (cases "has_key (cost_functions_for_weights s) (cf_weight cf)")
  case True
  then show ?thesis by (simp add: add_weight_def final_state_def raised_def)
next
  case False
  then show ?thesis
    unfolding add_weight_def Let_def
    apply simp
    apply (rule chain_version_raised)
     apply (rule add_function_variables_version)
    apply (rule chain_version_raised)
     apply (rule add_function_variables_version)
    apply (simp add: final_state_def raised_def)
    done
qed

lemma check_dual_vars_version:
  "current_version (final_state (check_dual_vars cf s)) = current_version s \<and>
   raised (check_dual_vars cf s) \<noteq> Some DuplicateCostFunctionName"
  by (simp add: check_dual_vars_def Let_def final_state_def raised_def)

lemma add_bookkeeping_version:
  "current_version (final_state (add_bookkeeping cf s)) = current_version s \<and>
   raised (add_bookkeeping cf s) \<noteq> Some DuplicateCostFunctionName"
  unfolding add_bookkeeping_def
  apply (rule chain_version_raised)
   apply (rule add_function_variables_version)
  apply (rule chain_version_raised)
   apply (rule add_function_variables_version)
  apply (rule chain_version_raised)
   apply (rule add_weight_version)
  apply (simp split: option.splits)
  apply (intro conjI impI allI)
   apply (simp add: final_state_def raised_def)
  apply (simp add: final_state_def raised_def)
  using check_dual_vars_version apply auto
  done

lemma add_version:
  "current_version (final_state (add cf s)) =
     (if raised (add cf s) = Some DuplicateCostFunctionName then current_version s
      else current_version s + 1)"
proof (cases "map_of (cost_functions s) (cf_name cf)")
  case None
  then show ?thesis
    using add_bookkeeping_version
      [of cf "s\<lparr>cost_functions := AList.update (cf_name cf) cf (cost_functions s),
                current_version := current_version s + 1\<rparr>"]
    by (simp add: add_def)
next
  case (Some cf')
  then show ?thesis
    using add_bookkeeping_version [of cf "s\<lparr>current_version := current_version s + 1\<rparr>"]
    by (auto simp: add_def final_state_def raised_def)
qed

lemma erase_function_variable_version:
  "current_version (final_state (erase_function_variable f b c v s)) = current_version s"
  by (simp add: erase_function_variable_def final_state_def Let_def split: option.splits)

lemma erase_function_variables_loop_version:
  "current_version (final_state (erase_function_variables_loop f b c vs s)) = current_version s"
proof (induction vs arbitrary: s)
  case Nil
  show ?case by (simp add: final_state_def)
next
  case (Cons v vs)
  show ?case
    unfolding erase_function_variables_loop.simps
    by (rule chain_version) (simp_all add: erase_function_variable_version Cons.IH)
qed

lemma erase_function_variables_version:
  "current_version (final_state (erase_function_variables f b c s)) = current_version s"
  by (simp add: erase_function_variables_def erase_function_variables_loop_version)

lemma erase_weight_version:
  "current_version (final_state (erase_weight cf s)) = current_version s"
proof (cases "map_of (cost_functions_for_weights s) (cf_weight cf)")
  case None
  then show ?thesis by (simp add: erase_weight_def final_state_def)
next
  case (Some cfs)
  show ?thesis
  proof (cases "cf \<in> set cfs \<and> remove1 cf cfs = []")
    case False
    with Some show ?thesis by (auto simp: erase_weight_def final_state_def Let_def)
  next
    case True
    with Some show ?thesis
      unfolding erase_weight_def Let_def
      apply simp
      apply (rule trans)
       apply (rule chain_version)
        apply (rule erase_function_variables_version)
       apply (rule chain_version)
        apply (rule erase_function_variables_version)
       apply (simp add: final_state_def)
      apply simp
      done
  qed
qed

lemma erase_version:
  "current_version (final_state (erase name s)) = current_version s + 1"
proof (cases "map_of (cost_functions s) name")
  case None
  then show ?thesis by (simp add: erase_def final_state_def)
next
  case (Some cf)
  then show ?thesis
    unfolding erase_def Let_def
    apply simp
    apply (rule trans)
     apply (rule chain_version)
      apply (rule erase_function_variables_version)
     apply (rule chain_version)
      apply (rule erase_function_variables_version)
     apply (rule chain_version)
      apply (rule erase_weight_version)
     apply (simp add: final_state_def)
    apply simp
    done
qed

lemma write_tensor_version [simp]:
  "current_version (write_tensor v t m s) = current_version s"
  by (simp add: write_tensor_def)

lemma update_loop_version:
  "current_version (final_state (update_loop d m s)) = current_version s"
  by (induction d m s rule: update_loop.induct)
     (auto simp: final_state_def split: option.splits)

lemma resolve_batch_size_version:
  "current_version (final_state (resolve_batch_size s)) = current_version s"
  by (simp add: resolve_batch_size_def final_state_def Let_def split: option.splits)

lemma update_version:
  "current_version (final_state (update d m u s)) = current_version s"
  unfolding update_def
  by (rule chain_version) (simp_all add: update_loop_version resolve_batch_size_version)

lemma update_flag: "update d m u s = update d m False s"
  by (simp add: update_def)

lemma error_version:
  "current_version (state_of (error w d u s)) = current_version s"
proof (cases d)
  case None
  then show ?thesis
    by (simp add: error_def state_of_def Let_def split: sum.splits)
next
  case (Some y)
  show ?thesis
  proof (cases "update (Some y) None False s")
    case (Inl p)
    then show ?thesis
      using update_version [of "Some y" None False s] Some
      by (cases p) (simp add: error_def state_of_def Let_def final_state_def update_flag [of _ _ u])
  next
    case (Inr s1)
    then have v1: "current_version s1 = current_version s"
      using update_version [of "Some y" None False s] by (simp add: final_state_def)
    show ?thesis
    proof (cases "torch_cat_dim1 (map (\<lambda>(name, cf). w cf (var_tensor s1)) (cost_functions s1))")
      case (Inl e)
      with Inr Some v1 show ?thesis
        by (simp add: error_def state_of_def Let_def update_flag [of _ _ u])
    next
      case (Inr ev)
      note cat = this
      show ?thesis
      proof (cases u)
        case True
        with cat \<open>update (Some y) None False s = Inr s1\<close> Some v1 show ?thesis
          by (simp add: error_def state_of_def Let_def update_flag [of _ _ True])
      next
        case False
        let ?old = "map (\<lambda>(name, v). (name, var_tensor s (var_id v))) (optim_vars s)"
        have "current_version (final_state (update (Some ?old) None False s1)) = current_version s"
          using update_version [of "Some ?old" None False s1] v1 by simp
        with False cat \<open>update (Some y) None False s = Inr s1\<close> Some show ?thesis
          by (cases "update (Some ?old) None False s1")
             (auto simp: error_def state_of_def Let_def final_state_def)
      qed
    qed
  qed
qed

text \<open>
  Claim C10, as it stands: every call of \<open>add\<close> and of \<open>erase\<close> increments the version by
  exactly one. It fails for the call of \<open>add\<close> that is rejected because another object is
  registered under the name of the cost function: the \<open>ValueError\<close> is raised before the
  increment, and the version stays as it was.
\<close>

theorem C10_add_name_clash_keeps_version:
  "raised (add ex_f_clash ex_graph_f) = Some DuplicateCostFunctionName \<and>
   current_version (final_state (add ex_f_clash ex_graph_f)) = current_version ex_graph_f \<and>
   current_version (final_state (add ex_f_clash ex_graph_f)) \<noteq> current_version ex_graph_f + 1"
  by (simp add: ex_graph_f_eq objective_defs example_defs)

text \<open>
  Claim C10, amended: every call of \<open>add\<close> increments the version by exactly one, whether
  it returns or raises, except the call rejected for the name clash of two cost functions,
  which leaves it unchanged; every call of \<open>erase\<close> increments it by exactly one, whether
  the name is registered or not and whether the call returns or raises; \<open>update\<close> and
  \<open>error\<close> leave it unchanged. (The queries and \<open>copy\<close> return no new state of the
  objective they are called on.)
\<close>

theorem C10_version_counter:
  "current_version (final_state (add cf s)) =
     (if raised (add cf s) = Some DuplicateCostFunctionName then current_version s
      else current_version s + 1) \<and>
   current_version (final_state (erase name s)) = current_version s + 1 \<and>
   current_version (final_state (update input_tensors batch_ignore_mask update_vectorization s)) =
     current_version s \<and>
   current_version (state_of (error weighted_error input_tensors' also_update s)) =
     current_version s"
  by (simp only: add_version erase_version update_version error_version simp_thms)

theorem C10_version_counter_witness:
  "current_version (final_state (add ex_f ex_graph_f)) = 2 \<and>
   raised (add ex_f ex_graph_f) = None \<and>
   current_version (final_state (erase ''h'' ex_graph_f)) = 2 \<and>
   current_version (final_state (update (Some [(''x'', ex_tensor 3)]) None True ex_graph_f)) = 1 \<and>
   current_version
     (state_of (error ex_weighted_error (Some [(''x'', ex_tensor 3)]) False ex_graph_f)) = 1"
proof -
  have r: "raised (add ex_f ex_graph_f) = None"
    by (simp add: ex_graph_f_eq objective_defs example_defs)
  have v: "current_version ex_graph_f = 1"
    by (simp add: ex_graph_f_eq)
  show ?thesis
    using C10_version_counter
      [of ex_f ex_graph_f "''h''" "Some [(''x'', ex_tensor 3)]" None True ex_weighted_error
          "Some [(''x'', ex_tensor 3)]" False]
    by (simp add: r v)
qed

subsection \<open>Adding a cost function twice\<close>

text \<open>
  Claim C3: adding again a cost function object that is already registered raises no error
  and leaves the book-keeping unchanged, with no duplicate entries in the adjacency lists
  of the variables or in the list of the cost functions of its weight. The code warns
  "nothing to be done" and goes on with the book-keeping: on the graph that holds \<open>f\<close>, a
  second \<open>add(f)\<close> returns without error and appends \<open>f\<close> once more to the adjacency list
  of each of its variables and to the list of its weight.
\<close>

theorem C3_readd_duplicates:
  "raised (add ex_f ex_graph_f) = None \<and>
   functions_for_optim_vars (final_state (add ex_f ex_graph_f)) =
     [(ex_x, [CostFn ex_f, CostFn ex_f])] \<and>
   functions_for_aux_vars (final_state (add ex_f ex_graph_f)) =
     [(ex_a, [CostFn ex_f, CostFn ex_f])] \<and>
   cost_functions_for_weights (final_state (add ex_f ex_graph_f)) = [(ex_w, [ex_f, ex_f])] \<and>
   final_state (add ex_f ex_graph_f) \<noteq> ex_graph_f\<lparr>current_version := 2\<rparr>"
  by (simp add: ex_graph_f_eq objective_defs example_defs)

subsection \<open>The batch size\<close>

lemma get_batch_size_single: "set bs = {n} \<Longrightarrow> get_batch_size bs = Some n"
proof -
  assume a: "set bs = {n}"
  then have "bs \<noteq> []" by auto
  then have "hd bs \<in> set bs" by simp
  with a show ?thesis by (simp add: get_batch_size_def)
qed

lemma get_batch_size_broadcast:
  assumes "set bs = {1, n}" "1 < n"
  shows "get_batch_size bs = Some n"
  using assms by (simp add: get_batch_size_def)

lemma get_batch_size_raise:
  assumes "2 \<le> card (set bs)" "\<forall>k. 1 < k \<longrightarrow> set bs \<noteq> {1, k}"
  shows "get_batch_size bs = None"
proof -
  have "\<not> (card (set bs) = 2 \<and> Min (set bs) = 1)"
  proof
    assume h: "card (set bs) = 2 \<and> Min (set bs) = 1"
    then obtain x y where xy: "set bs = {x, y}" "x \<noteq> y"
      by (auto simp: card_2_iff)
    with h have m: "min x y = 1" by simp
    then have "(x = 1 \<and> 1 < y) \<or> (y = 1 \<and> 1 < x)"
      using xy(2) by (auto simp: min_def split: if_splits)
    with xy have "(set bs = {1, y} \<and> 1 < y) \<or> (set bs = {1, x} \<and> 1 < x)" by auto
    with assms(2) show False by blast
  qed
  with assms(1) show ?thesis by (auto simp: get_batch_size_def)
qed

lemma batch_sizes_of_batch_size [simp]:
  "batch_sizes_of (s\<lparr>batch_size := b\<rparr>) = batch_sizes_of s"
  by (simp add: batch_sizes_of_def)

text \<open>
  Claim C9: \<open>update\<close> resolves the batch size from the leading dimensions of the registered
  variables (\<open>bs\<close>: those of the optimization variables, then those of the auxiliary
  variables, as they are once the input tensors are written): when all are equal to \<open>n\<close>
  the batch size is \<open>n\<close>; when they are exactly \<open>1\<close> and \<open>n > 1\<close> it is \<open>n\<close>; for any other
  set of two or more values, that is, one that is \<open>{1, k}\<close> for no \<open>k > 1\<close> (so also for
  \<open>{0, 1}\<close>), \<open>update\<close> raises.
\<close>

theorem C9_batch_size_resolution:
  assumes "update_loop (case input_tensors of None \<Rightarrow> [] | Some d \<Rightarrow> d) batch_ignore_mask s =
             Inr s1"
    and "those (batch_sizes_of s1) = Some bs"
  shows "(set bs = {n} \<longrightarrow>
            update input_tensors batch_ignore_mask update_vectorization s =
              Inr (s1\<lparr>batch_size := Some n\<rparr>)) \<and>
         (set bs = {1, n} \<and> 1 < n \<longrightarrow>
            update input_tensors batch_ignore_mask update_vectorization s =
              Inr (s1\<lparr>batch_size := Some n\<rparr>)) \<and>
         (2 \<le> card (set bs) \<and> (\<forall>k. 1 < k \<longrightarrow> set bs \<noteq> {1, k}) \<longrightarrow>
            update input_tensors batch_ignore_mask update_vectorization s =
              Inl (NotBroadcastable, s1\<lparr>batch_size := None\<rparr>))"
  using assms
  by (auto simp: update_def resolve_batch_size_def Let_def get_batch_size_single
      get_batch_size_broadcast get_batch_size_raise)

lemmas update_eval_defs =
  update_loop.simps write_tensor_def Variable_update_def batch_sizes_of_def shape0_def
  ex_tensor_def ex_store_def ex_rows_def

lemma ex_update_loop:
  "update_loop [(''x'', ex_rows j), (''a'', ex_rows k)] None ex_graph_f =
     Inr (ex_graph_f\<lparr>var_tensor := (ex_store(0 := ex_rows j, 1 := ex_rows k))\<rparr>)"
  by (simp add: ex_graph_f_eq update_eval_defs example_defs fun_upd_def)

lemma ex_batch_sizes:
  "those (batch_sizes_of (ex_graph_f\<lparr>var_tensor := (ex_store(0 := ex_rows j, 1 := ex_rows k))\<rparr>)) =
     Some [j, k]"
  by (simp add: ex_graph_f_eq update_eval_defs example_defs)

theorem C9_batch_size_resolution_witness:
  "update (Some [(''x'', ex_rows 3), (''a'', ex_rows 3)]) None True ex_graph_f =
     Inr (ex_graph_f\<lparr>var_tensor := (ex_store(0 := ex_rows 3, 1 := ex_rows 3)),
                     batch_size := Some 3\<rparr>) \<and>
   update (Some [(''x'', ex_rows 1), (''a'', ex_rows 5)]) None True ex_graph_f =
     Inr (ex_graph_f\<lparr>var_tensor := (ex_store(0 := ex_rows 1, 1 := ex_rows 5)),
                     batch_size := Some 5\<rparr>) \<and>
   update (Some [(''x'', ex_rows 2), (''a'', ex_rows 5)]) None True ex_graph_f =
     Inl (NotBroadcastable,
          ex_graph_f\<lparr>var_tensor := (ex_store(0 := ex_rows 2, 1 := ex_rows 5)),
                     batch_size := None\<rparr>) \<and>
   update (Some [(''x'', ex_rows 0), (''a'', ex_rows 1)]) None True ex_graph_f =
     Inl (NotBroadcastable,
          ex_graph_f\<lparr>var_tensor := (ex_store(0 := ex_rows 0, 1 := ex_rows 1)),
                     batch_size := None\<rparr>)"
proof -
  have c: "card {2, 5 :: nat} = 2" by simp
  have n: "\<forall>k. 1 < k \<longrightarrow> {2, 5 :: nat} \<noteq> {1, k}"
  proof (intro allI impI)
    fix k :: nat
    show "{2, 5 :: nat} \<noteq> {1, k}"
    proof
      assume "{2, 5 :: nat} = {1, k}"
      then have "(1::nat) \<in> {2, 5}" by blast
      then show False by simp
    qed
  qed
  have c0: "card {0, 1 :: nat} = 2" by simp
  have n0: "\<forall>k. 1 < k \<longrightarrow> {0, 1 :: nat} \<noteq> {1, k}"
  proof (intro allI impI)
    fix k :: nat
    assume k: "1 < k"
    show "{0, 1 :: nat} \<noteq> {1, k}"
    proof
      assume "{0, 1 :: nat} = {1, k}"
      then have "(0::nat) \<in> {1, k}" by blast
      with k show False by simp
    qed
  qed
  have l: "update_loop (case Some [(''x'', ex_rows i), (''a'', ex_rows j)] of
                         None \<Rightarrow> [] | Some d \<Rightarrow> d) None ex_graph_f =
           Inr (ex_graph_f\<lparr>var_tensor := (ex_store(0 := ex_rows i, 1 := ex_rows j))\<rparr>)" for i j
    by (simp only: option.case ex_update_loop)
  have s1: "set [3, 3 :: nat] = {3}" by simp
  have s2: "set [1, 5 :: nat] = {1, 5} \<and> (1 :: nat) < 5" by simp
  have s3: "2 \<le> card (set [2, 5 :: nat]) \<and> (\<forall>k. 1 < k \<longrightarrow> set [2, 5 :: nat] \<noteq> {1, k})"
    using c n by simp
  have s4: "2 \<le> card (set [0, 1 :: nat]) \<and> (\<forall>k. 1 < k \<longrightarrow> set [0, 1 :: nat] \<noteq> {1, k})"
    using c0 n0 by simp
  from C9_batch_size_resolution [OF l ex_batch_sizes, of 3 3 3 True] s1
  have a: "update (Some [(''x'', ex_rows 3), (''a'', ex_rows 3)]) None True ex_graph_f =
     Inr (ex_graph_f\<lparr>var_tensor := (ex_store(0 := ex_rows 3, 1 := ex_rows 3)),
                     batch_size := Some 3\<rparr>)"
    by blast
  from C9_batch_size_resolution [OF l ex_batch_sizes, of 1 5 5 True] s2
  have b: "update (Some [(''x'', ex_rows 1), (''a'', ex_rows 5)]) None True ex_graph_f =
     Inr (ex_graph_f\<lparr>var_tensor := (ex_store(0 := ex_rows 1, 1 := ex_rows 5)),
                     batch_size := Some 5\<rparr>)"
    by blast
  from C9_batch_size_resolution [OF l ex_batch_sizes, of 2 5 0 True] s3
  have d: "update (Some [(''x'', ex_rows 2), (''a'', ex_rows 5)]) None True ex_graph_f =
     Inl (NotBroadcastable,
          ex_graph_f\<lparr>var_tensor := (ex_store(0 := ex_rows 2, 1 := ex_rows 5)),
                     batch_size := None\<rparr>)"
    by blast
  from C9_batch_size_resolution [OF l ex_batch_sizes, of 0 1 0 True] s4
  have e: "update (Some [(''x'', ex_rows 0), (''a'', ex_rows 1)]) None True ex_graph_f =
     Inl (NotBroadcastable,
          ex_graph_f\<lparr>var_tensor := (ex_store(0 := ex_rows 0, 1 := ex_rows 1)),
                     batch_size := None\<rparr>)"
    by blast
  from a b d e show ?thesis by blast
qed

subsection \<open>The temporary update of \<open>error\<close>\<close>

text \<open>
  Claim C4: \<open>error\<close> with \<open>also_update=False\<close> restores every registered variable to the
  tensor it held before the call. The code saves and restores the tensors of the
  optimization variables only, whereas \<open>update\<close> also writes the auxiliary variables named
  in the input: on the graph that holds \<open>f\<close>, \<open>error({a: T}, also_update=False)\<close> returns
  and leaves the auxiliary variable \<open>a\<close> holding \<open>T\<close>.
\<close>

theorem C4_aux_not_restored:
  "raised (error ex_weighted_error (Some [(''a'', ex_tensor 7)]) False ex_graph_f) = None \<and>
   var_tensor ex_graph_f (var_id ex_a) = ex_tensor 0 \<and>
   var_tensor (state_of (error ex_weighted_error (Some [(''a'', ex_tensor 7)]) False ex_graph_f))
     (var_id ex_a) = ex_tensor 7 \<and>
   ex_tensor 7 \<noteq> ex_tensor 0"
  by (simp add: ex_graph_f_eq error_def update_def resolve_batch_size_def get_batch_size_def
      update_eval_defs torch_cat_dim1_def ex_weighted_error_def raised_def state_of_def Let_def
      example_defs)

subsection \<open>Erasing a cost function\<close>

lemma var_to_fn_map_set [simp]:
  "var_to_fn_map b (set_var_to_fn_map b m s) = m"
  "var_to_fn_map b (set_vars_of_this_type b' c d s) = var_to_fn_map b s"
  by (simp_all add: var_to_fn_map_def set_var_to_fn_map_def set_vars_of_this_type_def)

lemma vars_of_this_type_set [simp]:
  "vars_of_this_type b c (set_vars_of_this_type b c d s) = d"
  "vars_of_this_type b c (set_var_to_fn_map b' m s) = vars_of_this_type b c s"
  by (simp_all add: vars_of_this_type_def set_var_to_fn_map_def set_vars_of_this_type_def)

lemma erase_function_variable_step:
  assumes "erase_function_variable F b c u s = Inr s'"
  shows "\<exists>fs. map_of (var_to_fn_map b s) u = Some fs \<and> F \<in> set fs \<and>
           map_of (var_to_fn_map b s') =
             (map_of (var_to_fn_map b s))
               (u := if remove1 F fs = [] then None else Some (remove1 F fs)) \<and>
           (if remove1 F fs = []
            then \<exists>nm. var_name u = Some nm \<and>
                   map_of (vars_of_this_type b c s') = (map_of (vars_of_this_type b c s))(nm := None)
            else vars_of_this_type b c s' = vars_of_this_type b c s)"
proof (cases "map_of (var_to_fn_map b s) u")
  case None
  with assms show ?thesis by (simp add: erase_function_variable_def)
next
  case (Some fs)
  with assms have F: "F \<in> set fs"
    by (auto simp: erase_function_variable_def split: if_splits)
  show ?thesis
  proof (cases "remove1 F fs = []")
    case True
    with assms Some F show ?thesis
      by (auto simp: erase_function_variable_def Let_def update_conv' delete_conv'
          split: option.splits if_splits)
  next
    case False
    with assms Some F show ?thesis
      by (auto simp: erase_function_variable_def Let_def update_conv')
  qed
qed

lemma erase_loop_frame:
  assumes "\<And>m s. g (set_var_to_fn_map b m s) = g s"
    and "\<And>d s. g (set_vars_of_this_type b c d s) = g s"
    and "erase_function_variables_loop F b c vs s = Inr s'"
  shows "g s' = g s"
  using assms(3)
proof (induction vs arbitrary: s)
  case Nil
  then show ?case by simp
next
  case (Cons u vs)
  then obtain s1 where s1: "erase_function_variable F b c u s = Inr s1"
    and rest: "erase_function_variables_loop F b c vs s1 = Inr s'"
    by (auto split: sum.splits)
  from s1 have "g s1 = g s"
    by (auto simp: erase_function_variable_def Let_def assms(1,2) split: option.splits if_splits)
  with Cons.IH [OF rest] show ?case by simp
qed

lemma funpow_remove1_Nil [simp]: "(remove1 x ^^ k) [] = []"
  by (induction k) simp_all

lemma erase_loop_adjacency:
  assumes "erase_function_variables_loop F b c vs s = Inr s'"
  shows "map_of (var_to_fn_map b s') v =
           (case map_of (var_to_fn_map b s) v of
              None \<Rightarrow> None
            | Some fs \<Rightarrow>
                let fs' = (remove1 F ^^ count_list vs v) fs
                in if v \<in> set vs \<and> fs' = [] then None else Some fs')"
  using assms
proof (induction vs arbitrary: s)
  case Nil
  then show ?case by (simp split: option.splits)
next
  case (Cons u vs)
  then obtain s1 where s1: "erase_function_variable F b c u s = Inr s1"
    and rest: "erase_function_variables_loop F b c vs s1 = Inr s'"
    by (auto split: sum.splits)
  from erase_function_variable_step [OF s1] obtain fs where
    fs: "map_of (var_to_fn_map b s) u = Some fs" "F \<in> set fs"
    and m1: "map_of (var_to_fn_map b s1) =
               (map_of (var_to_fn_map b s))
                 (u := if remove1 F fs = [] then None else Some (remove1 F fs))"
    by blast
  note IH = Cons.IH [OF rest]
  show ?case
  proof (cases "u = v")
    case False
    with IH m1 show ?thesis by (simp split: option.splits)
  next
    case True
    show ?thesis
    proof (cases "remove1 F fs = []")
      case True
      with \<open>u = v\<close> IH m1 fs show ?thesis
        by (simp add: funpow_swap1)
    next
      case False
      have "(remove1 F ^^ count_list vs v) (remove1 F fs) = [] \<Longrightarrow> v \<in> set vs"
        using False by (cases "count_list vs v = 0") (auto simp: count_list_0_iff)
      with False \<open>u = v\<close> IH m1 fs show ?thesis
        by (auto simp: funpow_swap1 Let_def)
    qed
  qed
qed

lemma erase_loop_keys:
  assumes "erase_function_variables_loop F b c vs s = Inr s'" "u \<in> set vs"
  shows "map_of (var_to_fn_map b s) u \<noteq> None"
  using assms
proof (induction vs arbitrary: s)
  case Nil
  then show ?case by simp
next
  case (Cons w vs)
  then obtain s1 where s1: "erase_function_variable F b c w s = Inr s1"
    and rest: "erase_function_variables_loop F b c vs s1 = Inr s'"
    by (auto split: sum.splits)
  from erase_function_variable_step [OF s1] obtain fs where
    fs: "map_of (var_to_fn_map b s) w = Some fs"
    and m1: "map_of (var_to_fn_map b s1) =
               (map_of (var_to_fn_map b s))
                 (w := if remove1 F fs = [] then None else Some (remove1 F fs))"
    by blast
  show ?case
  proof (cases "u = w")
    case True
    with fs show ?thesis by simp
  next
    case False
    with Cons.prems(2) have "u \<in> set vs" by simp
    from Cons.IH [OF rest this] m1 False show ?thesis by simp
  qed
qed

lemma erase_loop_registry:
  assumes "erase_function_variables_loop F b c vs s = Inr s'"
  shows "map_of (vars_of_this_type b c s') n =
           (if \<exists>u\<in>set vs. var_name u = Some n \<and> map_of (var_to_fn_map b s') u = None
            then None else map_of (vars_of_this_type b c s) n)"
  using assms
proof (induction vs arbitrary: s)
  case Nil
  then show ?case by simp
next
  case (Cons u vs)
  then obtain s1 where s1: "erase_function_variable F b c u s = Inr s1"
    and rest: "erase_function_variables_loop F b c vs s1 = Inr s'"
    by (auto split: sum.splits)
  from erase_function_variable_step [OF s1] obtain fs where
    fs: "map_of (var_to_fn_map b s) u = Some fs" "F \<in> set fs"
    and m1: "map_of (var_to_fn_map b s1) =
               (map_of (var_to_fn_map b s))
                 (u := if remove1 F fs = [] then None else Some (remove1 F fs))"
    and d1: "if remove1 F fs = []
            then \<exists>nm. var_name u = Some nm \<and>
                   map_of (vars_of_this_type b c s1) = (map_of (vars_of_this_type b c s))(nm := None)
            else vars_of_this_type b c s1 = vars_of_this_type b c s"
    by blast
  note IH = Cons.IH [OF rest]
  note adj = erase_loop_adjacency [OF rest, of u]
  show ?case
  proof (cases "remove1 F fs = []")
    case True
    with d1 obtain nm where nm: "var_name u = Some nm"
      "map_of (vars_of_this_type b c s1) = (map_of (vars_of_this_type b c s))(nm := None)"
      by auto
    from True m1 have "map_of (var_to_fn_map b s1) u = None" by simp
    with adj have gone: "map_of (var_to_fn_map b s') u = None" by simp
    show ?thesis
    proof (cases "n = nm")
      case True
      with IH nm gone show ?thesis by auto
    next
      case False
      with IH nm gone show ?thesis by auto
    qed
  next
    case False
    with d1 have d: "vars_of_this_type b c s1 = vars_of_this_type b c s" by simp
    from False m1 have "map_of (var_to_fn_map b s1) u = Some (remove1 F fs)" by simp
    with adj have "map_of (var_to_fn_map b s') u = None \<Longrightarrow> u \<in> set vs"
      by (auto simp: Let_def split: if_splits)
    with IH d show ?thesis by auto
  qed
qed

lemma funpow_remove1_Cons_neq:
  "y \<noteq> x \<Longrightarrow> (remove1 x ^^ k) (y # ys) = y # (remove1 x ^^ k) ys"
  by (induction k) simp_all

lemma funpow_remove1_count: "(remove1 x ^^ count_list xs x) xs = filter (\<lambda>y. y \<noteq> x) xs"
proof (induction xs)
  case Nil
  show ?case by simp
next
  case (Cons y ys)
  show ?case
  proof (cases "y = x")
    case True
    with Cons show ?thesis by (simp add: funpow_swap1)
  next
    case False
    with Cons show ?thesis by (simp add: funpow_remove1_Cons_neq)
  qed
qed


lemma count_list_filter:
  "count_list (filter P xs) x = (if P x then count_list xs x else 0)"
  by (induction xs) auto

lemma filter_neq_eq_Nil_iff:
  "(filter (\<lambda>y. y \<noteq> x) xs = []) = (\<forall>y\<in>set xs. y = x)"
  by (auto simp: filter_empty_conv)

text \<open>One loop of \<open>_erase_function_variables\<close>, seen from one variable.\<close>

lemma erase_loop_variable:
  assumes loop: "erase_function_variables_loop F b c vs s = Inr s'"
    and adj: "map_of (var_to_fn_map b s) v = Some fs" "fs \<noteq> []"
    and exact: "count_list fs F = count_list vs v"
    and name: "var_name v = Some n"
    and uniq: "\<forall>u. map_of (var_to_fn_map b s) u \<noteq> None \<and> var_name u = Some n \<longrightarrow> u = v"
  shows "map_of (var_to_fn_map b s') v =
           (if filter (\<lambda>G. G \<noteq> F) fs = [] then None else Some (filter (\<lambda>G. G \<noteq> F) fs))"
    and "map_of (vars_of_this_type b c s') n =
           (if filter (\<lambda>G. G \<noteq> F) fs = [] then None else map_of (vars_of_this_type b c s) n)"
proof -
  let ?fs' = "filter (\<lambda>G. G \<noteq> F) fs"
  have f: "(remove1 F ^^ count_list vs v) fs = ?fs'"
    using funpow_remove1_count [where x = F and xs = fs] exact by simp
  have notin: "v \<notin> set vs \<Longrightarrow> ?fs' \<noteq> []"
  proof -
    assume "v \<notin> set vs"
    then have "count_list vs v = 0" by (simp add: count_list_0_iff)
    with exact have "F \<notin> set fs" by (simp add: count_list_0_iff)
    then have "?fs' = fs" by (auto simp: filter_id_conv)
    with adj(2) show ?thesis by simp
  qed
  from erase_loop_adjacency [OF loop, of v] adj(1) f notin
  show A: "map_of (var_to_fn_map b s') v = (if ?fs' = [] then None else Some ?fs')"
    by (auto simp: Let_def)
  have "(\<exists>u\<in>set vs. var_name u = Some n \<and> map_of (var_to_fn_map b s') u = None) = (?fs' = [])"
  proof
    assume "\<exists>u\<in>set vs. var_name u = Some n \<and> map_of (var_to_fn_map b s') u = None"
    then obtain u where u: "u \<in> set vs" "var_name u = Some n"
      "map_of (var_to_fn_map b s') u = None" by blast
    from erase_loop_keys [OF loop u(1)] u(2) uniq have "u = v" by blast
    with u(3) A show "?fs' = []" by (simp split: if_splits)
  next
    assume e: "?fs' = []"
    with notin have "v \<in> set vs" by blast
    with e A name show "\<exists>u\<in>set vs. var_name u = Some n \<and> map_of (var_to_fn_map b s') u = None"
      by auto
  qed
  with erase_loop_registry [OF loop, of n]
  show "map_of (vars_of_this_type b c s') n =
           (if ?fs' = [] then None else map_of (vars_of_this_type b c s) n)"
    by simp
qed

lemma erase_loop_registry_None:
  assumes "erase_function_variables_loop F b c vs s = Inr s'"
    and "map_of (vars_of_this_type b c s) n = None"
  shows "map_of (vars_of_this_type b c s') n = None"
  using erase_loop_registry [OF assms(1), of n] assms(2) by simp

lemma erase_loop_keys_subset:
  assumes "erase_function_variables_loop F b c vs s = Inr s'"
    and "map_of (var_to_fn_map b s') u \<noteq> None"
  shows "map_of (var_to_fn_map b s) u \<noteq> None"
  using erase_loop_adjacency [OF assms(1), of u] assms(2) by (auto split: option.splits)

text \<open>The weight part of \<open>erase\<close>, seen from one auxiliary variable.\<close>

lemma erase_weight_aux:
  assumes ew: "erase_weight cf s = Inr s'"
    and cfs: "map_of (cost_functions_for_weights s) (cf_weight cf) = Some cfs"
    and name: "var_name v = Some n"
    and uniq: "\<forall>u. map_of (functions_for_aux_vars s) u \<noteq> None \<and> var_name u = Some n \<longrightarrow> u = v"
    and adj: "map_of (functions_for_aux_vars s) v = Some fs" "fs \<noteq> []"
    and exact: "count_list fs (WeightFn (cf_weight cf)) = count_list (cw_aux_vars (cf_weight cf)) v"
  shows "map_of (aux_vars s') n =
           (if remove1 cf cfs = [] \<and> filter (\<lambda>G. G \<noteq> WeightFn (cf_weight cf)) fs = []
            then None else map_of (aux_vars s) n)"
proof (cases "remove1 cf cfs = []")
  case False
  with ew cfs show ?thesis
    by (auto simp: erase_weight_def Let_def split: if_splits)
next
  case True
  let ?w = "cf_weight cf"
  let ?s1 = "s\<lparr>cost_functions_for_weights := AList.update ?w (remove1 cf cfs) (cost_functions_for_weights s)\<rparr>"
  from ew cfs True obtain s2 s3 where
    l1: "erase_function_variables_loop (WeightFn ?w) True True (cw_optim_vars ?w) ?s1 = Inr s2"
    and l2: "erase_function_variables_loop (WeightFn ?w) False True (cw_aux_vars ?w) s2 = Inr s3"
    and s': "s' = s3\<lparr>cost_functions_for_weights := AList.delete ?w (cost_functions_for_weights s3)\<rparr>"
    by (auto simp: erase_weight_def Let_def erase_function_variables_def function_optim_vars_def
        function_aux_vars_def split: if_splits sum.splits)
  have fa: "functions_for_aux_vars s2 = functions_for_aux_vars s"
    using erase_loop_frame [where g = functions_for_aux_vars, OF _ _ l1]
    by (simp add: set_var_to_fn_map_def set_vars_of_this_type_def)
  have av: "aux_vars s2 = aux_vars s"
    using erase_loop_frame [where g = aux_vars, OF _ _ l1]
    by (simp add: set_var_to_fn_map_def set_vars_of_this_type_def)
  have "map_of (vars_of_this_type False True s3) n =
          (if filter (\<lambda>G. G \<noteq> WeightFn ?w) fs = [] then None
           else map_of (vars_of_this_type False True s2) n)"
    by (rule erase_loop_variable(2) [OF l2 _ adj(2) exact name])
       (use adj(1) uniq fa in \<open>simp_all add: var_to_fn_map_def\<close>)
  with True s' av show ?thesis
    by (simp add: vars_of_this_type_def)
qed

lemma erase_weight_aux_None:
  assumes ew: "erase_weight cf s = Inr s'"
    and "map_of (aux_vars s) n = None"
  shows "map_of (aux_vars s') n = None"
proof -
  let ?w = "cf_weight cf"
  from ew obtain cfs where cfs: "map_of (cost_functions_for_weights s) ?w = Some cfs"
    by (auto simp: erase_weight_def Let_def split: option.splits)
  show ?thesis
  proof (cases "remove1 cf cfs = []")
    case False
    with ew cfs assms(2) show ?thesis
      by (auto simp: erase_weight_def Let_def split: if_splits)
  next
    case True
    let ?s1 = "s\<lparr>cost_functions_for_weights := AList.update ?w (remove1 cf cfs) (cost_functions_for_weights s)\<rparr>"
    from ew cfs True obtain s2 s3 where
      l1: "erase_function_variables_loop (WeightFn ?w) True True (cw_optim_vars ?w) ?s1 = Inr s2"
      and l2: "erase_function_variables_loop (WeightFn ?w) False True (cw_aux_vars ?w) s2 = Inr s3"
      and s': "s' = s3\<lparr>cost_functions_for_weights := AList.delete ?w (cost_functions_for_weights s3)\<rparr>"
      by (auto simp: erase_weight_def Let_def erase_function_variables_def function_optim_vars_def
          function_aux_vars_def split: if_splits sum.splits)
    have av: "aux_vars s2 = aux_vars s"
      using erase_loop_frame [where g = aux_vars, OF _ _ l1]
      by (simp add: set_var_to_fn_map_def set_vars_of_this_type_def)
    from erase_loop_registry_None [OF l2, of n] av assms(2) s' show ?thesis
      by (simp add: vars_of_this_type_def)
  qed
qed

lemma erase_weight_optim_vars:
  assumes ew: "erase_weight cf s = Inr s'"
  shows "optim_vars s' = optim_vars s"
proof -
  let ?w = "cf_weight cf"
  from ew obtain cfs where cfs: "map_of (cost_functions_for_weights s) ?w = Some cfs"
    by (auto simp: erase_weight_def Let_def split: option.splits)
  show ?thesis
  proof (cases "remove1 cf cfs = []")
    case False
    with ew cfs show ?thesis
      by (auto simp: erase_weight_def Let_def split: if_splits)
  next
    case True
    let ?s1 = "s\<lparr>cost_functions_for_weights := AList.update ?w (remove1 cf cfs) (cost_functions_for_weights s)\<rparr>"
    from ew cfs True obtain s2 s3 where
      l1: "erase_function_variables_loop (WeightFn ?w) True True (cw_optim_vars ?w) ?s1 = Inr s2"
      and l2: "erase_function_variables_loop (WeightFn ?w) False True (cw_aux_vars ?w) s2 = Inr s3"
      and s': "s' = s3\<lparr>cost_functions_for_weights := AList.delete ?w (cost_functions_for_weights s3)\<rparr>"
      by (auto simp: erase_weight_def Let_def erase_function_variables_def function_optim_vars_def
          function_aux_vars_def split: if_splits sum.splits)
    have "optim_vars s2 = optim_vars ?s1"
      using erase_loop_frame [where g = optim_vars, OF _ _ l1]
      by (simp add: set_var_to_fn_map_def set_vars_of_this_type_def)
    moreover have "optim_vars s3 = optim_vars s2"
      using erase_loop_frame [where g = optim_vars, OF _ _ l2]
      by (simp add: set_var_to_fn_map_def set_vars_of_this_type_def)
    ultimately show ?thesis using s' by simp
  qed
qed


lemma name_identifiesD:
  assumes "name_identifies m v" "var_name v = Some n"
  shows "\<forall>u. map_of m u \<noteq> None \<and> var_name u = Some n \<longrightarrow> u = v"
proof (intro allI impI)
  fix u
  assume u: "map_of m u \<noteq> None \<and> var_name u = Some n"
  then obtain fs where "map_of m u = Some fs" by auto
  then have "(u, fs) \<in> set m" by (rule map_of_SomeD)
  with assms u show "u = v" by (auto simp: name_identifies_def list_all_iff)
qed

lemma erase_unfold:
  assumes "erase name s = Inr s'" "map_of (cost_functions s) name = Some cf"
  shows "\<exists>s2 s3 s4.
           erase_function_variables_loop (CostFn cf) True False (cf_optim_vars cf)
             (s\<lparr>current_version := current_version s + 1\<rparr>) = Inr s2 \<and>
           erase_function_variables_loop (CostFn cf) False False (cf_aux_vars cf) s2 = Inr s3 \<and>
           erase_weight cf s3 = Inr s4 \<and>
           s' = s4\<lparr>cost_functions := AList.delete name (cost_functions s4)\<rparr>"
  using assms
  by (auto simp: erase_def Let_def erase_function_variables_def function_optim_vars_def
      function_aux_vars_def split: sum.splits)

lemma erase_optim_variable:
  assumes er: "erase name s = Inr s'"
    and cf: "map_of (cost_functions s) name = Some cf"
    and name: "var_name v = Some n"
    and adj: "map_of (functions_for_optim_vars s) v = Some fs" "fs \<noteq> []"
    and exact: "listed_as_referenced (CostFn cf) (cf_optim_vars cf) v fs"
    and uniq: "name_identifies (functions_for_optim_vars s) v"
  shows "map_of (optim_vars s') n =
           (if \<exists>G\<in>set fs. G \<noteq> CostFn cf then map_of (optim_vars s) n else None)"
proof -
  let ?s1 = "s\<lparr>current_version := current_version s + 1\<rparr>"
  from erase_unfold [OF er cf] obtain s2 s3 s4 where
    A: "erase_function_variables_loop (CostFn cf) True False (cf_optim_vars cf) ?s1 = Inr s2"
    and B: "erase_function_variables_loop (CostFn cf) False False (cf_aux_vars cf) s2 = Inr s3"
    and W: "erase_weight cf s3 = Inr s4"
    and s': "s' = s4\<lparr>cost_functions := AList.delete name (cost_functions s4)\<rparr>"
    by blast
  have "map_of (vars_of_this_type True False s2) n =
          (if filter (\<lambda>G. G \<noteq> CostFn cf) fs = [] then None
           else map_of (vars_of_this_type True False ?s1) n)"
    by (rule erase_loop_variable(2) [OF A _ adj(2) _ name])
       (use adj(1) exact name_identifiesD [OF uniq name] in
         \<open>simp_all add: var_to_fn_map_def listed_as_referenced_def\<close>)
  then have 2: "map_of (optim_vars s2) n =
          (if \<exists>G\<in>set fs. G \<noteq> CostFn cf then map_of (optim_vars s) n else None)"
    by (auto simp: vars_of_this_type_def filter_neq_eq_Nil_iff)
  have 3: "optim_vars s3 = optim_vars s2"
    using erase_loop_frame [where g = optim_vars, OF _ _ B]
    by (simp add: set_var_to_fn_map_def set_vars_of_this_type_def)
  from 2 3 erase_weight_optim_vars [OF W] s' show ?thesis by simp
qed

lemma erase_aux_variable:
  assumes er: "erase name s = Inr s'"
    and cf: "map_of (cost_functions s) name = Some cf"
    and cfs: "map_of (cost_functions_for_weights s) (cf_weight cf) = Some cfs"
    and name: "var_name v = Some n"
    and adj: "map_of (functions_for_aux_vars s) v = Some fs" "fs \<noteq> []"
    and exact: "listed_as_referenced (CostFn cf) (cf_aux_vars cf) v fs"
      "listed_as_referenced (WeightFn (cf_weight cf)) (cw_aux_vars (cf_weight cf)) v fs"
    and uniq: "name_identifies (functions_for_aux_vars s) v"
  shows "map_of (aux_vars s') n =
           (if \<exists>G\<in>set fs. G \<noteq> CostFn cf \<and> (remove1 cf cfs = [] \<longrightarrow> G \<noteq> WeightFn (cf_weight cf))
            then map_of (aux_vars s) n else None)"
proof -
  let ?s1 = "s\<lparr>current_version := current_version s + 1\<rparr>"
  let ?w = "cf_weight cf"
  let ?fsB = "filter (\<lambda>G. G \<noteq> CostFn cf) fs"
  from erase_unfold [OF er cf] obtain s2 s3 s4 where
    A: "erase_function_variables_loop (CostFn cf) True False (cf_optim_vars cf) ?s1 = Inr s2"
    and B: "erase_function_variables_loop (CostFn cf) False False (cf_aux_vars cf) s2 = Inr s3"
    and W: "erase_weight cf s3 = Inr s4"
    and s': "s' = s4\<lparr>cost_functions := AList.delete name (cost_functions s4)\<rparr>"
    by blast
  note u = name_identifiesD [OF uniq name]
  have fa2: "functions_for_aux_vars s2 = functions_for_aux_vars s"
    using erase_loop_frame [where g = functions_for_aux_vars, OF _ _ A]
    by (simp add: set_var_to_fn_map_def set_vars_of_this_type_def)
  have av2: "aux_vars s2 = aux_vars s"
    using erase_loop_frame [where g = aux_vars, OF _ _ A]
    by (simp add: set_var_to_fn_map_def set_vars_of_this_type_def)
  have cw2: "cost_functions_for_weights s2 = cost_functions_for_weights s"
    using erase_loop_frame [where g = cost_functions_for_weights, OF _ _ A]
    by (simp add: set_var_to_fn_map_def set_vars_of_this_type_def)
  have cw3: "cost_functions_for_weights s3 = cost_functions_for_weights s"
    using erase_loop_frame [where g = cost_functions_for_weights, OF _ _ B] cw2
    by (simp add: set_var_to_fn_map_def set_vars_of_this_type_def)
  have pre: "map_of (var_to_fn_map False s2) v = Some fs"
    "count_list fs (CostFn cf) = count_list (cf_aux_vars cf) v"
    "\<forall>u. map_of (var_to_fn_map False s2) u \<noteq> None \<and> var_name u = Some n \<longrightarrow> u = v"
    using adj(1) exact(1) u fa2 by (simp_all add: var_to_fn_map_def listed_as_referenced_def)
  have M3: "map_of (functions_for_aux_vars s3) v = (if ?fsB = [] then None else Some ?fsB)"
    using erase_loop_variable(1) [OF B pre(1) adj(2) pre(2) name pre(3)]
    by (simp add: var_to_fn_map_def)
  have D3: "map_of (aux_vars s3) n = (if ?fsB = [] then None else map_of (aux_vars s) n)"
    using erase_loop_variable(2) [OF B pre(1) adj(2) pre(2) name pre(3)] av2
    by (simp add: vars_of_this_type_def)
  have u3: "\<forall>u. map_of (functions_for_aux_vars s3) u \<noteq> None \<and> var_name u = Some n \<longrightarrow> u = v"
  proof (intro allI impI)
    fix u
    assume a: "map_of (functions_for_aux_vars s3) u \<noteq> None \<and> var_name u = Some n"
    then have "map_of (var_to_fn_map False s3) u \<noteq> None" by (simp add: var_to_fn_map_def)
    from erase_loop_keys_subset [OF B this] a pre(3) show "u = v" by blast
  qed
  show ?thesis
  proof (cases "?fsB = []")
    case True
    with D3 have "map_of (aux_vars s3) n = None" by simp
    from erase_weight_aux_None [OF W this] s' True show ?thesis
      by (auto simp: filter_neq_eq_Nil_iff)
  next
    case False
    with M3 have adj3: "map_of (functions_for_aux_vars s3) v = Some ?fsB" by simp
    have ex3: "count_list ?fsB (WeightFn ?w) = count_list (cw_aux_vars ?w) v"
      using exact(2) by (simp add: count_list_filter listed_as_referenced_def)
    have cfs3: "map_of (cost_functions_for_weights s3) ?w = Some cfs"
      using cfs cw3 by simp
    have "map_of (aux_vars s4) n =
            (if remove1 cf cfs = [] \<and> filter (\<lambda>G. G \<noteq> WeightFn ?w) ?fsB = []
             then None else map_of (aux_vars s3) n)"
      by (rule erase_weight_aux [OF W cfs3 name u3 adj3 False ex3])
    with D3 False s' show ?thesis
      by (auto simp: filter_neq_eq_Nil_iff filter_empty_conv)
  qed
qed

text \<open>
  Claim C6, amended: in a graph whose adjacency lists are exact for the erased cost
  function \<open>cf\<close> and its weight, and where the variable \<open>v\<close> is identified by its name, a
  successful \<open>erase\<close> of \<open>cf\<close> leaves an optimization variable \<open>v\<close> registered exactly when
  its adjacency list holds a function other than \<open>cf\<close>, and leaves an auxiliary variable
  \<open>v\<close> registered exactly when its adjacency list holds a function other than \<open>cf\<close> and,
  if \<open>cf\<close> was the last cost function of its weight, other than this weight. The functions
  of an adjacency list are cost functions and cost weights.
\<close>

theorem C6_erase_cascade:
  assumes "erase name s = Inr s'"
    and "map_of (cost_functions s) name = Some cf"
    and "map_of (cost_functions_for_weights s) (cf_weight cf) = Some cfs"
    and "var_name v = Some n"
  shows "(map_of (optim_vars s) n = Some v \<and>
          map_of (functions_for_optim_vars s) v = Some fs \<and> fs \<noteq> [] \<and>
          listed_as_referenced (CostFn cf) (cf_optim_vars cf) v fs \<and>
          name_identifies (functions_for_optim_vars s) v \<longrightarrow>
            (has_optim_var s' (Some n) \<longleftrightarrow> (\<exists>G\<in>set fs. G \<noteq> CostFn cf))) \<and>
         (map_of (aux_vars s) n = Some v \<and>
          map_of (functions_for_aux_vars s) v = Some fs' \<and> fs' \<noteq> [] \<and>
          listed_as_referenced (CostFn cf) (cf_aux_vars cf) v fs' \<and>
          listed_as_referenced (WeightFn (cf_weight cf)) (cw_aux_vars (cf_weight cf)) v fs' \<and>
          name_identifies (functions_for_aux_vars s) v \<longrightarrow>
            (has_aux_var s' (Some n) \<longleftrightarrow>
               (\<exists>G\<in>set fs'. G \<noteq> CostFn cf \<and>
                  (remove1 cf cfs = [] \<longrightarrow> G \<noteq> WeightFn (cf_weight cf)))))"
proof (intro conjI impI)
  assume h: "map_of (optim_vars s) n = Some v \<and>
          map_of (functions_for_optim_vars s) v = Some fs \<and> fs \<noteq> [] \<and>
          listed_as_referenced (CostFn cf) (cf_optim_vars cf) v fs \<and>
          name_identifies (functions_for_optim_vars s) v"
  then have "map_of (optim_vars s') n =
           (if \<exists>G\<in>set fs. G \<noteq> CostFn cf then map_of (optim_vars s) n else None)"
    using erase_optim_variable [OF assms(1,2,4), of fs] by blast
  with h show "has_optim_var s' (Some n) \<longleftrightarrow> (\<exists>G\<in>set fs. G \<noteq> CostFn cf)"
    by (simp add: has_optim_var_def has_key_def)
next
  assume h: "map_of (aux_vars s) n = Some v \<and>
          map_of (functions_for_aux_vars s) v = Some fs' \<and> fs' \<noteq> [] \<and>
          listed_as_referenced (CostFn cf) (cf_aux_vars cf) v fs' \<and>
          listed_as_referenced (WeightFn (cf_weight cf)) (cw_aux_vars (cf_weight cf)) v fs' \<and>
          name_identifies (functions_for_aux_vars s) v"
  then have "map_of (aux_vars s') n =
           (if \<exists>G\<in>set fs'. G \<noteq> CostFn cf \<and> (remove1 cf cfs = [] \<longrightarrow> G \<noteq> WeightFn (cf_weight cf))
            then map_of (aux_vars s) n else None)"
    using erase_aux_variable [OF assms(1,2,3,4), of fs'] by blast
  with h show "has_aux_var s' (Some n) \<longleftrightarrow>
               (\<exists>G\<in>set fs'. G \<noteq> CostFn cf \<and>
                  (remove1 cf cfs = [] \<longrightarrow> G \<noteq> WeightFn (cf_weight cf)))"
    by (simp add: has_aux_var_def has_key_def)
qed


lemma ex_graph_g_eq:
  "ex_graph_g =
     \<lparr> optim_vars = [(''y'', ex_y)], cost_weight_optim_vars = [], aux_vars = [(''a'', ex_a)],
       all_variables = [(''y'', ex_y), (''a'', ex_a)],
       cost_functions = [(''g'', ex_g)], cost_functions_for_weights = [(ex_wa, [ex_g])],
       functions_for_optim_vars = [(ex_y, [CostFn ex_g])],
       functions_for_aux_vars = [(ex_a, [WeightFn ex_wa])],
       batch_size = None, obj_dtype = Float32, current_version = 1,
       allow_mixed_optim_aux_vars = False, var_tensor = ex_store \<rparr>"
  by (simp add: ex_graph_g_def objective_defs example_defs)

text \<open>
  Claim C6, as it stands: erasing the sole cost function that references a variable removes
  the variable from the registry. It fails where a cost weight still in use reads the
  variable: in the graph of \<open>f\<close> and \<open>g\<close>, \<open>f\<close> is the only cost function that refers to \<open>a\<close>
  (\<open>g\<close> does not, its weight does), and after \<open>erase(f)\<close> the variable \<open>a\<close> is still
  registered.
\<close>

theorem C6_weight_keeps_variable:
  "cost_functions ex_graph_fg = [(''f'', ex_f), (''g'', ex_g)] \<and>
   ex_a \<in> set (cf_aux_vars ex_f) \<and>
   ex_a \<notin> set (cf_optim_vars ex_g @ cf_aux_vars ex_g) \<and>
   raised (erase ''f'' ex_graph_fg) = None \<and>
   cost_functions (final_state (erase ''f'' ex_graph_fg)) = [(''g'', ex_g)] \<and>
   has_aux_var (final_state (erase ''f'' ex_graph_fg)) (Some ''a'')"
  by (simp add: ex_graph_fg_eq objective_defs example_defs)

lemma raised_None_Inr: "raised r = None \<Longrightarrow> r = Inr (final_state r)"
  by (cases r) (auto simp: raised_def final_state_def)

theorem C6_erase_cascade_witness:
  "\<not> has_optim_var (final_state (erase ''f'' ex_graph_f)) (Some ''x'') \<and>
   \<not> has_aux_var (final_state (erase ''f'' ex_graph_f)) (Some ''a'') \<and>
   has_aux_var (final_state (erase ''f'' ex_graph_fg)) (Some ''a'') \<and>
   \<not> has_aux_var (final_state (erase ''g'' ex_graph_g)) (Some ''a'')"
proof -
  have e1: "erase ''f'' ex_graph_f = Inr (final_state (erase ''f'' ex_graph_f))"
    by (rule raised_None_Inr) (simp add: ex_graph_f_eq objective_defs example_defs)
  have e2: "erase ''f'' ex_graph_fg = Inr (final_state (erase ''f'' ex_graph_fg))"
    by (rule raised_None_Inr) (simp add: ex_graph_fg_eq objective_defs example_defs)
  have c1: "map_of (cost_functions ex_graph_f) ''f'' = Some ex_f"
    and w1: "map_of (cost_functions_for_weights ex_graph_f) (cf_weight ex_f) = Some [ex_f]"
    by (simp_all add: ex_graph_f_eq example_defs)
  have c2: "map_of (cost_functions ex_graph_fg) ''f'' = Some ex_f"
    and w2: "map_of (cost_functions_for_weights ex_graph_fg) (cf_weight ex_f) = Some [ex_f]"
    by (simp_all add: ex_graph_fg_eq example_defs)
  have nx: "var_name ex_x = Some ''x''" and na: "var_name ex_a = Some ''a''"
    by (simp_all add: example_defs)
  have hx: "map_of (optim_vars ex_graph_f) ''x'' = Some ex_x \<and>
          map_of (functions_for_optim_vars ex_graph_f) ex_x = Some [CostFn ex_f] \<and>
          [CostFn ex_f] \<noteq> [] \<and>
          listed_as_referenced (CostFn ex_f) (cf_optim_vars ex_f) ex_x [CostFn ex_f] \<and>
          name_identifies (functions_for_optim_vars ex_graph_f) ex_x"
    by (simp add: ex_graph_f_eq listed_as_referenced_def name_identifies_def example_defs)
  have ha: "map_of (aux_vars ex_graph_f) ''a'' = Some ex_a \<and>
          map_of (functions_for_aux_vars ex_graph_f) ex_a = Some [CostFn ex_f] \<and>
          [CostFn ex_f] \<noteq> [] \<and>
          listed_as_referenced (CostFn ex_f) (cf_aux_vars ex_f) ex_a [CostFn ex_f] \<and>
          listed_as_referenced (WeightFn (cf_weight ex_f)) (cw_aux_vars (cf_weight ex_f)) ex_a
            [CostFn ex_f] \<and>
          name_identifies (functions_for_aux_vars ex_graph_f) ex_a"
    by (simp add: ex_graph_f_eq listed_as_referenced_def name_identifies_def example_defs)
  have ha2: "map_of (aux_vars ex_graph_fg) ''a'' = Some ex_a \<and>
          map_of (functions_for_aux_vars ex_graph_fg) ex_a = Some [CostFn ex_f, WeightFn ex_wa] \<and>
          [CostFn ex_f, WeightFn ex_wa] \<noteq> [] \<and>
          listed_as_referenced (CostFn ex_f) (cf_aux_vars ex_f) ex_a [CostFn ex_f, WeightFn ex_wa] \<and>
          listed_as_referenced (WeightFn (cf_weight ex_f)) (cw_aux_vars (cf_weight ex_f)) ex_a
            [CostFn ex_f, WeightFn ex_wa] \<and>
          name_identifies (functions_for_aux_vars ex_graph_fg) ex_a"
    by (simp add: ex_graph_fg_eq listed_as_referenced_def name_identifies_def example_defs)
  have k: "WeightFn ex_wa \<noteq> WeightFn (cf_weight ex_f)"
    by (simp add: example_defs)
  from C6_erase_cascade [OF e1 c1 w1 nx, of "[CostFn ex_f]"] hx
  have 1: "\<not> has_optim_var (final_state (erase ''f'' ex_graph_f)) (Some ''x'')"
    by simp
  from C6_erase_cascade [OF e1 c1 w1 na, of _ "[CostFn ex_f]"] ha
  have 2: "\<not> has_aux_var (final_state (erase ''f'' ex_graph_f)) (Some ''a'')"
    by simp
  from C6_erase_cascade [OF e2 c2 w2 na, of _ "[CostFn ex_f, WeightFn ex_wa]"] ha2 k
  have 3: "has_aux_var (final_state (erase ''f'' ex_graph_fg)) (Some ''a'')"
    by simp
  have e4: "erase ''g'' ex_graph_g = Inr (final_state (erase ''g'' ex_graph_g))"
    by (rule raised_None_Inr) (simp add: ex_graph_g_eq objective_defs example_defs)
  have c4: "map_of (cost_functions ex_graph_g) ''g'' = Some ex_g"
    and w4: "map_of (cost_functions_for_weights ex_graph_g) (cf_weight ex_g) = Some [ex_g]"
    by (simp_all add: ex_graph_g_eq example_defs)
  have ha4: "map_of (aux_vars ex_graph_g) ''a'' = Some ex_a \<and>
          map_of (functions_for_aux_vars ex_graph_g) ex_a = Some [WeightFn ex_wa] \<and>
          [WeightFn ex_wa] \<noteq> [] \<and>
          listed_as_referenced (CostFn ex_g) (cf_aux_vars ex_g) ex_a [WeightFn ex_wa] \<and>
          listed_as_referenced (WeightFn (cf_weight ex_g)) (cw_aux_vars (cf_weight ex_g)) ex_a
            [WeightFn ex_wa] \<and>
          name_identifies (functions_for_aux_vars ex_graph_g) ex_a"
    by (simp add: ex_graph_g_eq listed_as_referenced_def name_identifies_def example_defs)
  from C6_erase_cascade [OF e4 c4 w4 na, of _ "[WeightFn ex_wa]"] ha4
  have 4: "\<not> has_aux_var (final_state (erase ''g'' ex_graph_g)) (Some ''a'')"
    by (simp add: example_defs)
  from 1 2 3 4 show ?thesis by blast
qed

section \<open>Properties of the optimizer\<close>

subsection \<open>The schedule\<close>

lemma pass_fac_to_var_loop_schedule:
  "pass_fac_to_var_loop g wje vars vtof_msgs schedule damping factors start ftov_msgs =
   pass_fac_to_var_loop g wje vars vtof_msgs schedule' damping factors start ftov_msgs"
proof (induction factors arbitrary: start ftov_msgs)
  case Nil
  show ?case by simp
next
  case (Cons fac factors)
  show ?case
    unfolding pass_fac_to_var_loop.simps Let_def
    by (simp only: Cons.IH [of _ _])
qed

lemma pass_fac_to_var_messages_schedule:
  "pass_fac_to_var_messages g wje vars factors vtof_msgs ftov_msgs schedule damping =
   pass_fac_to_var_messages g wje vars factors vtof_msgs ftov_msgs schedule' damping"
  unfolding pass_fac_to_var_messages_def by (rule pass_fac_to_var_loop_schedule)

text \<open>
  Claim C1: the factor-to-variable pass overwrites the outgoing messages only of the edges
  that the row of the schedule marks active, and an edge whose entry is false keeps its
  message. The pass receives the row and never reads it: with the only edge marked
  inactive, the pass, and the iteration of the loop that calls it, replace the message of
  the edge (mean \<open>0\<close>, precision \<open>0\<close>) by the one computed from the factor (mean \<open>3\<close>,
  precision \<open>1\<close>).
\<close>

theorem C1_inactive_edge_overwritten:
  "pass_fac_to_var_messages euclidean ex_prior [ex_var [0]] [ex_factor [0] [0] [0]]
     [ex_msg [0] [0]] [ex_msg [0] [0]] [False] [0] =
     Inr ([ex_factor [3] [1] [0]], [ex_msg [3] [1]]) \<and>
   gs_ftov_msgs ex_state = [ex_msg [0] [0]] \<and>
   map_sum id (\<lambda>(stop, s). gs_ftov_msgs s)
     (optimize_iteration euclidean ex_prior (1 / 10 ^ 10) ex_params [[0]] 0 0
        (\<lambda>i. [False]) [[False], [False], [False]] 0 ex_state) = Inr [ex_msg [3] [1]]"
  by code_simp

subsection \<open>The convergence check\<close>










subsection \<open>The batch in \<open>comp_mess\<close>\<close>

text \<open>
  Claim C5, as it stands: \<open>comp_mess\<close> computes the outgoing message for all batch elements,
  the result for the batch element \<open>i\<close> depending only on the batch element \<open>i\<close> of the
  potential and of the incoming messages. The code reads batch element \<open>0\<close> only. In a
  batch of two whose first potential is zero and whose second has precision \<open>5\<close> and
  information \<open>3\<close>, both elements get the zero message, whereas the second element taken
  alone gets the message with mean \<open>3 / 5\<close> and precision \<open>5\<close>; and with the first potential
  equal to the second the call raises, the precision computed from element \<open>0\<close> having
  batch size one.
\<close>

theorem C5_batch_element_not_independent:
  "comp_mess euclidean (ex_factor [0, 3] [0, 5] [0, 0]) [ex_var [0, 0]]
     [ex_msg [0, 0] [0, 0]] [ex_msg [0, 0] [0, 0]] [0] =
     Inr ([ex_msg [0, 0] [0, 0]], [ex_msg [0, 0] [0, 0]]) \<and>
   comp_mess euclidean (ex_factor [3] [5] [0]) [ex_var [0]]
     [ex_msg [0] [0]] [ex_msg [0] [0]] [0] =
     Inr ([ex_msg [3 / 5] [5]], [ex_msg [3 / 5] [5]]) \<and>
   comp_mess euclidean (ex_factor [3, 3] [5, 5] [0, 0]) [ex_var [0, 0]]
     [ex_msg [0, 0] [0, 0]] [ex_msg [0, 0] [0, 0]] [0] = Inl ShapeMismatch"
  by code_simp

lemma take_product_first_of:
  assumes "\<forall>i\<in>set ixs. first_of (local_gaussian g (vtof' ! i) (lin_point self' ! i) False) =
                       first_of (local_gaussian g (vtof ! i) (lin_point self ! i) False)"
  shows "take_product g self' ovs vtof' v ixs start p = take_product g self ovs vtof v ixs start p"
  using assms
proof (induction ixs arbitrary: start p)
  case Nil
  show ?case by (cases p) simp
next
  case (Cons i ixs)
  obtain e l where p: "p = (e, l)" by (cases p)
  from Cons.prems have
    h: "first_of (local_gaussian g (vtof' ! i) (lin_point self' ! i) False) =
        first_of (local_gaussian g (vtof ! i) (lin_point self ! i) False)"
    and r: "\<forall>i\<in>set ixs. first_of (local_gaussian g (vtof' ! i) (lin_point self' ! i) False) =
                       first_of (local_gaussian g (vtof ! i) (lin_point self ! i) False)"
    by simp_all
  show ?case
    unfolding p take_product.simps Let_def h
    by (simp add: Cons.IH [OF r] split: option.splits)
qed

lemma comp_mess_var_first_of:
  assumes "first_of (potential_eta self', potential_lam self') =
           first_of (potential_eta self, potential_lam self)"
    and "f_vars self' = f_vars self" "lin_point self' = lin_point self"
    and "\<forall>i < length (f_vars self).
           first_of (local_gaussian g (vtof' ! i) (lin_point self ! i) False) =
           first_of (local_gaussian g (vtof ! i) (lin_point self ! i) False)"
  shows "comp_mess_var g self' ovs vtof' ftov damping v sdim =
         comp_mess_var g self ovs vtof ftov damping v sdim"
proof -
  have tp: "take_product g self' ovs vtof' v [0 ..< length (f_vars self)] 0 p =
        take_product g self ovs vtof v [0 ..< length (f_vars self)] 0 p" for p
    by (rule take_product_first_of) (use assms(3,4) in simp)
  show ?thesis
    unfolding comp_mess_var_def assms(1,2,3)
    by (simp add: tp split: option.splits)
qed

lemma comp_mess_loop_first_of:
  assumes "first_of (potential_eta self', potential_lam self') =
           first_of (potential_eta self, potential_lam self)"
    and "f_vars self' = f_vars self" "lin_point self' = lin_point self"
    and "\<forall>i < length (f_vars self).
           first_of (local_gaussian g (vtof' ! i) (lin_point self ! i) False) =
           first_of (local_gaussian g (vtof ! i) (lin_point self ! i) False)"
  shows "comp_mess_loop g self' ovs vtof' ftov damping vs sdim =
         comp_mess_loop g self ovs vtof ftov damping vs sdim"
  by (induction vs arbitrary: sdim)
     (simp_all add: comp_mess_var_first_of [OF assms] split: sum.splits)

text \<open>
  Claim C5, amended: \<open>comp_mess\<close> reads batch element \<open>0\<close> only of the potential of the
  factor and of the incoming messages brought to the tangent space at the linearisation
  point: two potentials and two lists of incoming messages that agree there give the same
  result, whatever their other batch elements are.
\<close>

theorem C5_comp_mess_reads_batch_element_0:
  assumes "first_of (potential_eta self', potential_lam self') =
           first_of (potential_eta self, potential_lam self)"
    and "f_vars self' = f_vars self" "lin_point self' = lin_point self"
    and "\<forall>i < length (f_vars self).
           first_of (local_gaussian g (vtof_msgs' ! i) (lin_point self ! i) False) =
           first_of (local_gaussian g (vtof_msgs ! i) (lin_point self ! i) False)"
  shows "comp_mess g self' ovs vtof_msgs' ftov_msgs damping =
         comp_mess g self ovs vtof_msgs ftov_msgs damping"
  unfolding comp_mess_def
  by (simp add: comp_mess_loop_first_of [OF assms] assms(2))

theorem C5_comp_mess_reads_batch_element_0_witness:
  "comp_mess euclidean (ex_factor [0, 8] [0, 9] [0, 0]) [ex_var [0, 0]]
     [ex_msg [0, 4] [0, 2]] [ex_msg [0, 0] [0, 0]] [0] =
   Inr ([ex_msg [0, 0] [0, 0]], [ex_msg [0, 0] [0, 0]])"
proof -
  have 1: "first_of (potential_eta (ex_factor [0, 8] [0, 9] [0, 0]),
                     potential_lam (ex_factor [0, 8] [0, 9] [0, 0])) =
           first_of (potential_eta (ex_factor [0, 3] [0, 5] [0, 0]),
                     potential_lam (ex_factor [0, 3] [0, 5] [0, 0]))"
    by (simp add: ex_factor_def first_of_def)
  have 2: "f_vars (ex_factor [0, 8] [0, 9] [0, 0]) = f_vars (ex_factor [0, 3] [0, 5] [0, 0])"
    and 3: "lin_point (ex_factor [0, 8] [0, 9] [0, 0]) = lin_point (ex_factor [0, 3] [0, 5] [0, 0])"
    by (simp_all add: ex_factor_def)
  have 4: "\<forall>i < length (f_vars (ex_factor [0, 3] [0, 5] [0, 0])).
           first_of (local_gaussian euclidean ([ex_msg [0, 4] [0, 2]] ! i)
                       (lin_point (ex_factor [0, 3] [0, 5] [0, 0]) ! i) False) =
           first_of (local_gaussian euclidean ([ex_msg [0, 0] [0, 0]] ! i)
                       (lin_point (ex_factor [0, 3] [0, 5] [0, 0]) ! i) False)"
    by code_simp
  have 5: "comp_mess euclidean (ex_factor [0, 3] [0, 5] [0, 0]) [ex_var [0, 0]]
     [ex_msg [0, 0] [0, 0]] [ex_msg [0, 0] [0, 0]] [0] =
     Inr ([ex_msg [0, 0] [0, 0]], [ex_msg [0, 0] [0, 0]])"
    by code_simp
  show ?thesis
    using C5_comp_mess_reads_batch_element_0 [OF 1 2 3 4, of "[ex_var [0, 0]]"
        "[ex_msg [0, 0] [0, 0]]" "[0]"] 5
    by simp
qed


subsection \<open>Zero precision\<close>

lemma batch_count_nonzero_0: "batch_count_nonzero As = 0 \<longleftrightarrow> all_zero_mats As"
  by (auto simp: batch_count_nonzero_def all_zero_mats_def filter_empty_conv list_all_iff)

lemma all_zero_data_zero_data [simp]: "all_zero_data (zero_data var)"
  by (simp add: all_zero_data_def zero_data_def list_all_iff)

lemma all_zero_mats_replicate [simp]: "all_zero_mats (replicate b (zeros_mat n m))"
  by (simp add: all_zero_mats_def zeros_mat_def list_all_iff)

lemma var_to_fac_message_zero:
  assumes "batch_count_nonzero (lam_a_of lams_tp ix) = 0"
    and "mean vtof_msg = m0 # ms"
  shows "var_to_fac_message g var taus lams_tp ix vtof_msg =
           Inr (vtof_msg\<lparr>mean := zero_data m0 # ms, precision := lam_a_of lams_tp ix\<rparr>)"
  using assms by (simp add: var_to_fac_message_def Let_def)

lemma pass_var_to_fac_var_zero:
  assumes "pass_var_to_fac_var g var_ix_for_edges ftov_msgs update_belief i
             (vtof_msgs, vars, beliefs) = Inr (vtof_msgs', vars', beliefs')"
    and "batch_count_nonzero
           (lam_tau_of (map snd (incoming g var_ix_for_edges ftov_msgs (vars ! i) i))) = 0"
  shows "vars' = vars \<and> beliefs' = beliefs"
  using assms
  by (auto simp: pass_var_to_fac_var_def Let_def split: if_splits sum.splits)

lemma comp_mess_var_zero:
  assumes "first_of (potential_eta self, potential_lam self) = Some (eta0, lam0)"
    and "take_product g self ovs vtof_msgs v [0 ..< length (f_vars self)] 0 (eta0, lam0) =
           Inr (eta_factor, lam_factor)"
    and "marginalise sdim (g_dof g (ovs ! v)) eta_factor lam_factor =
           Inr (new_mess_eta, new_mess_lam)"
    and "count_nonzero new_mess_lam = 0"
  shows "comp_mess_var g self ovs vtof_msgs ftov_msgs damping v sdim =
           Inr \<lparr>mean = [zero_data (ovs ! v)],
                precision = replicate (length (m_data (ovs ! v)))
                              (zeros_mat (g_dof g (ovs ! v)) (g_dof g (ovs ! v)))\<rparr>"
  using assms
  by (simp add: comp_mess_var_def Let_def ManifoldGaussian_def manifold_copy_def)

lemma det_zero_row:
  assumes "A \<noteq> []" "length (hd A) = length A" "count_nonzero A = 0"
  shows "det A = 0"
proof -
  from assms(1) obtain r rs where A: "A = r # rs" by (cases A) auto
  from assms(3) A have z: "\<forall>x\<in>set r. x = 0"
    by (auto simp: count_nonzero_def filter_empty_conv)
  have h: "\<forall>j < length A. hd A ! j = 0"
    using assms(2) z A by (auto simp: all_set_conv_all_nth)
  have "sum_list (map (\<lambda>j. (- 1) ^ j * (hd A ! j) * det (minor A 0 j)) [0 ..< length A]) = 0"
  proof -
    have "map (\<lambda>j. (- 1) ^ j * (hd A ! j) * det (minor A 0 j)) [0 ..< length A] =
          map (\<lambda>j. 0 :: real) [0 ..< length A]"
      by (rule map_cong [OF refl]) (use h in simp)
    then show ?thesis by (simp only: sum_list_0)
  qed
  with assms(1) show ?thesis
    by (subst det.simps) simp
qed

lemma matrix_inverse_zero:
  assumes "A \<noteq> []" "length (hd A) = length A" "count_nonzero A = 0"
  shows "matrix_inverse A = None"
  using det_zero_row [OF assms] by (simp add: matrix_inverse_def)

lemma var_to_fac_edges_frame:
  "var_to_fac_edges g var taus lams_tp var_ix_for_edges i js ix vtof_msgs = Inr vtof_msgs' \<Longrightarrow>
   length vtof_msgs' = length vtof_msgs \<and>
   (\<forall>j. j \<notin> set js \<or> var_ix_for_edges ! j \<noteq> i \<longrightarrow> vtof_msgs' ! j = vtof_msgs ! j)"
proof (induction js arbitrary: ix vtof_msgs)
  case Nil
  then show ?case by simp
next
  case (Cons a rest)
  show ?case
  proof (cases "var_ix_for_edges ! a = i")
    case True
    with Cons.prems obtain msg where
      m: "var_to_fac_message g var taus lams_tp ix (vtof_msgs ! a) = Inr msg" and
      r: "var_to_fac_edges g var taus lams_tp var_ix_for_edges i rest (ix + 1)
            (vtof_msgs[a := msg]) = Inr vtof_msgs'"
      by (auto split: sum.splits)
    note IH = Cons.IH [OF r]
    show ?thesis
    proof (intro conjI allI impI)
      show "length vtof_msgs' = length vtof_msgs" using IH by simp
    next
      fix j assume h: "j \<notin> set (a # rest) \<or> var_ix_for_edges ! j \<noteq> i"
      with True have ne: "j \<noteq> a" by auto
      from h have "j \<notin> set rest \<or> var_ix_for_edges ! j \<noteq> i" by auto
      with IH have "vtof_msgs' ! j = vtof_msgs[a := msg] ! j" by blast
      with ne show "vtof_msgs' ! j = vtof_msgs ! j" by simp
    qed
  next
    case False
    with Cons.prems have
      r: "var_to_fac_edges g var taus lams_tp var_ix_for_edges i rest ix vtof_msgs =
            Inr vtof_msgs'"
      by simp
    from Cons.IH [OF r] False show ?thesis by auto
  qed
qed

lemma var_to_fac_edges_written:
  "var_to_fac_edges g var taus lams_tp var_ix_for_edges i js ix vtof_msgs = Inr vtof_msgs' \<Longrightarrow>
   distinct js \<Longrightarrow> j \<in> set js \<Longrightarrow> var_ix_for_edges ! j = i \<Longrightarrow> j < length vtof_msgs \<Longrightarrow>
   var_to_fac_message g var taus lams_tp
     (ix + length (filter (\<lambda>k. var_ix_for_edges ! k = i) (takeWhile (\<lambda>k. k \<noteq> j) js)))
     (vtof_msgs ! j) = Inr (vtof_msgs' ! j)"
proof (induction js arbitrary: ix vtof_msgs)
  case Nil
  then show ?case by simp
next
  case (Cons a rest)
  show ?case
  proof (cases "a = j")
    case True
    with Cons.prems obtain msg where
      m: "var_to_fac_message g var taus lams_tp ix (vtof_msgs ! j) = Inr msg" and
      r: "var_to_fac_edges g var taus lams_tp var_ix_for_edges i rest (ix + 1)
            (vtof_msgs[j := msg]) = Inr vtof_msgs'"
      by (auto split: sum.splits)
    from Cons.prems True have "j \<notin> set rest" by simp
    with var_to_fac_edges_frame [OF r] Cons.prems(5) have "vtof_msgs' ! j = msg" by simp
    with m True show ?thesis by simp
  next
    case False
    with Cons.prems have j: "j \<in> set rest" and d: "distinct rest" by simp_all
    show ?thesis
    proof (cases "var_ix_for_edges ! a = i")
      case True
      with Cons.prems obtain msg where
        r: "var_to_fac_edges g var taus lams_tp var_ix_for_edges i rest (ix + 1)
              (vtof_msgs[a := msg]) = Inr vtof_msgs'"
        by (auto split: sum.splits)
      from Cons.IH [OF r d j Cons.prems(4)] Cons.prems(5) False True
      show ?thesis by simp
    next
      case True': False
      with Cons.prems have
        r: "var_to_fac_edges g var taus lams_tp var_ix_for_edges i rest ix vtof_msgs =
              Inr vtof_msgs'"
        by simp
      from Cons.IH [OF r d j Cons.prems(4) Cons.prems(5)] False True'
      show ?thesis by simp
    qed
  qed
qed

lemma takeWhile_upt: "j < n \<Longrightarrow> takeWhile (\<lambda>k. k \<noteq> j) [0 ..< n] = [0 ..< j]"
proof -
  assume j: "j < n"
  then have "[0 ..< n] = [0 ..< j] @ [j ..< n]"
    using upt_add_eq_append [of 0 j "n - j"] by simp
  also have "[j ..< n] = j # [Suc j ..< n]"
    using j by (rule upt_conv_Cons)
  finally have e: "[0 ..< n] = [0 ..< j] @ j # [Suc j ..< n]" .
  have "takeWhile (\<lambda>k. k \<noteq> j) ([0 ..< j] @ j # [Suc j ..< n]) =
        [0 ..< j] @ takeWhile (\<lambda>k. k \<noteq> j) (j # [Suc j ..< n])"
    by (rule takeWhile_append2) simp
  then show ?thesis by (simp only: e) simp
qed

lemma pass_var_to_fac_var_frame:
  assumes "pass_var_to_fac_var g var_ix_for_edges ftov_msgs update_belief i
             (vtof_msgs, vars, beliefs) = Inr (vtof_msgs', vars', beliefs')"
  shows "length vtof_msgs' = length vtof_msgs \<and> length vars' = length vars \<and>
         (\<forall>k. k \<noteq> i \<longrightarrow> vars' ! k = vars ! k \<and> beliefs' ! k = beliefs ! k) \<and>
         (\<forall>j. var_ix_for_edges ! j \<noteq> i \<longrightarrow> vtof_msgs' ! j = vtof_msgs ! j)"
proof -
  from assms obtain out where
    e: "var_to_fac_edges g (vars ! i)
          (map fst (incoming g var_ix_for_edges ftov_msgs (vars ! i) i))
          (map snd (incoming g var_ix_for_edges ftov_msgs (vars ! i) i))
          var_ix_for_edges i [0 ..< length ftov_msgs] 0 vtof_msgs = Inr out"
    by (auto simp: pass_var_to_fac_var_def Let_def split: if_splits sum.splits)
  from assms e have v: "vtof_msgs' = out"
    by (auto simp: pass_var_to_fac_var_def Let_def split: if_splits sum.splits option.splits)
  from assms e have
    "length vars' = length vars \<and>
     (\<forall>k. k \<noteq> i \<longrightarrow> vars' ! k = vars ! k \<and> beliefs' ! k = beliefs ! k)"
    by (auto simp: pass_var_to_fac_var_def Let_def split: if_splits sum.splits option.splits)
  with var_to_fac_edges_frame [OF e] v show ?thesis by simp
qed

lemma pass_var_to_fac_var_written:
  assumes "pass_var_to_fac_var g var_ix_for_edges ftov_msgs update_belief i
             (vtof_msgs, vars, beliefs) = Inr (vtof_msgs', vars', beliefs')"
    and "j < length ftov_msgs" "j < length vtof_msgs" "var_ix_for_edges ! j = i"
  shows "var_to_fac_message g (vars ! i)
           (map fst (incoming g var_ix_for_edges ftov_msgs (vars ! i) i))
           (map snd (incoming g var_ix_for_edges ftov_msgs (vars ! i) i))
           (length (filter (\<lambda>k. var_ix_for_edges ! k = i) [0 ..< j]))
           (vtof_msgs ! j) = Inr (vtof_msgs' ! j)"
proof -
  from assms(1) obtain out where
    e: "var_to_fac_edges g (vars ! i)
          (map fst (incoming g var_ix_for_edges ftov_msgs (vars ! i) i))
          (map snd (incoming g var_ix_for_edges ftov_msgs (vars ! i) i))
          var_ix_for_edges i [0 ..< length ftov_msgs] 0 vtof_msgs = Inr out"
    by (auto simp: pass_var_to_fac_var_def Let_def split: if_splits sum.splits)
  from assms(1) e have v: "vtof_msgs' = out"
    by (auto simp: pass_var_to_fac_var_def Let_def split: if_splits sum.splits option.splits)
  have "j \<in> set [0 ..< length ftov_msgs]" using assms(2) by simp
  from var_to_fac_edges_written [OF e distinct_upt this assms(4) assms(3)] v assms(2)
  show ?thesis by (simp add: takeWhile_upt)
qed

lemma pass_var_to_fac_loop_frame:
  "pass_var_to_fac_loop g var_ix_for_edges ftov_msgs update_belief is
     (vtof_msgs, vars, beliefs) = Inr (vtof_msgs', vars', beliefs') \<Longrightarrow>
   length vtof_msgs' = length vtof_msgs \<and> length vars' = length vars \<and>
   (\<forall>k. k \<notin> set is \<longrightarrow> vars' ! k = vars ! k \<and> beliefs' ! k = beliefs ! k) \<and>
   (\<forall>j. var_ix_for_edges ! j \<notin> set is \<longrightarrow> vtof_msgs' ! j = vtof_msgs ! j)"
proof (induction "is" arbitrary: vtof_msgs vars beliefs)
  case Nil
  then show ?case by simp
next
  case (Cons a rest)
  from Cons.prems obtain vtof1 vars1 beliefs1 where
    s: "pass_var_to_fac_var g var_ix_for_edges ftov_msgs update_belief a
          (vtof_msgs, vars, beliefs) = Inr (vtof1, vars1, beliefs1)" and
    r: "pass_var_to_fac_loop g var_ix_for_edges ftov_msgs update_belief rest
          (vtof1, vars1, beliefs1) = Inr (vtof_msgs', vars', beliefs')"
    by (auto split: sum.splits)
  from Cons.IH [OF r] pass_var_to_fac_var_frame [OF s] show ?case by simp
qed

lemma pass_var_to_fac_loop_written:
  "pass_var_to_fac_loop g var_ix_for_edges ftov_msgs update_belief is
     (vtof_msgs, vars, beliefs) = Inr (vtof_msgs', vars', beliefs') \<Longrightarrow>
   distinct is \<Longrightarrow> var_ix_for_edges ! j \<in> set is \<Longrightarrow>
   j < length ftov_msgs \<Longrightarrow> j < length vtof_msgs \<Longrightarrow>
   var_to_fac_message g (vars ! (var_ix_for_edges ! j))
     (map fst (incoming g var_ix_for_edges ftov_msgs (vars ! (var_ix_for_edges ! j))
        (var_ix_for_edges ! j)))
     (map snd (incoming g var_ix_for_edges ftov_msgs (vars ! (var_ix_for_edges ! j))
        (var_ix_for_edges ! j)))
     (length (filter (\<lambda>k. var_ix_for_edges ! k = var_ix_for_edges ! j) [0 ..< j]))
     (vtof_msgs ! j) = Inr (vtof_msgs' ! j)"
proof (induction "is" arbitrary: vtof_msgs vars beliefs)
  case Nil
  then show ?case by simp
next
  case (Cons a rest)
  from Cons.prems(1) obtain vtof1 vars1 beliefs1 where
    s: "pass_var_to_fac_var g var_ix_for_edges ftov_msgs update_belief a
          (vtof_msgs, vars, beliefs) = Inr (vtof1, vars1, beliefs1)" and
    r: "pass_var_to_fac_loop g var_ix_for_edges ftov_msgs update_belief rest
          (vtof1, vars1, beliefs1) = Inr (vtof_msgs', vars', beliefs')"
    by (auto split: sum.splits)
  note f = pass_var_to_fac_var_frame [OF s]
  show ?case
  proof (cases "var_ix_for_edges ! j = a")
    case True
    with Cons.prems(2) have "var_ix_for_edges ! j \<notin> set rest" by auto
    with pass_var_to_fac_loop_frame [OF r] have "vtof_msgs' ! j = vtof1 ! j" by simp
    with pass_var_to_fac_var_written [OF s Cons.prems(4) Cons.prems(5) True] True
    show ?thesis by simp
  next
    case False
    with Cons.prems have m: "var_ix_for_edges ! j \<in> set rest" and d: "distinct rest"
      by simp_all
    from f Cons.prems(5) have l: "j < length vtof1" by simp
    from f False have "vars1 ! (var_ix_for_edges ! j) = vars ! (var_ix_for_edges ! j)"
      and "vtof1 ! j = vtof_msgs ! j" by simp_all
    with Cons.IH [OF r d m Cons.prems(4) l] show ?thesis by simp
  qed
qed

lemma pass_var_to_fac_loop_belief:
  "pass_var_to_fac_loop g var_ix_for_edges ftov_msgs update_belief is
     (vtof_msgs, vars, beliefs) = Inr (vtof_msgs', vars', beliefs') \<Longrightarrow>
   distinct is \<Longrightarrow>
   batch_count_nonzero
     (lam_tau_of (map snd (incoming g var_ix_for_edges ftov_msgs (vars ! i) i))) = 0 \<Longrightarrow>
   vars' ! i = vars ! i \<and> beliefs' ! i = beliefs ! i"
proof (induction "is" arbitrary: vtof_msgs vars beliefs)
  case Nil
  then show ?case by simp
next
  case (Cons a rest)
  from Cons.prems(1) obtain vtof1 vars1 beliefs1 where
    s: "pass_var_to_fac_var g var_ix_for_edges ftov_msgs update_belief a
          (vtof_msgs, vars, beliefs) = Inr (vtof1, vars1, beliefs1)" and
    r: "pass_var_to_fac_loop g var_ix_for_edges ftov_msgs update_belief rest
          (vtof1, vars1, beliefs1) = Inr (vtof_msgs', vars', beliefs')"
    by (auto split: sum.splits)
  have 1: "vars1 ! i = vars ! i \<and> beliefs1 ! i = beliefs ! i"
  proof (cases "a = i")
    case True
    with pass_var_to_fac_var_zero [OF s] Cons.prems(3) show ?thesis by simp
  next
    case False
    with pass_var_to_fac_var_frame [OF s] show ?thesis by simp
  qed
  from Cons.prems(2) have d: "distinct rest" by simp
  from Cons.IH [OF r d] Cons.prems(3) 1 show ?case by simp
qed

lemma comp_mess_loop_nth:
  "comp_mess_loop g self ovs vtof_msgs ftov_msgs damping vs sdim = Inr msgs \<Longrightarrow>
   k < length vs \<Longrightarrow>
   comp_mess_var g self ovs vtof_msgs ftov_msgs damping (vs ! k)
     (sdim + sum_list (map (\<lambda>u. g_dof g (ovs ! u)) (take k vs))) = Inr (msgs ! k)"
proof (induction vs arbitrary: sdim k msgs)
  case Nil
  then show ?case by simp
next
  case (Cons v rest)
  from Cons.prems(1) obtain m ms where
    a: "comp_mess_var g self ovs vtof_msgs ftov_msgs damping v sdim = Inr m" and
    b: "comp_mess_loop g self ovs vtof_msgs ftov_msgs damping rest
          (sdim + g_dof g (ovs ! v)) = Inr ms" and
    c: "msgs = m # ms"
    by (auto split: sum.splits)
  show ?case
  proof (cases k)
    case 0
    with a c show ?thesis by simp
  next
    case (Suc k')
    with Cons.prems(2) have "k' < length rest" by simp
    from Cons.IH [OF b this] Suc c show ?thesis by (simp add: add.assoc)
  qed
qed

lemma comp_mess_loop_length:
  "comp_mess_loop g self ovs vtof_msgs ftov_msgs damping vs sdim = Inr msgs \<Longrightarrow>
   length msgs = length vs"
  by (induction vs arbitrary: sdim msgs) (auto split: sum.splits)

lemma update_messages_nth:
  "update_messages msgs news = Inr msgs' \<Longrightarrow> k < length news \<Longrightarrow>
   gaussian_update (msgs ! k) (Some (mean (news ! k))) (Some (precision (news ! k))) =
     Inr (msgs' ! k)"
proof (induction msgs news arbitrary: msgs' k rule: update_messages.induct)
  case (1 msgs)
  then show ?case by simp
next
  case (2 new_mess rest)
  then show ?case by simp
next
  case (3 msg msgs new_mess rest)
  from "3.prems"(1) obtain m ms where
    a: "gaussian_update msg (Some (mean new_mess)) (Some (precision new_mess)) = Inr m" and
    b: "update_messages msgs rest = Inr ms" and c: "msgs' = m # ms"
    by (auto split: sum.splits)
  show ?case
  proof (cases k)
    case 0
    with a c show ?thesis by simp
  next
    case (Suc k')
    with "3.prems"(2) have "k' < length rest" by simp
    from "3.IH" [OF a b this] Suc c show ?thesis by simp
  qed
qed

lemma gaussian_update_zero:
  assumes "gaussian_update msg (Some ms) (Some P) = Inr msg'"
    and "list_all all_zero_data ms" "all_zero_mats P"
  shows "list_all all_zero_data (mean msg') \<and> all_zero_mats (precision msg')"
proof -
  from assms(1) have
    m: "mean msg' = map2 (\<lambda>old new. manifold_update old (m_data new)) (mean msg) ms" and
    p: "precision msg' = P"
    by (auto simp: gaussian_update_def split: if_splits)
  have "list_all all_zero_data (map2 (\<lambda>old new. manifold_update old (m_data new)) (mean msg) ms)"
    using assms(2)
    by (auto simp: list_all_iff all_zero_data_def manifold_update_def dest: set_zip_rightD)
  with m p assms(3) show ?thesis by simp
qed

lemma pass_var_to_fac_messages_zero_message:
  assumes "pass_var_to_fac_messages g var_ix_for_edges ftov_msgs vtof_msgs update_belief vars
             beliefs = Inr (vtof_msgs', vars', beliefs')"
    and "j < length ftov_msgs" "j < length vtof_msgs" "var_ix_for_edges ! j < length vars"
    and "batch_count_nonzero
           (lam_a_of
              (map snd (incoming g var_ix_for_edges ftov_msgs (vars ! (var_ix_for_edges ! j))
                 (var_ix_for_edges ! j)))
              (length (filter (\<lambda>k. var_ix_for_edges ! k = var_ix_for_edges ! j) [0 ..< j]))) = 0"
  shows "all_zero_mats (precision (vtof_msgs' ! j)) \<and> all_zero_data (hd (mean (vtof_msgs' ! j)))"
proof -
  from assms(1) have
    l: "pass_var_to_fac_loop g var_ix_for_edges ftov_msgs update_belief [0 ..< length vars]
          (vtof_msgs, vars, beliefs) = Inr (vtof_msgs', vars', beliefs')"
    by (simp add: pass_var_to_fac_messages_def)
  from assms(4) have m: "var_ix_for_edges ! j \<in> set [0 ..< length vars]" by simp
  note w = pass_var_to_fac_loop_written [OF l distinct_upt m assms(2) assms(3)]
  from assms(5) have z:
    "all_zero_mats
       (lam_a_of
          (map snd (incoming g var_ix_for_edges ftov_msgs (vars ! (var_ix_for_edges ! j))
             (var_ix_for_edges ! j)))
          (length (filter (\<lambda>k. var_ix_for_edges ! k = var_ix_for_edges ! j) [0 ..< j])))"
    by (simp add: batch_count_nonzero_0)
  show ?thesis
  proof (cases "mean (vtof_msgs ! j)")
    case Nil
    with w assms(5) show ?thesis
      by (simp add: var_to_fac_message_def Let_def)
  next
    case (Cons m0 ms)
    from var_to_fac_message_zero [OF assms(5) Cons] w have
      e: "vtof_msgs' ! j =
            (vtof_msgs ! j)
              \<lparr>mean := zero_data m0 # ms,
               precision :=
                 lam_a_of
                   (map snd (incoming g var_ix_for_edges ftov_msgs
                      (vars ! (var_ix_for_edges ! j)) (var_ix_for_edges ! j)))
                   (length (filter (\<lambda>k. var_ix_for_edges ! k = var_ix_for_edges ! j)
                      [0 ..< j]))\<rparr>"
      by simp
    show ?thesis by (simp add: e z)
  qed
qed

lemma pass_var_to_fac_messages_zero_belief:
  assumes "pass_var_to_fac_messages g var_ix_for_edges ftov_msgs vtof_msgs update_belief vars
             beliefs = Inr (vtof_msgs', vars', beliefs')"
    and "batch_count_nonzero
           (lam_tau_of (map snd (incoming g var_ix_for_edges ftov_msgs (vars ! i) i))) = 0"
  shows "vars' ! i = vars ! i \<and> beliefs' ! i = beliefs ! i"
proof -
  from assms(1) have
    l: "pass_var_to_fac_loop g var_ix_for_edges ftov_msgs update_belief [0 ..< length vars]
          (vtof_msgs, vars, beliefs) = Inr (vtof_msgs', vars', beliefs')"
    by (simp add: pass_var_to_fac_messages_def)
  from pass_var_to_fac_loop_belief [OF l distinct_upt assms(2)] show ?thesis .
qed

lemma comp_mess_zero_written:
  assumes "comp_mess g self ovs vtof_msgs ftov_msgs damping = Inr (new_messages, ftov_msgs')"
    and "v < length (f_vars self)"
    and "first_of (potential_eta self, potential_lam self) = Some (eta0, lam0)"
    and "take_product g self ovs vtof_msgs v [0 ..< length (f_vars self)] 0 (eta0, lam0) =
           Inr (eta_factor, lam_factor)"
    and "marginalise (sum_list (map (\<lambda>u. g_dof g (ovs ! u)) [0 ..< v])) (g_dof g (ovs ! v))
           eta_factor lam_factor = Inr (new_mess_eta, new_mess_lam)"
    and "count_nonzero new_mess_lam = 0"
  shows "all_zero_mats (precision (new_messages ! v)) \<and>
         list_all all_zero_data (mean (new_messages ! v)) \<and>
         all_zero_mats (precision (ftov_msgs' ! v)) \<and>
         list_all all_zero_data (mean (ftov_msgs' ! v))"
proof -
  from assms(1) have
    l: "comp_mess_loop g self ovs vtof_msgs ftov_msgs damping [0 ..< length (f_vars self)] 0 =
          Inr new_messages" and
    u: "update_messages ftov_msgs new_messages = Inr ftov_msgs'"
    by (auto simp: comp_mess_def Let_def split: sum.splits)
  from assms(2) have k: "v < length [0 ..< length (f_vars self)]" by simp
  from assms(2) have t: "take v [0 ..< length (f_vars self)] = [0 ..< v]"
    by (simp add: take_upt)
  from comp_mess_loop_nth [OF l k] assms(2) t have
    "comp_mess_var g self ovs vtof_msgs ftov_msgs damping v
       (sum_list (map (\<lambda>u. g_dof g (ovs ! u)) [0 ..< v])) = Inr (new_messages ! v)"
    by simp
  with comp_mess_var_zero [OF assms(3) assms(4) assms(5) assms(6)] have
    n: "new_messages ! v =
          \<lparr>mean = [zero_data (ovs ! v)],
           precision = replicate (length (m_data (ovs ! v)))
                         (zeros_mat (g_dof g (ovs ! v)) (g_dof g (ovs ! v)))\<rparr>"
    by simp
  then have z: "list_all all_zero_data (mean (new_messages ! v))"
    "all_zero_mats (precision (new_messages ! v))"
    by simp_all
  from comp_mess_loop_length [OF l] assms(2) have "v < length new_messages" by simp
  from update_messages_nth [OF u this] have
    "gaussian_update (ftov_msgs ! v) (Some (mean (new_messages ! v)))
       (Some (precision (new_messages ! v))) = Inr (ftov_msgs' ! v)" .
  from gaussian_update_zero [OF this z] z show ?thesis by simp
qed

text \<open>
  Claim C8, as it stands: whenever the aggregate precision of a message or belief update
  is exactly zero, no inversion is attempted, and the message produced by either pass has
  zero precision and zero mean. \<open>comp_mess\<close> inverts the block of the other variables of
  the product of the factor with its incoming messages before it tests the precision of
  the message: on a factor of two variables whose potential and incoming messages are
  zero, it raises. The variable-to-factor pass tests the sum over the whole batch: in a
  batch of two with the leave-one-out sum of an edge \<open>0\<close> in the first element and \<open>5\<close> in
  the second, it inverts the sum and raises.
\<close>

theorem C8_zero_aggregate_inverted:
  "comp_mess euclidean ex_factor2 [ex_var [0], ex_var [0]] [ex_msg [0] [0], ex_msg [0] [0]]
     [ex_msg [0] [0], ex_msg [0] [0]] [0, 0] = Inl SingularMatrix \<and>
   lam_a_of
     (map snd (incoming euclidean [0, 0] [ex_msg [0, 0] [0, 5], ex_msg [0, 0] [2, 2]]
        (ex_var [1, 1]) 0)) 1 = [[[0]], [[5]]] \<and>
   pass_var_to_fac_messages euclidean [0, 0] [ex_msg [0, 0] [0, 5], ex_msg [0, 0] [2, 2]]
     [ex_msg [0, 0] [0, 0], ex_msg [0, 0] [0, 0]] True [ex_var [1, 1]] [ex_msg [1, 1] [0, 0]] =
     Inl SingularMatrix"
  by code_simp

text \<open>
  Claim C8, amended. In the variable-to-factor pass, an edge whose leave-one-out sum
  \<open>lam_a\<close> is zero in every batch element gets its message without an inversion, and a pass
  that returns has written on that edge a message with zero precision and zero mean; a
  variable whose sum \<open>lam_tau\<close> is zero in every batch element keeps its value and its
  belief through the pass. In \<open>comp_mess\<close>, once the block of the other variables has been
  inverted, a marginal precision \<open>new_mess_lam\<close> that is zero gives without a further
  inversion the message with zero mean and zero precision, and a call that returns has
  written it on the edge of the variable. The inversion of a square zero matrix with at
  least one row raises.
\<close>

theorem C8_zero_precision:
  "(batch_count_nonzero (lam_a_of lams_tp ix) = 0 \<and> mean vtof_msg = m0 # ms \<longrightarrow>
      (\<exists>msg. var_to_fac_message g var taus lams_tp ix vtof_msg = Inr msg \<and>
             all_zero_mats (precision msg) \<and> all_zero_data (hd (mean msg)))) \<and>
   (pass_var_to_fac_messages g var_ix_for_edges ftov_msgs vtof_msgs update_belief vars beliefs =
      Inr (vtof_msgs', vars', beliefs') \<and>
    j < length ftov_msgs \<and> j < length vtof_msgs \<and> var_ix_for_edges ! j < length vars \<and>
    batch_count_nonzero
      (lam_a_of
         (map snd (incoming g var_ix_for_edges ftov_msgs (vars ! (var_ix_for_edges ! j))
            (var_ix_for_edges ! j)))
         (length (filter (\<lambda>k. var_ix_for_edges ! k = var_ix_for_edges ! j) [0 ..< j]))) = 0 \<longrightarrow>
      all_zero_mats (precision (vtof_msgs' ! j)) \<and>
      all_zero_data (hd (mean (vtof_msgs' ! j)))) \<and>
   (pass_var_to_fac_messages g var_ix_for_edges ftov_msgs vtof_msgs update_belief vars beliefs =
      Inr (vtof_msgs', vars', beliefs') \<and>
    batch_count_nonzero
      (lam_tau_of (map snd (incoming g var_ix_for_edges ftov_msgs (vars ! i) i))) = 0 \<longrightarrow>
      vars' ! i = vars ! i \<and> beliefs' ! i = beliefs ! i) \<and>
   (first_of (potential_eta self, potential_lam self) = Some (eta0, lam0) \<and>
    take_product g self ovs vtof_in v [0 ..< length (f_vars self)] 0 (eta0, lam0) =
      Inr (eta_factor, lam_factor) \<and>
    marginalise sdim (g_dof g (ovs ! v)) eta_factor lam_factor = Inr (new_mess_eta, new_mess_lam) \<and>
    count_nonzero new_mess_lam = 0 \<longrightarrow>
      (\<exists>msg. comp_mess_var g self ovs vtof_in ftov_in damping v sdim = Inr msg \<and>
             all_zero_mats (precision msg) \<and> list_all all_zero_data (mean msg))) \<and>
   (comp_mess g self ovs vtof_in ftov_in damping = Inr (new_messages, ftov_out) \<and>
    v < length (f_vars self) \<and>
    first_of (potential_eta self, potential_lam self) = Some (eta0, lam0) \<and>
    take_product g self ovs vtof_in v [0 ..< length (f_vars self)] 0 (eta0, lam0) =
      Inr (eta_factor, lam_factor) \<and>
    marginalise (sum_list (map (\<lambda>u. g_dof g (ovs ! u)) [0 ..< v])) (g_dof g (ovs ! v))
      eta_factor lam_factor = Inr (new_mess_eta, new_mess_lam) \<and>
    count_nonzero new_mess_lam = 0 \<longrightarrow>
      all_zero_mats (precision (new_messages ! v)) \<and>
      list_all all_zero_data (mean (new_messages ! v)) \<and>
      all_zero_mats (precision (ftov_out ! v)) \<and>
      list_all all_zero_data (mean (ftov_out ! v))) \<and>
   (A \<noteq> [] \<and> length (hd A) = length A \<and> count_nonzero A = 0 \<longrightarrow> matrix_inverse A = None)"
proof -
  have 1: "batch_count_nonzero (lam_a_of lams_tp ix) = 0 \<and> mean vtof_msg = m0 # ms \<longrightarrow>
      (\<exists>msg. var_to_fac_message g var taus lams_tp ix vtof_msg = Inr msg \<and>
             all_zero_mats (precision msg) \<and> all_zero_data (hd (mean msg)))"
  proof
    assume h: "batch_count_nonzero (lam_a_of lams_tp ix) = 0 \<and> mean vtof_msg = m0 # ms"
    then have "var_to_fac_message g var taus lams_tp ix vtof_msg =
             Inr (vtof_msg\<lparr>mean := zero_data m0 # ms, precision := lam_a_of lams_tp ix\<rparr>)"
      by (simp add: var_to_fac_message_zero)
    moreover have "all_zero_mats (lam_a_of lams_tp ix)"
      using h by (simp add: batch_count_nonzero_0)
    ultimately show "\<exists>msg. var_to_fac_message g var taus lams_tp ix vtof_msg = Inr msg \<and>
               all_zero_mats (precision msg) \<and> all_zero_data (hd (mean msg))"
      by simp
  qed
  have 2: "pass_var_to_fac_messages g var_ix_for_edges ftov_msgs vtof_msgs update_belief vars
        beliefs = Inr (vtof_msgs', vars', beliefs') \<and>
    j < length ftov_msgs \<and> j < length vtof_msgs \<and> var_ix_for_edges ! j < length vars \<and>
    batch_count_nonzero
      (lam_a_of
         (map snd (incoming g var_ix_for_edges ftov_msgs (vars ! (var_ix_for_edges ! j))
            (var_ix_for_edges ! j)))
         (length (filter (\<lambda>k. var_ix_for_edges ! k = var_ix_for_edges ! j) [0 ..< j]))) = 0 \<longrightarrow>
      all_zero_mats (precision (vtof_msgs' ! j)) \<and>
      all_zero_data (hd (mean (vtof_msgs' ! j)))"
    using pass_var_to_fac_messages_zero_message by blast
  have 3: "pass_var_to_fac_messages g var_ix_for_edges ftov_msgs vtof_msgs update_belief vars
        beliefs = Inr (vtof_msgs', vars', beliefs') \<and>
    batch_count_nonzero
      (lam_tau_of (map snd (incoming g var_ix_for_edges ftov_msgs (vars ! i) i))) = 0 \<longrightarrow>
      vars' ! i = vars ! i \<and> beliefs' ! i = beliefs ! i"
    using pass_var_to_fac_messages_zero_belief by blast
  have 4: "first_of (potential_eta self, potential_lam self) = Some (eta0, lam0) \<and>
    take_product g self ovs vtof_in v [0 ..< length (f_vars self)] 0 (eta0, lam0) =
      Inr (eta_factor, lam_factor) \<and>
    marginalise sdim (g_dof g (ovs ! v)) eta_factor lam_factor = Inr (new_mess_eta, new_mess_lam) \<and>
    count_nonzero new_mess_lam = 0 \<longrightarrow>
      (\<exists>msg. comp_mess_var g self ovs vtof_in ftov_in damping v sdim = Inr msg \<and>
             all_zero_mats (precision msg) \<and> list_all all_zero_data (mean msg))"
  proof
    assume h: "first_of (potential_eta self, potential_lam self) = Some (eta0, lam0) \<and>
      take_product g self ovs vtof_in v [0 ..< length (f_vars self)] 0 (eta0, lam0) =
        Inr (eta_factor, lam_factor) \<and>
      marginalise sdim (g_dof g (ovs ! v)) eta_factor lam_factor =
        Inr (new_mess_eta, new_mess_lam) \<and>
      count_nonzero new_mess_lam = 0"
    then have "comp_mess_var g self ovs vtof_in ftov_in damping v sdim =
             Inr \<lparr>mean = [zero_data (ovs ! v)],
                  precision = replicate (length (m_data (ovs ! v)))
                                (zeros_mat (g_dof g (ovs ! v)) (g_dof g (ovs ! v)))\<rparr>"
      using comp_mess_var_zero by blast
    then show "\<exists>msg. comp_mess_var g self ovs vtof_in ftov_in damping v sdim = Inr msg \<and>
               all_zero_mats (precision msg) \<and> list_all all_zero_data (mean msg)"
      by simp
  qed
  have 5: "comp_mess g self ovs vtof_in ftov_in damping = Inr (new_messages, ftov_out) \<and>
    v < length (f_vars self) \<and>
    first_of (potential_eta self, potential_lam self) = Some (eta0, lam0) \<and>
    take_product g self ovs vtof_in v [0 ..< length (f_vars self)] 0 (eta0, lam0) =
      Inr (eta_factor, lam_factor) \<and>
    marginalise (sum_list (map (\<lambda>u. g_dof g (ovs ! u)) [0 ..< v])) (g_dof g (ovs ! v))
      eta_factor lam_factor = Inr (new_mess_eta, new_mess_lam) \<and>
    count_nonzero new_mess_lam = 0 \<longrightarrow>
      all_zero_mats (precision (new_messages ! v)) \<and>
      list_all all_zero_data (mean (new_messages ! v)) \<and>
      all_zero_mats (precision (ftov_out ! v)) \<and>
      list_all all_zero_data (mean (ftov_out ! v))"
    using comp_mess_zero_written by blast
  have 6: "A \<noteq> [] \<and> length (hd A) = length A \<and> count_nonzero A = 0 \<longrightarrow>
             matrix_inverse A = None"
    by (simp add: matrix_inverse_zero)
  from 1 2 3 4 5 6 show ?thesis by (intro conjI)
qed

theorem C8_zero_precision_witness:
  "(\<exists>msg. var_to_fac_message euclidean (ex_var [1]) [[[3]]] [[[[5]]]] 0 (ex_msg [7] [2]) = Inr msg \<and>
          all_zero_mats (precision msg) \<and> all_zero_data (hd (mean msg))) \<and>
   (pass_var_to_fac_messages euclidean [0, 0] [ex_msg [3] [0], ex_msg [4] [5]]
      [ex_msg [7] [2], ex_msg [8] [9]] True [ex_var [1]] [ex_msg [1] [4]] =
      Inr ([ex_msg [4] [5], ex_msg [0] [0]], [ex_var [4]], [ex_msg [4] [5]]) \<and>
    all_zero_mats (precision ([ex_msg [4] [5], ex_msg [0] [0]] ! 1)) \<and>
    all_zero_data (hd (mean ([ex_msg [4] [5], ex_msg [0] [0]] ! 1)))) \<and>
   (pass_var_to_fac_messages euclidean [0, 0] [ex_msg [3] [0], ex_msg [4] [0]]
      [ex_msg [7] [2], ex_msg [8] [9]] True [ex_var [1]] [ex_msg [1] [4]] =
      Inr ([ex_msg [0] [0], ex_msg [0] [0]], [ex_var [1]], [ex_msg [1] [4]]) \<and>
    [ex_var [1]] ! 0 = [ex_var [1]] ! 0 \<and> [ex_msg [1] [4]] ! 0 = [ex_msg [1] [4]] ! 0) \<and>
   (\<exists>msg. comp_mess_var euclidean (ex_factor [0] [0] [0]) [ex_var [0]] [ex_msg [0] [0]]
            [ex_msg [6] [7]] [0] 0 0 = Inr msg \<and>
          all_zero_mats (precision msg) \<and> list_all all_zero_data (mean msg)) \<and>
   (comp_mess euclidean (ex_factor [0] [0] [0]) [ex_var [0]] [ex_msg [0] [0]] [ex_msg [6] [7]]
      [0] = Inr ([ex_msg [0] [0]], [ex_msg [0] [0]]) \<and>
    all_zero_mats (precision ([ex_msg [0] [0]] ! 0)) \<and>
    list_all all_zero_data (mean ([ex_msg [0] [0]] ! 0))) \<and>
   matrix_inverse [[0]] = None"
proof -
  have a: "batch_count_nonzero (lam_a_of [[[[5]]]] 0) = 0 \<and>
           mean (ex_msg [7] [2]) = ex_var [7] # []"
    by code_simp
  have b: "pass_var_to_fac_messages euclidean [0, 0] [ex_msg [3] [0], ex_msg [4] [5]]
             [ex_msg [7] [2], ex_msg [8] [9]] True [ex_var [1]] [ex_msg [1] [4]] =
             Inr ([ex_msg [4] [5], ex_msg [0] [0]], [ex_var [4]], [ex_msg [4] [5]]) \<and>
           1 < length [ex_msg [3] [0], ex_msg [4] [5]] \<and>
           1 < length [ex_msg [7] [2], ex_msg [8] [9]] \<and>
           [0, 0] ! 1 < length [ex_var [1]] \<and>
           batch_count_nonzero
             (lam_a_of
                (map snd (incoming euclidean [0, 0] [ex_msg [3] [0], ex_msg [4] [5]]
                   ([ex_var [1]] ! ([0, 0] ! 1)) ([0, 0] ! 1)))
                (length (filter (\<lambda>k. [0, 0 :: nat] ! k = [0, 0] ! 1) [0 ..< 1]))) = 0"
    by code_simp
  have c: "pass_var_to_fac_messages euclidean [0, 0] [ex_msg [3] [0], ex_msg [4] [0]]
             [ex_msg [7] [2], ex_msg [8] [9]] True [ex_var [1]] [ex_msg [1] [4]] =
             Inr ([ex_msg [0] [0], ex_msg [0] [0]], [ex_var [1]], [ex_msg [1] [4]]) \<and>
           batch_count_nonzero
             (lam_tau_of
                (map snd (incoming euclidean [0, 0] [ex_msg [3] [0], ex_msg [4] [0]]
                   ([ex_var [1]] ! 0) 0))) = 0"
    by code_simp
  have d: "first_of (potential_eta (ex_factor [0] [0] [0]), potential_lam (ex_factor [0] [0] [0])) =
             Some ([0], [[0]]) \<and>
           take_product euclidean (ex_factor [0] [0] [0]) [ex_var [0]] [ex_msg [0] [0]] 0
             [0 ..< length (f_vars (ex_factor [0] [0] [0]))] 0 ([0], [[0]]) = Inr ([0], [[0]]) \<and>
           marginalise 0 (g_dof euclidean ([ex_var [0]] ! 0)) [0] [[0]] = Inr ([0], [[0]]) \<and>
           count_nonzero [[0]] = 0"
    by code_simp
  have e: "comp_mess euclidean (ex_factor [0] [0] [0]) [ex_var [0]] [ex_msg [0] [0]]
             [ex_msg [6] [7]] [0] = Inr ([ex_msg [0] [0]], [ex_msg [0] [0]]) \<and>
           0 < length (f_vars (ex_factor [0] [0] [0])) \<and>
           first_of (potential_eta (ex_factor [0] [0] [0]), potential_lam (ex_factor [0] [0] [0])) =
             Some ([0], [[0]]) \<and>
           take_product euclidean (ex_factor [0] [0] [0]) [ex_var [0]] [ex_msg [0] [0]] 0
             [0 ..< length (f_vars (ex_factor [0] [0] [0]))] 0 ([0], [[0]]) = Inr ([0], [[0]]) \<and>
           marginalise (sum_list (map (\<lambda>u. g_dof euclidean ([ex_var [0]] ! u)) [0 ..< 0]))
             (g_dof euclidean ([ex_var [0]] ! 0)) [0] [[0]] = Inr ([0], [[0]]) \<and>
           count_nonzero [[0]] = 0"
    by code_simp
  have f: "[[0 :: real]] \<noteq> [] \<and> length (hd [[0 :: real]]) = length [[0 :: real]] \<and>
           count_nonzero [[0]] = 0"
    by (simp add: count_nonzero_def)
  note t = C8_zero_precision
    [where lams_tp = "[[[[5]]]]" and ix = 0 and vtof_msg = "ex_msg [7] [2]" and ?m0.0 = "ex_var [7]"
       and ms = "[]" and g = euclidean and var = "ex_var [1]" and taus = "[[[3]]]"
       and var_ix_for_edges = "[0, 0]" and ftov_msgs = "[ex_msg [3] [0], ex_msg [4] [5]]"
       and update_belief = True and j = 1 and vtof_msgs = "[ex_msg [7] [2], ex_msg [8] [9]]"
       and vars = "[ex_var [1]]" and beliefs = "[ex_msg [1] [4]]"
       and vtof_msgs' = "[ex_msg [4] [5], ex_msg [0] [0]]"
       and vars' = "[ex_var [4]]" and beliefs' = "[ex_msg [4] [5]]"
       and self = "ex_factor [0] [0] [0]" and ?eta0.0 = "[0]" and ?lam0.0 = "[[0]]"
       and ovs = "[ex_var [0]]" and vtof_in = "[ex_msg [0] [0]]" and v = 0
       and eta_factor = "[0]" and lam_factor = "[[0]]" and sdim = 0 and new_mess_eta = "[0]"
       and new_mess_lam = "[[0]]" and ftov_in = "[ex_msg [6] [7]]" and damping = "[0]"
       and new_messages = "[ex_msg [0] [0]]" and ftov_out = "[ex_msg [0] [0]]"
       and A = "[[0]]"]
  note u = C8_zero_precision
    [where g = euclidean and var_ix_for_edges = "[0, 0]"
       and ftov_msgs = "[ex_msg [3] [0], ex_msg [4] [0]]"
       and update_belief = True and vtof_msgs = "[ex_msg [7] [2], ex_msg [8] [9]]"
       and vars = "[ex_var [1]]" and beliefs = "[ex_msg [1] [4]]"
       and vtof_msgs' = "[ex_msg [0] [0], ex_msg [0] [0]]"
       and vars' = "[ex_var [1]]" and beliefs' = "[ex_msg [1] [4]]" and i = 0]
  from t [THEN conjunct1] a
  have 1: "\<exists>msg. var_to_fac_message euclidean (ex_var [1]) [[[3]]] [[[[5]]]] 0
                      (ex_msg [7] [2]) = Inr msg \<and>
          all_zero_mats (precision msg) \<and> all_zero_data (hd (mean msg))"
    by blast
  from t [THEN conjunct2, THEN conjunct1] b
  have 2: "all_zero_mats (precision ([ex_msg [4] [5], ex_msg [0] [0]] ! 1)) \<and>
    all_zero_data (hd (mean ([ex_msg [4] [5], ex_msg [0] [0]] ! 1)))"
    by blast
  from u [THEN conjunct2, THEN conjunct2, THEN conjunct1] c
  have 3: "[ex_var [1]] ! 0 = [ex_var [1]] ! 0 \<and> [ex_msg [1] [4]] ! 0 = [ex_msg [1] [4]] ! 0"
    by blast
  from t [THEN conjunct2, THEN conjunct2, THEN conjunct2, THEN conjunct1] d
  have 4: "\<exists>msg. comp_mess_var euclidean (ex_factor [0] [0] [0]) [ex_var [0]]
            [ex_msg [0] [0]] [ex_msg [6] [7]] [0] 0 0 = Inr msg \<and>
          all_zero_mats (precision msg) \<and> list_all all_zero_data (mean msg)"
    by blast
  from t [THEN conjunct2, THEN conjunct2, THEN conjunct2, THEN conjunct2, THEN conjunct1] e
  have 5: "all_zero_mats (precision ([ex_msg [0] [0]] ! 0)) \<and>
    list_all all_zero_data (mean ([ex_msg [0] [0]] ! 0))"
    by blast
  from t [THEN conjunct2, THEN conjunct2, THEN conjunct2, THEN conjunct2, THEN conjunct2] f
  have 6: "matrix_inverse [[0]] = None"
    by blast
  from 1 2 3 4 5 6 b c e show ?thesis by blast
qed

subsection \<open>The algebra of square matrices\<close>

lemma squareD:
  assumes "square d A"
  shows "length A = d" and "\<And>i. i < d \<Longrightarrow> length (A ! i) = d"
  using assms by (auto simp: square_def list_all_iff)

lemma squareI:
  assumes "length A = d" "\<And>i. i < d \<Longrightarrow> length (A ! i) = d"
  shows "square d A"
  using assms by (auto simp: square_def list_all_iff in_set_conv_nth)

lemma dot_sum:
  assumes "length u = d" "length v = d"
  shows "dot u v = (\<Sum>k<d. u ! k * v ! k)"
proof -
  have "dot u v = (\<Sum>k = 0 ..< length (map2 (*) u v). map2 (*) u v ! k)"
    unfolding dot_def by (rule sum_list_sum_nth)
  also have "\<dots> = (\<Sum>k = 0 ..< d. u ! k * v ! k)"
    using assms by (intro sum.cong) auto
  finally show ?thesis by (simp add: atLeast0LessThan)
qed

lemma col_nth: "k < length B \<Longrightarrow> col B j ! k = B ! k ! j"
  by (simp add: col_def)

lemma length_col [simp]: "length (col B j) = length B"
  by (simp add: col_def)

lemma matmul_nth:
  assumes "square d A" "length B = d" "i < d" "j < d"
  shows "matmul d A B ! i ! j = (\<Sum>k<d. A ! i ! k * B ! k ! j)"
proof -
  have "matmul d A B ! i ! j = dot (A ! i) (col B j)"
    using assms squareD [OF assms(1)] by (simp add: matmul_def)
  also have "\<dots> = (\<Sum>k<d. A ! i ! k * col B j ! k)"
    using assms squareD [OF assms(1)] by (intro dot_sum) auto
  also have "\<dots> = (\<Sum>k<d. A ! i ! k * B ! k ! j)"
    using assms by (intro sum.cong) (auto simp: col_nth)
  finally show ?thesis .
qed

lemma square_matmul: "length A = d \<Longrightarrow> square d (matmul d A B)"
  by (simp add: square_def matmul_def list_all_iff)

lemma ncols_square: "square d A \<Longrightarrow> ncols A = d"
  by (cases A) (auto simp: square_def ncols_def)

lemma square_transpose: "square d A \<Longrightarrow> square d (mat_transpose A)"
  by (simp add: mat_transpose_def ncols_square) (simp add: square_def list_all_iff)

lemma transpose_nth:
  assumes "square d A" "i < d" "j < d"
  shows "mat_transpose A ! i ! j = A ! j ! i"
  using assms squareD [OF assms(1)]
  by (simp add: mat_transpose_def ncols_square col_nth)

lemma square_identity: "square d (identity_mat d)"
  by (simp add: square_def identity_mat_def list_all_iff)

lemma identity_nth: "i < d \<Longrightarrow> j < d \<Longrightarrow> identity_mat d ! i ! j = (if i = j then 1 else 0)"
  by (simp add: identity_mat_def)

lemma mat_eqI:
  assumes "square d A" "square d B" "\<And>i j. i < d \<Longrightarrow> j < d \<Longrightarrow> A ! i ! j = B ! i ! j"
  shows "A = B"
proof (rule nth_equalityI)
  show "length A = length B" using assms(1,2) by (simp add: squareD)
next
  fix i assume "i < length A"
  then have i: "i < d" using assms(1) by (simp add: squareD)
  show "A ! i = B ! i"
  proof (rule nth_equalityI)
    show "length (A ! i) = length (B ! i)"
      using i assms(1,2) by (simp add: squareD)
  next
    fix j assume "j < length (A ! i)"
    then have "j < d" using i assms(1) by (simp add: squareD)
    with i show "A ! i ! j = B ! i ! j" by (rule assms(3))
  qed
qed

lemma matmul_assoc:
  assumes "square d A" "square d B" "square d C"
  shows "matmul d (matmul d A B) C = matmul d A (matmul d B C)"
proof (rule mat_eqI [where d = d])
  show "square d (matmul d (matmul d A B) C)"
    by (rule square_matmul) (simp add: matmul_def squareD [OF assms(1)])
  show "square d (matmul d A (matmul d B C))"
    by (rule square_matmul) (simp add: squareD [OF assms(1)])
  fix i j assume ij: "i < d" "j < d"
  have AB: "square d (matmul d A B)" by (rule square_matmul) (simp add: squareD [OF assms(1)])
  have BC: "square d (matmul d B C)" by (rule square_matmul) (simp add: squareD [OF assms(2)])
  have "matmul d (matmul d A B) C ! i ! j = (\<Sum>k<d. matmul d A B ! i ! k * C ! k ! j)"
    by (rule matmul_nth [OF AB _ ij]) (simp add: squareD [OF assms(3)])
  also have "\<dots> = (\<Sum>k<d. (\<Sum>l<d. A ! i ! l * B ! l ! k) * C ! k ! j)"
    by (intro sum.cong refl)
       (simp add: matmul_nth [OF assms(1) _ ij(1)] squareD [OF assms(2)])
  also have "\<dots> = (\<Sum>k<d. \<Sum>l<d. A ! i ! l * B ! l ! k * C ! k ! j)"
    by (simp add: sum_distrib_right)
  also have "\<dots> = (\<Sum>l<d. \<Sum>k<d. A ! i ! l * B ! l ! k * C ! k ! j)"
    by (rule sum.swap)
  also have "\<dots> = (\<Sum>l<d. A ! i ! l * (\<Sum>k<d. B ! l ! k * C ! k ! j))"
    by (simp add: sum_distrib_left mult.assoc)
  also have "\<dots> = (\<Sum>l<d. A ! i ! l * matmul d B C ! l ! j)"
    by (intro sum.cong refl)
       (simp add: matmul_nth [OF assms(2) _ _ ij(2)] squareD [OF assms(3)])
  also have "\<dots> = matmul d A (matmul d B C) ! i ! j"
    by (rule matmul_nth [OF assms(1) _ ij, symmetric]) (simp add: squareD [OF BC])
  finally show "matmul d (matmul d A B) C ! i ! j = matmul d A (matmul d B C) ! i ! j" .
qed

lemma transpose_matmul:
  assumes "square d A" "square d B"
  shows "mat_transpose (matmul d A B) = matmul d (mat_transpose B) (mat_transpose A)"
proof (rule mat_eqI [where d = d])
  have AB: "square d (matmul d A B)" by (rule square_matmul) (simp add: squareD [OF assms(1)])
  show "square d (mat_transpose (matmul d A B))" by (rule square_transpose [OF AB])
  show "square d (matmul d (mat_transpose B) (mat_transpose A))"
    by (rule square_matmul) (simp add: squareD [OF square_transpose [OF assms(2)]])
  fix i j assume ij: "i < d" "j < d"
  have "mat_transpose (matmul d A B) ! i ! j = matmul d A B ! j ! i"
    by (rule transpose_nth [OF AB ij])
  also have "\<dots> = (\<Sum>k<d. A ! j ! k * B ! k ! i)"
    by (rule matmul_nth [OF assms(1) _ ij(2) ij(1)]) (simp add: squareD [OF assms(2)])
  also have "\<dots> = (\<Sum>k<d. mat_transpose B ! i ! k * mat_transpose A ! k ! j)"
    by (intro sum.cong refl)
       (simp add: transpose_nth [OF assms(1)] transpose_nth [OF assms(2)] ij mult.commute)
  also have "\<dots> = matmul d (mat_transpose B) (mat_transpose A) ! i ! j"
    by (rule matmul_nth [OF square_transpose [OF assms(2)] _ ij, symmetric])
       (simp add: squareD [OF square_transpose [OF assms(1)]])
  finally show "mat_transpose (matmul d A B) ! i ! j =
                matmul d (mat_transpose B) (mat_transpose A) ! i ! j" .
qed

lemma matmul_identity_right:
  assumes "square d A"
  shows "matmul d A (identity_mat d) = A"
proof (rule mat_eqI [where d = d])
  show "square d (matmul d A (identity_mat d))"
    by (rule square_matmul) (simp add: squareD [OF assms])
  show "square d A" by (rule assms)
  fix i j assume ij: "i < d" "j < d"
  have "matmul d A (identity_mat d) ! i ! j = (\<Sum>k<d. A ! i ! k * identity_mat d ! k ! j)"
    by (rule matmul_nth [OF assms _ ij]) (simp add: squareD [OF square_identity])
  also have "\<dots> = (\<Sum>k<d. if k = j then A ! i ! k else 0)"
    by (intro sum.cong refl) (simp add: identity_nth ij)
  also have "\<dots> = A ! i ! j"
    using ij by (simp add: sum.delta)
  finally show "matmul d A (identity_mat d) ! i ! j = A ! i ! j" .
qed

lemma matmul_identity_left:
  assumes "square d A"
  shows "matmul d (identity_mat d) A = A"
proof (rule mat_eqI [where d = d])
  show "square d (matmul d (identity_mat d) A)"
    by (rule square_matmul) (simp add: squareD [OF square_identity])
  show "square d A" by (rule assms)
  fix i j assume ij: "i < d" "j < d"
  have "matmul d (identity_mat d) A ! i ! j = (\<Sum>k<d. identity_mat d ! i ! k * A ! k ! j)"
    by (rule matmul_nth [OF square_identity _ ij]) (simp add: squareD [OF assms])
  also have "\<dots> = (\<Sum>k<d. if k = i then A ! k ! j else 0)"
    by (intro sum.cong refl) (auto simp: identity_nth ij)
  also have "\<dots> = A ! i ! j"
    using ij by (simp add: sum.delta)
  finally show "matmul d (identity_mat d) A ! i ! j = A ! i ! j" .
qed

lemma transpose_identity: "mat_transpose (identity_mat d) = identity_mat d"
proof (rule mat_eqI [where d = d])
  show "square d (mat_transpose (identity_mat d))"
    by (rule square_transpose [OF square_identity])
  show "square d (identity_mat d)" by (rule square_identity)
  fix i j assume ij: "i < d" "j < d"
  then show "mat_transpose (identity_mat d) ! i ! j = identity_mat d ! i ! j"
    by (auto simp: transpose_nth [OF square_identity] identity_nth)
qed

text \<open>The pull-back of a precision with the inverse Jacobian, pushed forward again.\<close>

lemma round_trip_matrix:
  assumes P: "square d P" and J: "square d J" and Ji: "square d Ji"
    and inv: "matmul d Ji J = identity_mat d"
  shows "matmul d (matmul d (mat_transpose J) (matmul d (matmul d (mat_transpose Ji) P) Ji)) J = P"
proof -
  let ?Jt = "mat_transpose J" and ?Jit = "mat_transpose Ji"
  have Jt: "square d ?Jt" and Jit: "square d ?Jit"
    by (rule square_transpose [OF J], rule square_transpose [OF Ji])
  have JitP: "square d (matmul d ?Jit P)"
    by (rule square_matmul) (simp add: squareD [OF Jit])
  have Q: "square d (matmul d (matmul d ?Jit P) Ji)"
    by (rule square_matmul) (simp add: squareD [OF JitP])
  have "matmul d (matmul d ?Jt (matmul d (matmul d ?Jit P) Ji)) J =
        matmul d ?Jt (matmul d (matmul d (matmul d ?Jit P) Ji) J)"
    by (rule matmul_assoc [OF Jt Q J])
  also have "matmul d (matmul d (matmul d ?Jit P) Ji) J = matmul d (matmul d ?Jit P) (matmul d Ji J)"
    by (rule matmul_assoc [OF JitP Ji J])
  also have "\<dots> = matmul d ?Jit P"
    by (simp add: inv matmul_identity_right [OF JitP])
  also have "matmul d ?Jt (matmul d ?Jit P) = matmul d (matmul d ?Jt ?Jit) P"
    by (rule matmul_assoc [OF Jt Jit P, symmetric])
  also have "matmul d ?Jt ?Jit = mat_transpose (matmul d Ji J)"
    by (rule transpose_matmul [OF Ji J, symmetric])
  also have "\<dots> = identity_mat d"
    by (simp add: inv transpose_identity)
  also have "matmul d (identity_mat d) P = P"
    by (rule matmul_identity_left [OF P])
  finally show ?thesis .
qed


subsection \<open>\<open>retract_gaussian\<close> and \<open>local_gaussian\<close> are inverses\<close>

lemma bmm_square:
  assumes "list_all (square d) Bs"
  shows "bmm As Bs = map2 (matmul d) As Bs"
  unfolding bmm_def
proof (rule map_cong [OF refl])
  fix x assume "x \<in> set (zip As Bs)"
  then have "snd x \<in> set Bs" by (metis prod.collapse set_zip_rightD)
  with assms have "ncols (snd x) = d" by (auto simp: list_all_iff ncols_square)
  then show "(case x of (A, B) \<Rightarrow> matmul (ncols B) A B) = (case x of (A, B) \<Rightarrow> matmul d A B)"
    by (cases x) simp
qed

lemma shape3_square:
  assumes "0 < length As" "list_all (square d) As"
  shows "shape3 As = [length As, d, d]"
  using assms by (cases As) (auto simp: shape3_def ncols_square squareD)

lemma round_trip_batch:
  assumes P: "length Ps = B" "list_all (square d) Ps"
    and J: "length Js = B" "list_all (square d) Js"
    and Ji: "list_all (square d) Jis"
    and inv: "list_all2 (\<lambda>Ji J. matmul d Ji J = identity_mat d) Jis Js"
  defines "NP \<equiv> bmm (bmm (batch_transpose Jis) Ps) Jis"
  shows "length NP = B" and "list_all (square d) NP"
    and "bmm (bmm (batch_transpose Js) NP) Js = Ps"
proof -
  have lJi: "length Jis = B" using inv J(1) by (simp add: list_all2_lengthD)
  have sq: "\<And>b. b < B \<Longrightarrow> square d (Ps ! b) \<and> square d (Js ! b) \<and> square d (Jis ! b)"
    using P J Ji lJi by (simp add: list_all_length)
  have NP_eq: "NP = map2 (matmul d) (map2 (matmul d) (batch_transpose Jis) Ps) Jis"
    unfolding NP_def by (simp add: bmm_square [OF Ji] bmm_square [OF P(2)])
  show lNP: "length NP = B"
    by (simp add: NP_eq batch_transpose_def lJi P(1))
  have NP_nth: "\<And>b. b < B \<Longrightarrow>
      NP ! b = matmul d (matmul d (mat_transpose (Jis ! b)) (Ps ! b)) (Jis ! b)"
    by (simp add: NP_eq batch_transpose_def lJi P(1))
  have NP_sq: "\<And>b. b < B \<Longrightarrow> square d (NP ! b)"
  proof -
    fix b assume b: "b < B"
    have "square d (matmul d (mat_transpose (Jis ! b)) (Ps ! b))"
      by (rule square_matmul) (simp add: squareD [OF square_transpose] sq [OF b])
    then have "square d (matmul d (matmul d (mat_transpose (Jis ! b)) (Ps ! b)) (Jis ! b))"
      by (intro square_matmul) (simp add: squareD)
    then show "square d (NP ! b)" by (simp add: NP_nth [OF b])
  qed
  show sNP: "list_all (square d) NP"
    using NP_sq lNP by (simp add: list_all_length)
  have eq: "bmm (bmm (batch_transpose Js) NP) Js =
            map2 (matmul d) (map2 (matmul d) (batch_transpose Js) NP) Js"
    by (simp add: bmm_square [OF J(2)] bmm_square [OF sNP])
  show "bmm (bmm (batch_transpose Js) NP) Js = Ps"
  proof (rule nth_equalityI)
    show "length (bmm (bmm (batch_transpose Js) NP) Js) = length Ps"
      unfolding eq by (simp add: batch_transpose_def lNP J(1) P(1))
  next
    fix b assume "b < length (bmm (bmm (batch_transpose Js) NP) Js)"
    then have b: "b < B" unfolding eq by (simp add: batch_transpose_def lNP J(1))
    have i: "matmul d (Jis ! b) (Js ! b) = identity_mat d"
      using inv b lJi by (simp add: list_all2_conv_all_nth)
    have "bmm (bmm (batch_transpose Js) NP) Js ! b =
          matmul d (matmul d (mat_transpose (Js ! b)) (NP ! b)) (Js ! b)"
      using b unfolding eq by (simp add: batch_transpose_def lNP J(1))
    also have "\<dots> = Ps ! b"
      using sq [OF b] i by (simp add: NP_nth [OF b] round_trip_matrix)
    finally show "bmm (bmm (batch_transpose Js) NP) Js ! b = Ps ! b" .
  qed
qed

text \<open>
  Claim C7, as it stands: for every point \<open>p\<close> and every tangent-space Gaussian with an
  invertible Jacobian of the exponential map at its mean, \<open>retract_gaussian\<close> at \<open>p\<close> followed
  by \<open>local_gaussian\<close> at \<open>p\<close> gives back the mean and the precision. On the circle of
  circumference \<open>6\<close> the Jacobian is the identity, and the tangent mean \<open>4\<close> at the angle \<open>0\<close>
  comes back as \<open>- 2\<close>: \<open>local\<close> gives the difference of two angles within half a turn.
\<close>

theorem C7_wrapping_local_changes_mean:
  "batch_inverse (g_exp_map_jac ex_circle (ex_var [0]) [[4]]) = Some [[[1]]] \<and>
   map_sum id (\<lambda>out'. local_gaussian ex_circle out' (ex_var [0]) True)
     (retract_gaussian ex_circle [[4]] [[[1]]] (ex_var [0]) (ex_msg [0] [0])) =
     Inr ([[- 2]], [[[1]]])"
  by code_simp

text \<open>
  Claim C7, amended. Over the reals, \<open>retract_gaussian\<close> at the base point \<open>p\<close> followed by
  \<open>local_gaussian\<close> at the same base point gives back the tangent-space Gaussian
  \<open>(mean_tp, precision_tp)\<close>, for a batch of \<open>B\<close> square precisions of dimension \<open>d\<close>:
  when the Jacobian \<open>J\<close> of the exponential map at \<open>mean_tp\<close> is invertible, the inverse
  that is computed being \<open>Ji\<close> with \<open>Ji J = 1\<close>; when \<open>local\<close> at \<open>p\<close> maps the point that
  \<open>retract\<close> at \<open>p\<close> gives for \<open>mean_tp\<close> back to \<open>mean_tp\<close>; and when the Gaussian written to
  has one mean and a precision of the shape \<open>[B, d, d]\<close>, so that its \<open>update\<close> accepts the
  new values.
\<close>

theorem C7_round_trip:
  assumes B: "0 < B"
    and P: "length precision_tp = B" "list_all (square d) precision_tp"
    and J: "g_exp_map_jac g p mean_tp = J" "length J = B" "list_all (square d) J"
    and Ji: "batch_inverse J = Some Ji" "list_all (square d) Ji"
      "list_all2 (\<lambda>Ji_b J_b. matmul d Ji_b J_b = identity_mat d) Ji J"
    and out: "length (mean out_gauss) = 1" "shape3 (precision out_gauss) = [B, d, d]"
    and contract:
      "g_local g p (manifold_update (hd (mean out_gauss)) (g_retract g p mean_tp)) = mean_tp"
  shows "\<exists>out'. retract_gaussian g mean_tp precision_tp p out_gauss = Inr out' \<and>
                local_gaussian g out' p True = (mean_tp, precision_tp)"
proof -
  define NP where "NP = bmm (bmm (batch_transpose Ji) precision_tp) Ji"
  note rt = round_trip_batch [OF P J(2,3) Ji(2,3), folded NP_def]
  have sh: "shape3 NP = [B, d, d]"
    using shape3_square [of NP d] rt(1,2) B by simp
  obtain m0 where m0: "mean out_gauss = [m0]"
    using out(1) by (cases "mean out_gauss") auto
  define out' where
    "out' = out_gauss\<lparr>mean := [manifold_update m0 (g_retract g p mean_tp)], precision := NP\<rparr>"
  have r: "retract_gaussian g mean_tp precision_tp p out_gauss = Inr out'"
    by (simp add: retract_gaussian_def J(1) Ji(1) gaussian_update_def m0 sh out(2) out'_def
        NP_def [symmetric])
  have c: "g_local g p (manifold_update m0 (g_retract g p mean_tp)) = mean_tp"
    using contract by (simp add: m0)
  have l: "local_gaussian g out' p True = (mean_tp, precision_tp)"
    by (simp add: local_gaussian_def out'_def c J(1) rt(3))
  from r l show ?thesis by blast
qed

theorem C7_round_trip_witness:
  "\<exists>out'. retract_gaussian ex_scaled [[1], [2]] [[[3]], [[5]]] (ex_var [4, 6]) (ex_msg [0, 0] [0, 0])
            = Inr out' \<and>
          local_gaussian ex_scaled out' (ex_var [4, 6]) True = ([[1], [2]], [[[3]], [[5]]])"
proof -
  have a: "length [[[3 :: real]], [[5]]] = 2 \<and> list_all (square 1) [[[3]], [[5]]] \<and>
           g_exp_map_jac ex_scaled (ex_var [4, 6]) [[1], [2]] = [[[2]], [[2]]] \<and>
           length [[[2 :: real]], [[2]]] = 2 \<and> list_all (square 1) [[[2]], [[2]]] \<and>
           batch_inverse [[[2]], [[2]]] = Some [[[1 / 2]], [[1 / 2]]] \<and>
           list_all (square 1) [[[1 / 2]], [[1 / 2]]] \<and>
           list_all2 (\<lambda>Ji_b J_b. matmul 1 Ji_b J_b = identity_mat 1)
             [[[1 / 2]], [[1 / 2]]] [[[2]], [[2]]] \<and>
           length (mean (ex_msg [0, 0] [0, 0])) = 1 \<and>
           shape3 (precision (ex_msg [0, 0] [0, 0])) = [2, 1, 1] \<and>
           g_local ex_scaled (ex_var [4, 6])
             (manifold_update (hd (mean (ex_msg [0, 0] [0, 0])))
                (g_retract ex_scaled (ex_var [4, 6]) [[1], [2]])) = [[1], [2]]"
    by code_simp
  show ?thesis
    using C7_round_trip [of 2 "[[[3]], [[5]]]" 1 ex_scaled "ex_var [4, 6]" "[[1], [2]]"
        "[[[2]], [[2]]]" "[[[1 / 2]], [[1 / 2]]]" "ex_msg [0, 0] [0, 0]"] a
    by simp
qed

end
